(* ===== verification/Dpa_Prelude.thy ===== *)
theory Dpa_Prelude
  imports Main "HOL-Library.Word"
begin

text \<open>
  Prelude of the development: the machine integers of the C sources, the byte-addressed
  memory that every DPA program reads and writes through raw pointers, and the lemmas on
  words, masks and memory regions that the component theories share.

  Memory is a total function from 64-bit addresses to bytes.  The DPA cores are
  little-endian RISC-V, so a multi-byte access through a cast pointer, such as
  \<open>*(size_t *)(sq_data + 6)\<close>, is \<open>load_le\<close> or \<open>store_le\<close> with the width in bytes.
  Address arithmetic wraps at \<open>2^64\<close>, as it does on the device.

  The collection \<open>mem_simps\<close> holds the rewrite rules that push loads through stores;
  \<open>ring_simps\<close> those on ring indices.
\<close>

unbundle bit_operations_syntax

named_theorems mem_simps "loads pushed through stores"
named_theorems eval_simps "evaluation of loads and stores of a given width"
named_theorems ring_simps "ring indices and masks"

subsection \<open>Types\<close>

type_synonym u8 = "8 word"
type_synonym u16 = "16 word"
type_synonym u32 = "32 word"
type_synonym u64 = "64 word"
type_synonym ptr = "64 word"
type_synonym memory = "u64 \<Rightarrow> u8"

subsection \<open>Loads and stores\<close>

text \<open>\<open>load_le k m p\<close> reads \<open>k\<close> bytes at \<open>p\<close>, least significant first.\<close>

fun load_le :: "nat \<Rightarrow> memory \<Rightarrow> ptr \<Rightarrow> 'a::len word" where
  "load_le 0 m p = 0"
| "load_le (Suc k) m p = ucast (m p) OR push_bit 8 (load_le k m (p + 1))"

text \<open>\<open>store_le k m p w\<close> writes the \<open>k\<close> low bytes of \<open>w\<close> at \<open>p\<close>, least significant first.\<close>

fun store_le :: "nat \<Rightarrow> memory \<Rightarrow> ptr \<Rightarrow> 'a::len word \<Rightarrow> memory" where
  "store_le 0 m p w = m"
| "store_le (Suc k) m p w = store_le k (m(p := ucast w)) (p + 1) (drop_bit 8 w)"

abbreviation load8 :: "memory \<Rightarrow> ptr \<Rightarrow> u8" where "load8 \<equiv> load_le 1"
abbreviation load16 :: "memory \<Rightarrow> ptr \<Rightarrow> u16" where "load16 \<equiv> load_le 2"
abbreviation load32 :: "memory \<Rightarrow> ptr \<Rightarrow> u32" where "load32 \<equiv> load_le 4"
abbreviation load64 :: "memory \<Rightarrow> ptr \<Rightarrow> u64" where "load64 \<equiv> load_le 8"
abbreviation store8 :: "memory \<Rightarrow> ptr \<Rightarrow> u8 \<Rightarrow> memory" where "store8 \<equiv> store_le 1"
abbreviation store16 :: "memory \<Rightarrow> ptr \<Rightarrow> u16 \<Rightarrow> memory" where "store16 \<equiv> store_le 2"
abbreviation store32 :: "memory \<Rightarrow> ptr \<Rightarrow> u32 \<Rightarrow> memory" where "store32 \<equiv> store_le 4"
abbreviation store64 :: "memory \<Rightarrow> ptr \<Rightarrow> u64 \<Rightarrow> memory" where "store64 \<equiv> store_le 8"

text \<open>The bytes of a word, the lowest first.\<close>

definition word_bytes :: "nat \<Rightarrow> 'a::len word \<Rightarrow> u8 list" where
  "word_bytes k w = map (\<lambda>i. ucast (drop_bit (8 * i) w)) [0..<k]"

text \<open>A run of bytes, as \<open>memcpy\<close> reads and writes it.\<close>

definition load_bytes :: "memory \<Rightarrow> ptr \<Rightarrow> nat \<Rightarrow> u8 list" where
  "load_bytes m p n = map (\<lambda>i. m (p + of_nat i)) [0..<n]"

fun store_bytes :: "memory \<Rightarrow> ptr \<Rightarrow> u8 list \<Rightarrow> memory" where
  "store_bytes m p [] = m"
| "store_bytes m p (b # bs) = store_bytes (m(p := b)) (p + 1) bs"

subsection \<open>Regions\<close>

text \<open>
  \<open>inside a p k\<close>: the address \<open>a\<close> is one of the \<open>k\<close> bytes that start at \<open>p\<close>.
  \<open>sep p k q l\<close>: the regions \<open>[p, p + k)\<close> and \<open>[q, q + l)\<close> do not meet.
  Both are modulo \<open>2^64\<close> and both compute.
\<close>

definition inside :: "ptr \<Rightarrow> ptr \<Rightarrow> nat \<Rightarrow> bool" where
  "inside a p k \<longleftrightarrow> unat (a - p) < k"

definition sep :: "ptr \<Rightarrow> nat \<Rightarrow> ptr \<Rightarrow> nat \<Rightarrow> bool" where
  "sep p k q l \<longleftrightarrow> k \<le> unat (q - p) \<and> l \<le> unat (p - q)"

lemma length_word_bytes [simp]: "length (word_bytes k w) = k"
  by (simp add: word_bytes_def)

lemma nth_word_bytes [simp]: "i < k \<Longrightarrow> word_bytes k w ! i = ucast (drop_bit (8 * i) w)"
  by (simp add: word_bytes_def)

lemma sep_sym: "sep p k q l \<longleftrightarrow> sep q l p k"
  by (auto simp: sep_def)

lemma unat_add_u64: "unat (a + b) = (unat a + unat b) mod 2 ^ 64" for a b :: u64
  by (simp add: unat_word_ariths)

lemma unat_lt_u64: "unat (a :: u64) < 2 ^ 64"
  using unsigned_less[of a] by simp

lemma unat_sub_split: "unat (a - p) = unat (a - q) + unat (q - p) \<or>
    unat (a - p) + 2 ^ 64 = unat (a - q) + unat (q - p)" for a p q :: u64
proof -
  have "unat (a - p) = (unat (a - q) + unat (q - p)) mod 2 ^ 64"
    using unat_add_u64[of "a - q" "q - p"] by simp
  moreover have "unat (a - q) < 2 ^ 64" "unat (q - p) < 2 ^ 64"
    by (rule unat_lt_u64)+
  ultimately show ?thesis
    by (cases "unat (a - q) + unat (q - p) < 2 ^ 64") (auto simp: mod_if)
qed

lemma unat_sub_flip: "p \<noteq> q \<Longrightarrow> unat (q - p) + unat (p - q) = 2 ^ 64" for p q :: u64
  using unat_sub_split[of q q p] by (auto simp: unat_eq_0)

lemma sep_outside: "sep p k q l \<Longrightarrow> inside a p k \<Longrightarrow> \<not> inside a q l"
  using unat_sub_split[of a p q] unat_sub_flip[of p q] unat_lt_u64[of "a - q"]
  by (cases "p = q") (auto simp: sep_def inside_def)

lemma inside_off: "i < k \<Longrightarrow> k \<le> 2 ^ 64 \<Longrightarrow> inside (p + of_nat i) p k"
  by (simp add: inside_def unat_of_nat)

lemma sep_off: "sep p k q l \<Longrightarrow> j < l \<Longrightarrow> l \<le> 2 ^ 64 \<Longrightarrow> \<not> inside (q + of_nat j) p k"
  using sep_outside inside_off by blast

lemma inside_at:
  assumes "off + k \<le> 2 ^ 64"
  shows "inside a (p + of_nat off) k \<longleftrightarrow> off \<le> unat (a - p) \<and> unat (a - p) < off + k"
proof (cases "off < 2 ^ 64")
  case True
  then have "unat (p + of_nat off - p) = off" by (simp add: unat_of_nat)
  then show ?thesis
    using unat_sub_split[of a p "p + of_nat off"] unat_lt_u64[of "a - p"] unat_lt_u64[of "a - (p + of_nat off)"] assms
    unfolding inside_def by linarith
next
  case False
  with assms show ?thesis using unat_lt_u64[of "a - p"] by (simp add: inside_def)
qed

lemma inside_sub: "inside a (p + of_nat off) k \<Longrightarrow> off + k \<le> n \<Longrightarrow> n \<le> 2 ^ 64 \<Longrightarrow> inside a p n"
  by (subst (asm) inside_at) (auto simp: inside_def)

lemma outside_sub: "\<not> inside a p n \<Longrightarrow> off + k \<le> n \<Longrightarrow> n \<le> 2 ^ 64 \<Longrightarrow> \<not> inside a (p + of_nat off) k"
  using inside_sub by blast

lemma sepI:
  "0 < k \<Longrightarrow> 0 < l \<Longrightarrow> (\<And>a. inside a p k \<Longrightarrow> inside a q l \<Longrightarrow> False) \<Longrightarrow> sep p k q l"
proof -
  assume "0 < k" "0 < l" and d: "\<And>a. inside a p k \<Longrightarrow> inside a q l \<Longrightarrow> False"
  then have "inside p p k" "inside q q l" by (simp_all add: inside_def)
  with d have "\<not> inside q p k" "\<not> inside p q l" by blast+
  then show ?thesis by (simp add: sep_def inside_def)
qed

lemma sep_offs:
  assumes "i + k \<le> j" "j + l \<le> 2 ^ 64" "0 < k" "0 < l"
  shows "sep (p + of_nat i) k (p + of_nat j) l"
  using assms by (intro sepI) (auto simp: inside_at)

lemma sep_sub:
  assumes "sep p k q l" "off + k' \<le> k" "k \<le> 2 ^ 64" "0 < k'" "0 < l"
  shows "sep (p + of_nat off) k' q l"
proof (rule sepI)
  fix a assume "inside a (p + of_nat off) k'" "inside a q l"
  with assms have "inside a p k" by (subst (asm) inside_at) (auto simp: inside_def)
  with sep_outside[OF assms(1)] \<open>inside a q l\<close> show False by blast
qed (use assms in auto)

lemma sep_sub2:
  assumes "sep p k q l" "off + l' \<le> l" "l \<le> 2 ^ 64" "0 < l'" "0 < k"
  shows "sep p k (q + of_nat off) l'"
  using sep_sub[of q l p k off l'] assms by (simp add: sep_sym)

subsection \<open>Stores, byte by byte\<close>

lemma unat_minus_one_u64: "a \<noteq> p \<Longrightarrow> unat (a - (p + 1)) = unat (a - p) - 1" for a p :: u64
proof -
  assume "a \<noteq> p"
  then have "a - p \<noteq> 0" by simp
  then have "unat (a - p - 1) = unat (a - p) - 1" by (rule unat_minus_one)
  then show ?thesis by (simp add: diff_diff_eq)
qed

lemma store_le_apply:
  "k \<le> 2 ^ 64 \<Longrightarrow> store_le k m p w a =
     (if inside a p k then ucast (drop_bit (8 * unat (a - p)) w) else m a)"
proof (induction k arbitrary: m p w)
  case 0
  then show ?case by (simp add: inside_def)
next
  case (Suc k)
  show ?case
  proof (cases "a = p")
    case True
    then have "p - (p + 1) = - 1" by simp
    with True Suc show ?thesis
      by (simp add: inside_def unsigned_minus_1_eq_mask mask_eq_exp_minus_1)
  next
    case False
    then have "0 < unat (a - p)" by (simp add: unat_gt_0)
    with False Suc show ?thesis
      by (auto simp: inside_def unat_minus_one_u64 right_diff_distrib' less_diff_conv)
  qed
qed

lemma store_le_outside: "k \<le> 2 ^ 64 \<Longrightarrow> \<not> inside a p k \<Longrightarrow> store_le k m p w a = m a"
  by (simp add: store_le_apply)

lemma store_bytes_apply:
  "length bs \<le> 2 ^ 64 \<Longrightarrow> store_bytes m p bs a =
     (if inside a p (length bs) then bs ! unat (a - p) else m a)"
proof (induction bs arbitrary: m p)
  case Nil
  then show ?case by (simp add: inside_def)
next
  case (Cons b bs)
  show ?case
  proof (cases "a = p")
    case True
    then have "p - (p + 1) = - 1" by simp
    with True Cons show ?thesis
      by (simp add: inside_def unsigned_minus_1_eq_mask mask_eq_exp_minus_1)
  next
    case False
    then have "0 < unat (a - p)" by (simp add: unat_gt_0)
    with False Cons show ?thesis
      by (auto simp: inside_def unat_minus_one_u64 nth_Cons')
  qed
qed

subsection \<open>Loads, bit by bit\<close>

lemma bit_load_le:
  "bit (load_le k m p :: 'a::len word) n \<longleftrightarrow>
     n < LENGTH('a) \<and> n < 8 * k \<and> bit (m (p + of_nat (n div 8))) (n mod 8)"
proof (induction k arbitrary: p n)
  case 0
  then show ?case by simp
next
  case (Suc k)
  show ?case
  proof (cases "n < 8")
    case True
    then show ?thesis
      by (auto simp: bit_simps Suc)
  next
    case False
    then have "n div 8 = Suc ((n - 8) div 8)" "n mod 8 = (n - 8) mod 8"
      by (simp_all add: le_div_geq le_mod_geq)
    moreover have "bit (m p) n = False"
      using False by (auto dest: bit_imp_le_length)
    ultimately show ?thesis
      using False by (auto simp: bit_simps Suc add.assoc)
  qed
qed

lemma load_le_cong:
  "(\<And>i. i < k \<Longrightarrow> m (p + of_nat i) = m' (p + of_nat i)) \<Longrightarrow> load_le k m p = load_le k m' p"
  by (rule bit_word_eqI) (auto simp: bit_load_le)

lemma load_bytes_cong:
  "(\<And>i. i < k \<Longrightarrow> m (p + of_nat i) = m' (p + of_nat i)) \<Longrightarrow> load_bytes m p k = load_bytes m' p k"
  by (simp add: load_bytes_def)

lemma load_store_same [mem_simps]:
  assumes "LENGTH('a::len) = 8 * k" "k \<le> 2 ^ 64"
  shows "load_le k (store_le k m p w) p = (w :: 'a word)"
proof (rule bit_word_eqI)
  fix n assume "n < LENGTH('a)"
  then have n: "n < 8 * k" "n div 8 < k" using assms by auto
  then have "unat (of_nat (n div 8) :: u64) = n div 8" using assms by (simp add: unat_of_nat)
  with n assms \<open>n < LENGTH('a)\<close> show "bit (load_le k (store_le k m p w) p :: 'a word) n = bit w n"
    by (simp add: bit_load_le store_le_apply inside_def bit_simps)
qed

lemma load_store_sep [mem_simps]:
  assumes "sep p k q l" "k \<le> 2 ^ 64" "l \<le> 2 ^ 64"
  shows "load_le l (store_le k m p w) q = load_le l m q"
  using assms by (intro load_le_cong) (simp add: store_le_outside sep_off)

lemma load_bytes_store_sep [mem_simps]:
  assumes "sep p k q l" "k \<le> 2 ^ 64" "l \<le> 2 ^ 64"
  shows "load_bytes (store_le k m p w) q l = load_bytes m q l"
  using assms by (intro load_bytes_cong) (simp add: store_le_outside sep_off)

lemma load_bytes_store_bytes [mem_simps]:
  assumes "length bs \<le> 2 ^ 64"
  shows "load_bytes (store_bytes m p bs) p (length bs) = bs"
  using assms by (intro nth_equalityI) (simp_all add: load_bytes_def store_bytes_apply inside_def unat_of_nat)

lemma length_load_bytes [simp]: "length (load_bytes m p n) = n"
  by (simp add: load_bytes_def)

lemma nth_load_bytes [simp]: "i < n \<Longrightarrow> load_bytes m p n ! i = m (p + of_nat i)"
  by (simp add: load_bytes_def)

subsection \<open>Widening\<close>

lemma unat_ucast_u32_u64 [simp]: "unat (ucast x :: u64) = unat (x :: u32)"
proof -
  have "unat x < 2 ^ 64" using unsigned_less[of x] by (rule order.strict_trans) simp
  then show ?thesis by (simp add: unsigned_ucast_eq take_bit_nat_eq_self)
qed

subsection \<open>Evaluation\<close>

lemma load_le_numeral [eval_simps]:
  "load_le (numeral k) m p = ucast (m p) OR push_bit 8 (load_le (pred_numeral k) m (p + 1))"
  by (simp add: numeral_eq_Suc)

lemma store_le_numeral [eval_simps]:
  "store_le (numeral k) m p w = store_le (pred_numeral k) (m(p := ucast w)) (p + 1) (drop_bit 8 w)"
  by (simp add: numeral_eq_Suc)

subsection \<open>Masks and ring indices\<close>

text \<open>\<open>ring_mask n\<close> is the C expression \<open>((1 << n) - 1)\<close> stored in a \<open>uint32_t\<close>.\<close>

definition ring_mask :: "nat \<Rightarrow> u32" where
  "ring_mask n = push_bit n 1 - 1"

lemma ring_mask_mask: "ring_mask n = mask n"
  by (simp add: ring_mask_def mask_eq_exp_minus_1 push_bit_eq_mult)

lemma and_ring_mask [ring_simps]: "x AND ring_mask n = take_bit n x"
  by (simp add: ring_mask_mask take_bit_eq_mask)

lemma unat_and_ring_mask [ring_simps]: "unat (x AND ring_mask n) = unat x mod 2 ^ n"
  by (simp only: and_ring_mask unsigned_take_bit_eq) (simp add: take_bit_eq_mod)

lemma ring_mask_bound: "unat (x AND ring_mask n) < 2 ^ n"
  by (simp add: unat_and_ring_mask)

subsection \<open>Tables filled entry by entry\<close>

text \<open>
  The contract of the loops that fill a table in memory: turn \<open>i\<close> writes only the \<open>sz\<close> bytes of
  entry \<open>i\<close>.  Then the finished table holds in each entry what that entry's own turn wrote.
\<close>

locale table_fill =
  fixes wr :: "nat \<Rightarrow> memory \<Rightarrow> memory" and base :: ptr and sz :: nat
  assumes wr_outside: "\<not> inside a (base + of_nat (sz * i)) sz \<Longrightarrow> wr i m a = m a"
begin

lemma fill_outside:
  "(\<And>i. i \<in> set is \<Longrightarrow> \<not> inside a (base + of_nat (sz * i)) sz) \<Longrightarrow> fold wr is m a = m a"
  by (induction "is" arbitrary: m) (simp_all add: wr_outside)

lemma fill_beyond:
  "sz * n \<le> 2 ^ 64 \<Longrightarrow> \<not> inside a base (sz * n) \<Longrightarrow> fold wr [0..<n] m a = m a"
proof (rule fill_outside)
  fix i assume n: "sz * n \<le> 2 ^ 64" "\<not> inside a base (sz * n)" and "i \<in> set [0..<n]"
  then have "sz * i + sz \<le> sz * n" using mult_le_mono2[of "Suc i" n sz] by simp
  with n inside_sub[of a base "sz * i" sz "sz * n"] show "\<not> inside a (base + of_nat (sz * i)) sz" by blast
qed

lemma fill_entry:
  assumes "k < n" "sz * n \<le> 2 ^ 64" "0 < sz" "inside a (base + of_nat (sz * k)) sz"
  shows "fold wr [0..<n] m a = wr k (fold wr [0..<k] m) a"
proof -
  have s: "sz * k + sz \<le> sz * j" if "k < j" for j using mult_le_mono2[of "Suc k" j sz] that by simp
  have e: "sz * j + sz \<le> 2 ^ 64" if "j < n" for j using mult_le_mono2[of "Suc j" n sz] that assms(2) by simp
  have "[0..<n] = [0..<k] @ k # [Suc k..<n]" using upt_add_eq_append[of 0 k "n - k"] upt_conv_Cons assms(1) by simp
  moreover have "fold wr [Suc k..<n] m' a = m' a" for m'
    using assms(3,4) sep_outside[OF sep_offs[of "sz * k" sz _ sz base]] s e
    by (intro fill_outside) (simp del: of_nat_mult)
  ultimately show ?thesis by simp
qed

lemma fill_read:
  assumes "k < n" "sz * n \<le> 2 ^ 64" "0 < sz"
    and rd: "\<And>m m'. (\<And>i. i < sz \<Longrightarrow> m (base + of_nat (sz * k) + of_nat i) = m' (base + of_nat (sz * k) + of_nat i))
      \<Longrightarrow> rd m = rd m'"
  shows "rd (fold wr [0..<n] m) = rd (wr k (fold wr [0..<k] m))"
proof (rule rd)
  fix i assume "i < sz"
  moreover have "sz * 1 \<le> sz * n" using assms(1) by (intro mult_le_mono2) simp
  then have "sz \<le> 2 ^ 64" using assms(2) by linarith
  ultimately show "fold wr [0..<n] m (base + of_nat (sz * k) + of_nat i)
    = wr k (fold wr [0..<k] m) (base + of_nat (sz * k) + of_nat i)"
    using assms(1-3) by (intro fill_entry inside_off)
qed

end

end
