(* ===== verification/Flexio_Device.thy ===== *)
theory Flexio_Device
  imports Dpa_Prelude
begin

text \<open>
  The environment of a DPA program: the FlexIO device library and the DPA intrinsics, which
  are not part of the repository, and the state of one DPA thread.

  The library is a parameter.  A value of type \<open>flexio\<close> holds, as fields, the constants and
  functions of the library that the sources use: the sizes of its ring entries, the readers
  of completion entries, the writers of send-queue segments and doorbell records, the byte
  swaps, the answers of the window calls and the values of the cycle and instruction
  counters.  Nothing is assumed of them here; a theorem that relies on documented behaviour
  of the library names it as a hypothesis.

  A call that acts on the hardware only (ringing a doorbell, a write-back, a fence, arming a
  queue, configuring a window) is an entry of the thread's \<open>trace\<close>.  The answers of the
  window calls may depend on all earlier calls, so they take the trace.  Printing and
  logging are left out.
\<close>

subsection \<open>Calls that act on the hardware\<close>

datatype event =
    Memory_writeback
  | Window_writeback
  | Ring_db u32 u32
  | Thread_fence
  | System_fence
  | Memory_fence
  | Cq_arm u32 u32
  | Reschedule
  | Window_config u16 u32
  | Window_mkey_config u32
  | Window_ptr_acquire u64
  | Copy_to_host u64 "u8 list"

subsection \<open>The library\<close>

record flexio =
  cqe_bsize :: u64
  rwqe_bsize :: u64
  sqe_seg_bsize :: u64
  log_sqe_num_segs :: nat
  cqe_get_wqe_counter :: "memory \<Rightarrow> ptr \<Rightarrow> u32"
  cqe_get_byte_cnt :: "memory \<Rightarrow> ptr \<Rightarrow> u32"
  cqe_get_owner :: "memory \<Rightarrow> ptr \<Rightarrow> u8"
  rwqe_get_addr :: "memory \<Rightarrow> ptr \<Rightarrow> ptr"
  swqe_seg_ctrl_set :: "ptr \<Rightarrow> u32 \<Rightarrow> u32 \<Rightarrow> memory \<Rightarrow> memory"
  swqe_seg_eth_set :: "ptr \<Rightarrow> memory \<Rightarrow> memory"
  swqe_seg_mem_ptr_data_set :: "ptr \<Rightarrow> u32 \<Rightarrow> u32 \<Rightarrow> u64 \<Rightarrow> memory \<Rightarrow> memory"
  send_data_byte_count_off :: u64
  send_data_addr_off :: u64
  dbr_rq_inc_pi :: "ptr \<Rightarrow> memory \<Rightarrow> memory"
  dbr_cq_set_ci :: "ptr \<Rightarrow> u32 \<Rightarrow> memory \<Rightarrow> memory"
  cpu_to_be16 :: "u16 \<Rightarrow> u16"
  cpu_to_be32 :: "u32 \<Rightarrow> u32"
  cpu_to_be64 :: "u64 \<Rightarrow> u64"
  get_thread_ctx :: "int \<times> ptr"
  window_config_ok :: "event list \<Rightarrow> u16 \<Rightarrow> u32 \<Rightarrow> bool"
  window_ptr_acquire :: "event list \<Rightarrow> u64 \<Rightarrow> bool \<times> ptr"
  window_copy_to_host :: "event list \<Rightarrow> u64 \<Rightarrow> u8 list \<Rightarrow> memory \<Rightarrow> memory"
  thread_cycles :: "nat \<Rightarrow> u64"
  thread_inst_ret :: "nat \<Rightarrow> u64"

subsection \<open>The thread's state\<close>

text \<open>
  \<open>mem\<close> is the memory, \<open>trace\<close> the hardware calls made so far, oldest first, and \<open>clk\<close> the
  number of counter reads made so far: the \<open>n\<close>-th read of the cycle counter returns
  \<open>thread_cycles fx n\<close>.
\<close>

record dpa =
  mem :: memory
  trace :: "event list"
  clk :: nat

definition emit :: "event \<Rightarrow> dpa \<Rightarrow> dpa" where
  "emit e d = d\<lparr>trace := trace d @ [e]\<rparr>"

definition upd_mem :: "(memory \<Rightarrow> memory) \<Rightarrow> dpa \<Rightarrow> dpa" where
  "upd_mem f d = d\<lparr>mem := f (mem d)\<rparr>"

definition read_cycles :: "flexio \<Rightarrow> dpa \<Rightarrow> u64 \<times> dpa" where
  "read_cycles fx d = (thread_cycles fx (clk d), d\<lparr>clk := Suc (clk d)\<rparr>)"

definition read_inst_ret :: "flexio \<Rightarrow> dpa \<Rightarrow> u64 \<times> dpa" where
  "read_inst_ret fx d = (thread_inst_ret fx (clk d), d\<lparr>clk := Suc (clk d)\<rparr>)"

subsection \<open>Rewriting\<close>

named_theorems dpa_simps "fields of the thread state after an elementary effect"

lemma emit_fields [dpa_simps, simp]:
  "mem (emit e d) = mem d" "trace (emit e d) = trace d @ [e]" "clk (emit e d) = clk d"
  by (simp_all add: emit_def)

lemma upd_mem_fields [dpa_simps, simp]:
  "mem (upd_mem f d) = f (mem d)" "trace (upd_mem f d) = trace d" "clk (upd_mem f d) = clk d"
  by (simp_all add: upd_mem_def)

lemma read_cycles_fields [dpa_simps, simp]:
  "fst (read_cycles fx d) = thread_cycles fx (clk d)"
  "mem (snd (read_cycles fx d)) = mem d" "trace (snd (read_cycles fx d)) = trace d"
  "clk (snd (read_cycles fx d)) = Suc (clk d)"
  by (simp_all add: read_cycles_def)

lemma read_inst_ret_fields [dpa_simps, simp]:
  "fst (read_inst_ret fx d) = thread_inst_ret fx (clk d)"
  "mem (snd (read_inst_ret fx d)) = mem d" "trace (snd (read_inst_ret fx d)) = trace d"
  "clk (snd (read_inst_ret fx d)) = Suc (clk d)"
  by (simp_all add: read_inst_ret_def)

end
