(* ===== verification/Wrapper_Device.thy ===== *)
theory Wrapper_Device
  imports Flexio_Device
begin

text \<open>
  The device side of the FlexIO wrapper: \<open>wrapper_flexio/common_cross.h\<close> (the structures the
  host passes to the device, packet headers, address helpers) and
  \<open>wrapper_flexio/wrapper_flexio_device.h\<close> and \<open>.c\<close> (queue contexts, receiving, the send ring,
  doorbells, host windows, the timer benchmark), and the queue initialisers that every
  device program defines for itself with its own ring depths.

  A pointer is a 64-bit address; \<open>&ring[i]\<close> is the ring's address plus \<open>i\<close> times the entry
  size.  A function that writes through a pointer to a context returns the new context.

  Lemmas: indices stay inside their rings, the send-queue indices advance together, the
  completion queue's owner bit is the parity of the epoch, window addresses translate back
  and forth, the timer's overflow correction.
\<close>

subsection \<open>common_cross.h\<close>

definition L2V :: "nat \<Rightarrow> u64" where
  "L2V l = push_bit l 1"

definition L2M :: "nat \<Rightarrow> u64" where
  "L2M l = L2V l - 1"

definition LOG2VALUE :: "nat \<Rightarrow> u64" where
  "LOG2VALUE l = push_bit l 1"

record app_transfer_cq =
  cq_num :: u32
  log_cq_depth :: u32
  cq_ring_daddr :: ptr
  cq_dbr_daddr :: ptr

record app_transfer_wq =
  wq_num :: u32
  wqd_mkey_id :: u32
  wq_ring_daddr :: ptr
  wq_dbr_daddr :: ptr
  wqd_daddr :: ptr
  daddr_on_host :: u8

record queue_config_data =
  rq_cq_data :: app_transfer_cq
  rq_data :: app_transfer_wq
  sq_cq_data :: app_transfer_cq
  sq_data :: app_transfer_wq
  thread_index :: u32
  new_buffer_addr :: ptr
  new_buffer_mkey_id :: u32

text \<open>\<open>addr_to_num\<close>, on the six bytes of an Ethernet address.\<close>

definition addr_to_num :: "u8 list \<Rightarrow> u64" where
  "addr_to_num addr_bytes =
     push_bit 40 (ucast (addr_bytes ! 0)) OR push_bit 32 (ucast (addr_bytes ! 1)) OR
     push_bit 24 (ucast (addr_bytes ! 2)) OR push_bit 16 (ucast (addr_bytes ! 3)) OR
     push_bit 8 (ucast (addr_bytes ! 4)) OR ucast (addr_bytes ! 5)"

subsection \<open>Queue contexts\<close>

record cq_ctx_t =
  cq_number :: u32
  cq_ring :: ptr
  cqe :: ptr
  cq_idx :: u32
  cq_hw_owner_bit :: u8
  cq_dbr :: ptr
  cq_idx_mask :: u32

record rq_ctx_t =
  rq_number :: u32
  rq_ring :: ptr
  rq_dbr :: ptr
  rq_idx_mask :: u32

record sq_ctx_t =
  sq_number :: u32
  sq_wqe_seg_idx :: u32
  sq_ring :: ptr
  sq_dbr :: ptr
  sq_pi :: u32
  sq_idx_mask :: u32

record dt_ctx_t =
  sq_tx_buff :: ptr
  tx_buff_idx :: u32
  data_idx_mask :: u32

record host_rq_ctx_t =
  rq_rkey :: u32
  rq_window_id :: u32
  host_rx_buff :: ptr
  dpa_rx_buff :: ptr

record host_sq_ctx_t =
  sq_rkey :: u32
  sq_window_id :: u32
  host_tx_buff :: ptr
  dpa_tx_buff :: ptr

text \<open>Zero-initialised contexts, as in a static \<open>dev_ctx = { 0 }\<close>.\<close>

abbreviation cq_zero :: cq_ctx_t where
  "cq_zero \<equiv> \<lparr>cq_number = 0, cq_ring = 0, cqe = 0, cq_idx = 0, cq_hw_owner_bit = 0, cq_dbr = 0, cq_idx_mask = 0\<rparr>"

abbreviation rq_zero :: rq_ctx_t where
  "rq_zero \<equiv> \<lparr>rq_number = 0, rq_ring = 0, rq_dbr = 0, rq_idx_mask = 0\<rparr>"

abbreviation sq_zero :: sq_ctx_t where
  "sq_zero \<equiv> \<lparr>sq_number = 0, sq_wqe_seg_idx = 0, sq_ring = 0, sq_dbr = 0, sq_pi = 0, sq_idx_mask = 0\<rparr>"

abbreviation dt_zero :: dt_ctx_t where
  "dt_zero \<equiv> \<lparr>sq_tx_buff = 0, tx_buff_idx = 0, data_idx_mask = 0\<rparr>"

abbreviation host_rq_zero :: host_rq_ctx_t where
  "host_rq_zero \<equiv> \<lparr>rq_rkey = 0, rq_window_id = 0, host_rx_buff = 0, dpa_rx_buff = 0\<rparr>"

abbreviation host_sq_zero :: host_sq_ctx_t where
  "host_sq_zero \<equiv> \<lparr>sq_rkey = 0, sq_window_id = 0, host_tx_buff = 0, dpa_tx_buff = 0\<rparr>"

subsection \<open>Receiving\<close>

text \<open>The address of the packet and its length, from the current completion entry.\<close>

definition receive_packet :: "flexio \<Rightarrow> memory \<Rightarrow> cq_ctx_t \<Rightarrow> rq_ctx_t \<Rightarrow> ptr \<times> u32" where
  "receive_packet fx m cq rq =
     (let rq_wqe_idx = cqe_get_wqe_counter fx m (cqe cq);
          len = cqe_get_byte_cnt fx m (cqe cq)
      in (rwqe_get_addr fx m
            (rq_ring rq + ucast (rq_wqe_idx AND rq_idx_mask rq) * rwqe_bsize fx), len))"

definition receive_packet_host ::
  "flexio \<Rightarrow> memory \<Rightarrow> cq_ctx_t \<Rightarrow> rq_ctx_t \<Rightarrow> host_rq_ctx_t \<Rightarrow> ptr \<times> u32" where
  "receive_packet_host fx m cq rq h =
     (let rq_wqe_idx = cqe_get_wqe_counter fx m (cqe cq);
          len = cqe_get_byte_cnt fx m (cqe cq)
      in (rwqe_get_addr fx m
            (rq_ring rq + ucast (rq_wqe_idx AND rq_idx_mask rq) * rwqe_bsize fx)
            - host_rx_buff h + dpa_rx_buff h, len))"

definition host_rq_addr_to_dpa_addr :: "ptr \<Rightarrow> host_rq_ctx_t \<Rightarrow> ptr" where
  "host_rq_addr_to_dpa_addr host_addr h = host_addr - host_rx_buff h + dpa_rx_buff h"

definition host_sq_addr_to_dpa_addr :: "ptr \<Rightarrow> host_sq_ctx_t \<Rightarrow> ptr" where
  "host_sq_addr_to_dpa_addr host_addr h = host_addr - host_tx_buff h + dpa_tx_buff h"

subsection \<open>Sending\<close>

definition get_next_send_buf :: "dt_ctx_t \<Rightarrow> nat \<Rightarrow> ptr \<times> dt_ctx_t" where
  "get_next_send_buf dt log_dt_entry_sz =
     (let msk = push_bit log_dt_entry_sz (tx_buff_idx dt AND data_idx_mask dt)
      in (sq_tx_buff dt + ucast msk, dt\<lparr>tx_buff_idx := tx_buff_idx dt + 1\<rparr>))"

definition get_next_sqe :: "flexio \<Rightarrow> sq_ctx_t \<Rightarrow> ptr \<times> sq_ctx_t" where
  "get_next_sqe fx sq =
     (sq_ring sq + ucast (sq_wqe_seg_idx sq AND sq_idx_mask sq) * sqe_seg_bsize fx,
      sq\<lparr>sq_wqe_seg_idx := sq_wqe_seg_idx sq + 1\<rparr>)"

definition get_next_data_sqe :: "flexio \<Rightarrow> sq_ctx_t \<Rightarrow> ptr \<times> sq_ctx_t" where
  "get_next_data_sqe fx sq =
     (sq_ring sq + ucast ((sq_wqe_seg_idx sq + 2) AND sq_idx_mask sq) * sqe_seg_bsize fx,
      sq\<lparr>sq_wqe_seg_idx := sq_wqe_seg_idx sq + 4\<rparr>)"

text \<open>One turn of the loop of \<open>init_send_sq\<close>, for entry \<open>i\<close>.\<close>

definition init_send_sq_entry ::
  "flexio \<Rightarrow> u32 \<Rightarrow> u32 \<Rightarrow> memory \<times> sq_ctx_t \<Rightarrow> memory \<times> sq_ctx_t" where
  "init_send_sq_entry fx lkey i = (\<lambda>(m, sq).
     let (swqe, sq) = get_next_sqe fx sq;
         m = swqe_seg_ctrl_set fx swqe i (sq_number sq) m;
         (swqe, sq) = get_next_sqe fx sq;
         m = swqe_seg_eth_set fx swqe m;
         (swqe, sq) = get_next_sqe fx sq;
         m = swqe_seg_mem_ptr_data_set fx swqe 0 lkey 0 m;
         (swqe, sq) = get_next_sqe fx sq
     in (m, sq))"

fun init_send_sq_loop ::
  "flexio \<Rightarrow> u32 \<Rightarrow> nat \<Rightarrow> nat \<Rightarrow> memory \<times> sq_ctx_t \<Rightarrow> memory \<times> sq_ctx_t" where
  "init_send_sq_loop fx lkey i 0 s = s"
| "init_send_sq_loop fx lkey i (Suc n) s =
     init_send_sq_loop fx lkey (Suc i) n (init_send_sq_entry fx lkey (of_nat i) s)"

definition init_send_sq :: "flexio \<Rightarrow> sq_ctx_t \<Rightarrow> u32 \<Rightarrow> u32 \<Rightarrow> dpa \<Rightarrow> dpa \<times> sq_ctx_t" where
  "init_send_sq fx sq entry_size lkey d =
     (let (m, sq) = init_send_sq_loop fx lkey 0 (unat entry_size) (mem d, sq)
      in (d\<lparr>mem := m\<rparr>, sq\<lparr>sq_wqe_seg_idx := 0\<rparr>))"

definition prepare_send_packet :: "flexio \<Rightarrow> sq_ctx_t \<Rightarrow> ptr \<Rightarrow> u32 \<Rightarrow> dpa \<Rightarrow> dpa \<times> sq_ctx_t" where
  "prepare_send_packet fx sq data_addr data_sz d =
     (let (swqe, sq) = get_next_data_sqe fx sq;
          m = store32 (mem d) (swqe + send_data_byte_count_off fx) (cpu_to_be32 fx data_sz);
          m = store64 m (swqe + send_data_addr_off fx) (cpu_to_be64 fx data_addr)
      in (d\<lparr>mem := m\<rparr>, sq))"

definition finish_send_packet :: "sq_ctx_t \<Rightarrow> dpa \<Rightarrow> dpa \<times> sq_ctx_t" where
  "finish_send_packet sq d =
     (let sq = sq\<lparr>sq_pi := sq_pi sq + 1\<rparr>
      in (emit (Ring_db (sq_pi sq) (sq_number sq)) (emit Memory_writeback d), sq))"

definition finish_send_packet_batch :: "sq_ctx_t \<Rightarrow> u64 \<Rightarrow> dpa \<Rightarrow> dpa \<times> sq_ctx_t" where
  "finish_send_packet_batch sq batch_size d =
     (let sq = sq\<lparr>sq_pi := ucast (ucast (sq_pi sq) + batch_size)\<rparr>
      in (emit (Ring_db (sq_pi sq) (sq_number sq)) (emit Memory_writeback d), sq))"

definition finish_send_packet_host :: "sq_ctx_t \<Rightarrow> dpa \<Rightarrow> dpa \<times> sq_ctx_t" where
  "finish_send_packet_host sq d =
     (let sq = sq\<lparr>sq_pi := sq_pi sq + 1\<rparr>
      in (emit (Ring_db (sq_pi sq) (sq_number sq)) (emit Window_writeback (emit Memory_writeback d)), sq))"

definition finish_send_packet_host_batch :: "sq_ctx_t \<Rightarrow> u64 \<Rightarrow> dpa \<Rightarrow> dpa \<times> sq_ctx_t" where
  "finish_send_packet_host_batch sq batch_size d =
     (let sq = sq\<lparr>sq_pi := ucast (ucast (sq_pi sq) + batch_size)\<rparr>
      in (emit (Ring_db (sq_pi sq) (sq_number sq)) (emit Window_writeback (emit Memory_writeback d)), sq))"

subsection \<open>Doorbell records\<close>

definition step_rq :: "flexio \<Rightarrow> rq_ctx_t \<Rightarrow> dpa \<Rightarrow> dpa" where
  "step_rq fx rq d = upd_mem (dbr_rq_inc_pi fx (rq_dbr rq)) d"

definition step_cq :: "flexio \<Rightarrow> cq_ctx_t \<Rightarrow> dpa \<Rightarrow> dpa \<times> cq_ctx_t" where
  "step_cq fx cq d =
     (let idx = cq_idx cq + 1;
          cq = cq\<lparr>cq_idx := idx,
                  cqe := cq_ring cq + ucast (idx AND cq_idx_mask cq) * cqe_bsize fx\<rparr>;
          cq = (if idx AND cq_idx_mask cq = 0
                then cq\<lparr>cq_hw_owner_bit := (if cq_hw_owner_bit cq = 0 then 1 else 0)\<rparr> else cq)
      in (upd_mem (dbr_cq_set_ci fx (cq_dbr cq) idx) d, cq))"

text \<open>The condition of every receive loop: the current entry is owned by software.\<close>

definition cqe_ready :: "flexio \<Rightarrow> memory \<Rightarrow> cq_ctx_t \<Rightarrow> bool" where
  "cqe_ready fx m cq \<longleftrightarrow> cqe_get_owner fx m (cqe cq) \<noteq> cq_hw_owner_bit cq"

subsection \<open>wrapper_flexio_device.c\<close>

text \<open>The body of \<open>timer_benchmark\<close>: \<open>sleep_\<close> only delays.\<close>

definition timer_round :: "u64 \<Rightarrow> u64 \<Rightarrow> u64 \<times> nat \<Rightarrow> u64 \<times> nat" where
  "timer_round t0 t1 = (\<lambda>(total_cycles, overflow_times).
     if t0 < t1 then (total_cycles + (t1 - t0), overflow_times)
     else (total_cycles + (push_bit 32 1 - 1 + t1 - t0), overflow_times + 1))"

fun timer_benchmark_loop :: "flexio \<Rightarrow> nat \<Rightarrow> (u64 \<times> nat) \<Rightarrow> dpa \<Rightarrow> (u64 \<times> nat) \<times> dpa" where
  "timer_benchmark_loop fx 0 s d = (s, d)"
| "timer_benchmark_loop fx (Suc n) s d =
     (let (t0, d) = read_cycles fx d; (t1, d) = read_cycles fx d
      in timer_benchmark_loop fx n (timer_round t0 t1 s) d)"

definition timer_benchmark :: "flexio \<Rightarrow> int \<Rightarrow> dpa \<Rightarrow> u64 \<times> dpa" where
  "timer_benchmark fx n_times d =
     (let ((total_cycles, overflow_times), d) = timer_benchmark_loop fx (nat n_times) (0, 0) d
      in (total_cycles, d))"

text \<open>
  A failed \<open>Assert\<close> returns \<open>-1\<close>, converted to \<open>flexio_uintptr_t\<close>.
\<close>

definition get_host_buffer_with_dtctx :: "flexio \<Rightarrow> u32 \<Rightarrow> u32 \<Rightarrow> ptr \<Rightarrow> dpa \<Rightarrow> ptr \<times> dpa" where
  "get_host_buffer_with_dtctx fx window_id mkey haddr d =
     (let ok = window_config_ok fx (trace d) (ucast window_id) mkey;
          d = emit (Window_config (ucast window_id) mkey) d
      in if \<not> ok then (- 1, d)
         else let (ok, host_buffer) = window_ptr_acquire fx (trace d) haddr;
                  d = emit (Window_ptr_acquire haddr) d
              in if \<not> ok then (- 1, d) else (host_buffer, d))"

definition get_host_buffer :: "flexio \<Rightarrow> u32 \<Rightarrow> u32 \<Rightarrow> ptr \<Rightarrow> dpa \<Rightarrow> ptr \<times> dpa" where
  "get_host_buffer fx window_id mkey haddr d =
     (let (ret, dtctx) = get_thread_ctx fx
      in if \<not> ret \<ge> 0 then (- 1, d)
         else
           let ok = window_config_ok fx (trace d) (ucast window_id) mkey;
               d = emit (Window_config (ucast window_id) mkey) d
           in if \<not> ok then (- 1, d)
              else let (ok, host_buffer) = window_ptr_acquire fx (trace d) haddr;
                       d = emit (Window_ptr_acquire haddr) d
                   in if \<not> ok then (- 1, d) else (host_buffer, d))"

subsection \<open>Queue initialisation\<close>

text \<open>
  Every device program has its own copy of \<open>init_cq\<close>, \<open>init_rq\<close> and \<open>init_sq\<close>; the copies
  differ in the ring depths \<open>LOG_CQ_RING_DEPTH\<close>, \<open>LOG_RQ_RING_DEPTH\<close> and
  \<open>LOG_SQ_RING_DEPTH\<close> of the program's common header, which are parameters here.
  \<open>init_sq\<close> does not write \<open>sq_pi\<close>.
\<close>

definition init_cq_at :: "nat \<Rightarrow> app_transfer_cq \<Rightarrow> cq_ctx_t \<Rightarrow> cq_ctx_t" where
  "init_cq_at log_depth app_cq ctx =
     ctx\<lparr>cq_number := cq_num app_cq,
         cq_ring := cq_ring_daddr app_cq,
         cq_dbr := cq_dbr_daddr app_cq,
         cqe := cq_ring_daddr app_cq,
         cq_idx := 0,
         cq_hw_owner_bit := 1,
         cq_idx_mask := ring_mask log_depth\<rparr>"

definition init_rq_at :: "nat \<Rightarrow> app_transfer_wq \<Rightarrow> rq_ctx_t \<Rightarrow> rq_ctx_t" where
  "init_rq_at log_depth app_rq ctx =
     ctx\<lparr>rq_number := wq_num app_rq,
         rq_ring := wq_ring_daddr app_rq,
         rq_dbr := wq_dbr_daddr app_rq,
         rq_idx_mask := ring_mask log_depth\<rparr>"

definition init_sq_at :: "flexio \<Rightarrow> nat \<Rightarrow> app_transfer_wq \<Rightarrow> sq_ctx_t \<Rightarrow> sq_ctx_t" where
  "init_sq_at fx log_depth app_sq ctx =
     ctx\<lparr>sq_number := wq_num app_sq,
         sq_ring := wq_ring_daddr app_sq,
         sq_dbr := wq_dbr_daddr app_sq + 4,
         sq_wqe_seg_idx := 0,
         sq_idx_mask := ring_mask (log_depth + log_sqe_num_segs fx)\<rparr>"

text \<open>
  The part of \<open>struct device_context\<close> that all device programs have.
\<close>

record dev_base =
  is_initalized :: u32
  rqcq_ctx :: cq_ctx_t
  sqcq_ctx :: cq_ctx_t
  rq_ctx :: rq_ctx_t
  sq_ctx :: sq_ctx_t
  dt_ctx :: dt_ctx_t

subsection \<open>What the lemmas speak about\<close>

text \<open>The context part of \<open>step_cq\<close>, which does not depend on the thread's state.\<close>

definition next_cq :: "flexio \<Rightarrow> cq_ctx_t \<Rightarrow> cq_ctx_t" where
  "next_cq fx cq = snd (step_cq fx cq \<lparr>mem = (\<lambda>_. 0), trace = [], clk = 0\<rparr>)"

text \<open>
  The invariant of a completion queue of depth \<open>2^n\<close>: the current entry is the one the
  index names, and the owner bit is the parity of the epoch \<open>cq_idx div 2^n\<close>.
\<close>

definition cq_inv :: "flexio \<Rightarrow> nat \<Rightarrow> cq_ctx_t \<Rightarrow> bool" where
  "cq_inv fx n cq \<longleftrightarrow>
     cq_idx_mask cq = ring_mask n \<and>
     cqe cq = cq_ring cq + ucast (cq_idx cq AND cq_idx_mask cq) * cqe_bsize fx \<and>
     cq_hw_owner_bit cq = (if even (unat (cq_idx cq) div 2 ^ n) then 1 else 0)"

text \<open>
  Cycles between two reads of a counter that wraps at \<open>2^32\<close>.
\<close>

definition elapsed32 :: "u64 \<Rightarrow> u64 \<Rightarrow> u64" where
  "elapsed32 t0 t1 = (if t0 < t1 then t1 - t0 else 2 ^ 32 + t1 - t0)"

text \<open>
  Every doorbell of a trace comes right after a write-back.
\<close>

fun is_ring_db :: "event \<Rightarrow> bool" where
  "is_ring_db (Ring_db sq_pi_val sq_num) = True"
| "is_ring_db e = False"

fun is_writeback :: "event \<Rightarrow> bool" where
  "is_writeback Memory_writeback = True"
| "is_writeback Window_writeback = True"
| "is_writeback e = False"

fun db_ordered_from :: "event \<Rightarrow> event list \<Rightarrow> bool" where
  "db_ordered_from prev [] = True"
| "db_ordered_from prev (e # es) = ((is_ring_db e \<longrightarrow> is_writeback prev) \<and> db_ordered_from e es)"

definition db_ordered :: "event list \<Rightarrow> bool" where
  "db_ordered es = db_ordered_from Reschedule es"

text \<open>
  The doorbells of a trace, oldest first, as pairs of producer index and queue number.
\<close>

fun doorbells :: "event list \<Rightarrow> (u32 \<times> u32) list" where
  "doorbells [] = []"
| "doorbells (Ring_db sq_pi_val sq_num # es) = (sq_pi_val, sq_num) # doorbells es"
| "doorbells (e # es) = doorbells es"

text \<open>
  A send queue between two packets: the next data segment is that of the entry the next
  doorbell announces (four segments to an entry).
\<close>

definition sq_balanced :: "sq_ctx_t \<Rightarrow> bool" where
  "sq_balanced sq \<longleftrightarrow> sq_wqe_seg_idx sq = 4 * sq_pi sq"

text \<open>
  A data segment at \<open>swqe\<close> that announces \<open>len\<close> bytes at \<open>p\<close>, and the two fields of a data
  segment being apart from each other and from the \<open>n\<close> bytes at \<open>p\<close>.
\<close>

definition posted :: "flexio \<Rightarrow> ptr \<Rightarrow> ptr \<Rightarrow> u32 \<Rightarrow> memory \<Rightarrow> bool" where
  "posted fx swqe p len m \<longleftrightarrow>
     load32 m (swqe + send_data_byte_count_off fx) = cpu_to_be32 fx len \<and>
     load64 m (swqe + send_data_addr_off fx) = cpu_to_be64 fx p"

definition data_seg_sep :: "flexio \<Rightarrow> ptr \<Rightarrow> ptr \<Rightarrow> nat \<Rightarrow> bool" where
  "data_seg_sep fx swqe p n \<longleftrightarrow>
     sep (swqe + send_data_byte_count_off fx) 4 p n \<and> sep (swqe + send_data_addr_off fx) 8 p n \<and>
     sep (swqe + send_data_byte_count_off fx) 4 (swqe + send_data_addr_off fx) 8"

text \<open>
  Documented behaviour of the library: the doorbell-record writers write the four bytes of the
  record and nothing else.
\<close>

definition dbr_local :: "flexio \<Rightarrow> bool" where
  "dbr_local fx \<longleftrightarrow>
     (\<forall>p m a. \<not> inside a p 4 \<longrightarrow> dbr_rq_inc_pi fx p m a = m a) \<and>
     (\<forall>p i m a. \<not> inside a p 4 \<longrightarrow> dbr_cq_set_ci fx p i m a = m a)"

text \<open>
  The send queue after one packet.
\<close>

definition sq_sent :: "sq_ctx_t \<Rightarrow> sq_ctx_t" where
  "sq_sent sq = sq\<lparr>sq_wqe_seg_idx := sq_wqe_seg_idx sq + 4, sq_pi := sq_pi sq + 1\<rparr>"

text \<open>
  The send ring after initialisation, written segment by segment: entry \<open>i\<close> has its control
  segment, with index \<open>i\<close>, at slot \<open>4 i\<close>, the Ethernet segment at \<open>4 i + 1\<close> and the data
  segment at \<open>4 i + 2\<close>.
\<close>

definition send_entry_ref :: "flexio \<Rightarrow> ptr \<Rightarrow> u32 \<Rightarrow> u32 \<Rightarrow> nat \<Rightarrow> memory \<Rightarrow> memory" where
  "send_entry_ref fx ring sqn lkey i m =
     swqe_seg_mem_ptr_data_set fx (ring + of_nat (4 * i + 2) * sqe_seg_bsize fx) 0 lkey 0
       (swqe_seg_eth_set fx (ring + of_nat (4 * i + 1) * sqe_seg_bsize fx)
         (swqe_seg_ctrl_set fx (ring + of_nat (4 * i) * sqe_seg_bsize fx) (of_nat i) sqn m))"

subsection \<open>Completion queue\<close>

lemma snd_step_cq [simp]: "snd (step_cq fx cq d) = next_cq fx cq"
  by (simp add: next_cq_def step_cq_def Let_def)

lemma unat_inc_u32: "unat (x + 1) = (unat x + 1) mod 2 ^ 32" for x :: u32
  by (simp add: unat_word_ariths)

lemma pred_mult_div: "0 < N \<Longrightarrow> (Suc k * N - 1) div N = (k::nat)"
proof -
  assume N: "0 < N"
  have "(Suc k * N - 1) div N = (k * N + (N - 1)) div N" using N by (simp add: add.commute)
  also have "\<dots> = k + (N - 1) div N" using N by (intro div_mult_self3) simp
  also have "\<dots> = k" using N by simp
  finally show ?thesis .
qed

lemma epoch_step:
  fixes x :: nat
  assumes "n \<le> 31" "x < 2 ^ 32"
  shows "even ((x + 1) mod 2 ^ 32 div 2 ^ n) = (even (x div 2 ^ n) \<noteq> ((x + 1) mod 2 ^ 32 mod 2 ^ n = 0))"
proof (cases "x + 1 < 2 ^ 32")
  case True
  then have "(x + 1) mod 2 ^ 32 = Suc x" by simp
  then show ?thesis by (simp only: div_Suc) simp
next
  case False
  with assms have x: "x = 2 ^ 32 - 1" by simp
  have "(2::nat) ^ 32 = 2 ^ (32 - n) * 2 ^ n"
    using assms by (simp flip: power_add)
  moreover obtain k where k: "(2::nat) ^ (32 - n) = Suc k" by (cases "(2::nat) ^ (32 - n)") auto
  ultimately have "x div 2 ^ n = k"
    unfolding x using pred_mult_div[of "2 ^ n" k] by simp
  moreover have "even ((2::nat) ^ (32 - n))" using assms by simp
  ultimately have "odd (x div 2 ^ n)" using k by simp
  with x show ?thesis by simp
qed

lemma next_cq_inv:
  assumes "n \<le> 31" "cq_inv fx n cq"
  shows "cq_inv fx n (next_cq fx cq)"
proof -
  let ?i = "cq_idx cq"
  have lt: "unat ?i < 2 ^ 32" using unsigned_less[of ?i] by simp
  have z: "((?i + 1) AND ring_mask n = 0) = ((unat ?i + 1) mod 2 ^ 32 mod 2 ^ n = 0)"
    by (metis unat_and_ring_mask unat_inc_u32 unat_eq_0)
  show ?thesis
    using assms(2) epoch_step[OF assms(1) lt] z
    by (simp add: cq_inv_def next_cq_def step_cq_def Let_def unat_inc_u32)
qed

subsection \<open>Window addresses\<close>

lemma receive_packet_host_eq:
  "receive_packet_host fx m cq rq h =
     (let (p, len) = receive_packet fx m cq rq in (host_rq_addr_to_dpa_addr p h, len))"
  by (simp add: receive_packet_host_def receive_packet_def host_rq_addr_to_dpa_addr_def Let_def)

lemma host_rq_addr_off:
  "host_rq_addr_to_dpa_addr (host_rx_buff h + off) h = dpa_rx_buff h + off"
  by (simp add: host_rq_addr_to_dpa_addr_def algebra_simps)

lemma host_sq_addr_off:
  "host_sq_addr_to_dpa_addr (host_tx_buff h + off) h = dpa_tx_buff h + off"
  by (simp add: host_sq_addr_to_dpa_addr_def algebra_simps)

lemma host_rq_addr_same [simp]:
  "dpa_rx_buff h = host_rx_buff h \<Longrightarrow> host_rq_addr_to_dpa_addr p h = p"
  by (simp add: host_rq_addr_to_dpa_addr_def)

subsection \<open>Send buffers and the timer\<close>

lemma unat_push_bit_u32: "unat x * 2 ^ l < 2 ^ 32 \<Longrightarrow> unat (push_bit l x) = unat x * 2 ^ l" for x :: u32
  by (simp only: unsigned_push_bit_eq) (simp add: push_bit_eq_mult take_bit_nat_eq_self)

lemma get_next_send_buf_addr:
  assumes "data_idx_mask dt = ring_mask n" "n + l \<le> 32"
  shows "fst (get_next_send_buf dt l) =
           sq_tx_buff dt + of_nat ((unat (tx_buff_idx dt) mod 2 ^ n) * 2 ^ l)"
proof -
  let ?i = "tx_buff_idx dt AND ring_mask n"
  have i: "unat ?i = unat (tx_buff_idx dt) mod 2 ^ n" by (rule unat_and_ring_mask)
  have "unat ?i * 2 ^ l < 2 ^ n * 2 ^ l" using ring_mask_bound by simp
  also have "\<dots> \<le> (2::nat) ^ 32" using power_increasing[OF assms(2), of "2::nat"] by (simp add: power_add)
  finally have "unat (push_bit l ?i) = unat ?i * 2 ^ l"
    by (rule unat_push_bit_u32)
  then have "(ucast (push_bit l ?i) :: u64) = of_nat (unat ?i * 2 ^ l)"
    by (metis of_nat_unat)
  then show ?thesis using assms(1)
    by (simp only: get_next_send_buf_def Let_def i fst_conv) 
qed

lemma timer_round_elapsed:
  "fst (timer_round t0 t1 s) + of_nat (snd (timer_round t0 t1 s)) = fst s + of_nat (snd s) + elapsed32 t0 t1"
  by (simp add: timer_round_def elapsed32_def case_prod_beta)

lemma timer_benchmark_loop_exact:
  "(\<lambda>((a, k), _). a + of_nat k) (timer_benchmark_loop fx n s d)
   = fst s + of_nat (snd s) + (\<Sum>i<n. elapsed32 (thread_cycles fx (clk d + 2 * i)) (thread_cycles fx (clk d + 2 * i + 1)))"
proof (induction n arbitrary: s d)
  case 0 show ?case by (simp add: case_prod_beta)
next
  case (Suc n)
  show ?case
    by (simp add: Let_def case_prod_beta Suc[unfolded case_prod_beta] timer_round_elapsed sum.lessThan_Suc_shift del: sum.lessThan_Suc) 
qed

lemma timer_benchmark_loop_wraps:
  "snd (fst (timer_benchmark_loop fx n s d)) = snd s +
     (\<Sum>i<n. of_bool (\<not> thread_cycles fx (clk d + 2 * i) < thread_cycles fx (clk d + 2 * i + 1)))"
proof (induction n arbitrary: s d)
  case 0 show ?case by simp
next
  case (Suc n)
  show ?case
    by (simp add: Let_def case_prod_beta Suc timer_round_def sum.lessThan_Suc_shift del: sum.lessThan_Suc)
qed

subsection \<open>Send ring\<close>

lemma ucast_of_nat_and_mask:
  "k < 2 ^ q \<Longrightarrow> q \<le> 32 \<Longrightarrow> ucast ((of_nat k :: u32) AND ring_mask q) = (of_nat k :: u64)"
proof -
  assume k: "k < 2 ^ q" and q: "q \<le> 32"
  have "k < 2 ^ 32" using k power_increasing[OF q, of "2::nat"] by simp
  then have "unat ((of_nat k :: u32) AND ring_mask q) = k"
    using k by (simp add: unat_and_ring_mask unat_of_nat)
  then show ?thesis by (metis of_nat_unat)
qed

lemma init_send_sq_entry_ref:
  assumes "sq_idx_mask sq = ring_mask (n + 2)" "n \<le> 30" "sq_wqe_seg_idx sq = of_nat (4 * i)" "i < 2 ^ n"
  shows "init_send_sq_entry fx lkey (of_nat i) (m, sq) =
    (send_entry_ref fx (sq_ring sq) (sq_number sq) lkey i m, sq\<lparr>sq_wqe_seg_idx := of_nat (4 * Suc i)\<rparr>)"
proof -
  have b: "4 * i + j < 2 ^ (n + 2)" if "j < 4" for j
    using assms(4) that by (simp add: power_add)
  have c: "ucast ((of_nat (4 * i + j) :: u32) AND ring_mask (n + 2)) = (of_nat (4 * i + j) :: u64)" if "j < 4" for j
    using b[OF that] assms(2) by (intro ucast_of_nat_and_mask) auto
  have i1: "of_nat (4 * i) + 1 = (of_nat (4 * i + 1) :: u32)" "of_nat (4 * i + 1) + 1 = (of_nat (4 * i + 2) :: u32)"
    "of_nat (4 * i + 2) + 1 = (of_nat (4 * i + 3) :: u32)" "of_nat (4 * i + 3) + 1 = (of_nat (4 * Suc i) :: u32)"
    by simp_all
  show ?thesis
    using c[of 0] c[of 1] c[of 2]
    by (simp only: init_send_sq_entry_def get_next_sqe_def send_entry_ref_def assms(1,3) i1 Let_def case_prod_conv
      sq_ctx_t.simps) (simp add: assms(1))
qed

lemma init_send_sq_loop_ref:
  assumes "sq_idx_mask sq = ring_mask (n + 2)" "n \<le> 30" "sq_wqe_seg_idx sq = of_nat (4 * i)" "i + k \<le> 2 ^ n"
  shows "init_send_sq_loop fx lkey i k (m, sq) =
    (fold (send_entry_ref fx (sq_ring sq) (sq_number sq) lkey) [i..<i + k] m,
     sq\<lparr>sq_wqe_seg_idx := of_nat (4 * (i + k))\<rparr>)"
  using assms
proof (induction k arbitrary: i m sq)
  case 0
  then show ?case by simp
next
  case (Suc k)
  have e: "init_send_sq_entry fx lkey (of_nat i) (m, sq) =
    (send_entry_ref fx (sq_ring sq) (sq_number sq) lkey i m, sq\<lparr>sq_wqe_seg_idx := of_nat (4 * Suc i)\<rparr>)"
    using Suc.prems by (intro init_send_sq_entry_ref) auto
  show ?case
    using Suc.prems Suc.IH[of "sq\<lparr>sq_wqe_seg_idx := of_nat (4 * Suc i)\<rparr>" "Suc i"]
    by (simp add: e upt_rec[of i "Suc (i + k)"] del: upt_Suc of_nat_mult of_nat_Suc of_nat_add) 
qed

lemma init_send_sq_ref:
  assumes "sq_idx_mask sq = ring_mask (n + 2)" "n \<le> 30" "sq_wqe_seg_idx sq = 0" "unat entry_size \<le> 2 ^ n"
  shows "init_send_sq fx sq entry_size lkey d =
    (upd_mem (fold (send_entry_ref fx (sq_ring sq) (sq_number sq) lkey) [0..<unat entry_size]) d, sq)"
  using init_send_sq_loop_ref[OF assms(1,2), of 0 "unat entry_size" fx lkey "mem d"] assms(3,4)
  by (simp add: init_send_sq_def upd_mem_def)

subsection \<open>Doorbell order\<close>

lemma db_ordered_from_snoc:
  "db_ordered_from prev (xs @ ys) \<longleftrightarrow> db_ordered_from prev xs \<and> db_ordered_from (last (prev # xs)) ys"
  by (induction xs arbitrary: prev) auto

lemma db_ordered_from_quiet: "list_all (\<lambda>e. \<not> is_ring_db e) es \<Longrightarrow> db_ordered_from prev es"
  by (induction es arbitrary: prev) auto

lemma db_ordered_quiet: "list_all (\<lambda>e. \<not> is_ring_db e) es \<Longrightarrow> db_ordered (tr @ es) = db_ordered tr"
  by (simp add: db_ordered_def db_ordered_from_snoc db_ordered_from_quiet)

lemma db_ordered_emit:
  "\<not> is_ring_db e \<Longrightarrow> db_ordered (tr @ [e]) = db_ordered tr"
  "db_ordered (tr @ [Memory_writeback, Ring_db p n]) = db_ordered tr"
  "db_ordered (tr @ [Memory_writeback, Window_writeback, Ring_db p n]) = db_ordered tr"
  by (simp_all add: db_ordered_def db_ordered_from_snoc)

lemma doorbells_append [simp]: "doorbells (xs @ ys) = doorbells xs @ doorbells ys"
  by (induction xs rule: doorbells.induct) auto

subsection \<open>What sending changes\<close>

named_theorems send_simps "what sending does to the contexts and the trace"

lemma prepare_send_packet_simps [send_simps]:
  "trace (fst (prepare_send_packet fx sq p n d)) = trace d"
  "clk (fst (prepare_send_packet fx sq p n d)) = clk d"
  "snd (prepare_send_packet fx sq p n d) = sq\<lparr>sq_wqe_seg_idx := sq_wqe_seg_idx sq + 4\<rparr>"
  by (simp_all add: prepare_send_packet_def get_next_data_sqe_def)

lemma finish_send_packet_simps [send_simps]:
  "trace (fst (finish_send_packet sq d)) = trace d @ [Memory_writeback, Ring_db (sq_pi sq + 1) (sq_number sq)]"
  "mem (fst (finish_send_packet sq d)) = mem d" "clk (fst (finish_send_packet sq d)) = clk d"
  "snd (finish_send_packet sq d) = sq\<lparr>sq_pi := sq_pi sq + 1\<rparr>"
  by (simp_all add: finish_send_packet_def Let_def)

lemma finish_send_packet_host_simps [send_simps]:
  "trace (fst (finish_send_packet_host sq d)) =
     trace d @ [Memory_writeback, Window_writeback, Ring_db (sq_pi sq + 1) (sq_number sq)]"
  "mem (fst (finish_send_packet_host sq d)) = mem d" "clk (fst (finish_send_packet_host sq d)) = clk d"
  "snd (finish_send_packet_host sq d) = sq\<lparr>sq_pi := sq_pi sq + 1\<rparr>"
  by (simp_all add: finish_send_packet_host_def Let_def)

lemma ucast_add_u32: "(ucast (ucast x + y :: u64) :: u32) = x + ucast y" for x :: u32
proof -
  have "unat (ucast (ucast x + y :: u64) :: u32) = unat (x + ucast y)"
    by (simp add: unat_word_ariths unsigned_ucast_eq take_bit_eq_mod mod_simps mod_mod_cancel)
  then show ?thesis by (simp add: word_unat_eq_iff)
qed

lemma finish_send_packet_batch_simps [send_simps]:
  "trace (fst (finish_send_packet_batch sq k d)) = trace d @ [Memory_writeback, Ring_db (sq_pi sq + ucast k) (sq_number sq)]"
  "mem (fst (finish_send_packet_batch sq k d)) = mem d" "clk (fst (finish_send_packet_batch sq k d)) = clk d"
  "snd (finish_send_packet_batch sq k d) = sq\<lparr>sq_pi := sq_pi sq + ucast k\<rparr>"
  by (simp_all add: finish_send_packet_batch_def Let_def ucast_add_u32)

lemma finish_send_packet_host_batch_simps [send_simps]:
  "trace (fst (finish_send_packet_host_batch sq k d)) =
     trace d @ [Memory_writeback, Window_writeback, Ring_db (sq_pi sq + ucast k) (sq_number sq)]"
  "mem (fst (finish_send_packet_host_batch sq k d)) = mem d" "clk (fst (finish_send_packet_host_batch sq k d)) = clk d"
  "snd (finish_send_packet_host_batch sq k d) = sq\<lparr>sq_pi := sq_pi sq + ucast k\<rparr>"
  by (simp_all add: finish_send_packet_host_batch_def Let_def ucast_add_u32)

lemma sq_sent_fields [simp]:
  "sq_pi (sq_sent sq) = sq_pi sq + 1" "sq_number (sq_sent sq) = sq_number sq"
  "sq_wqe_seg_idx (sq_sent sq) = sq_wqe_seg_idx sq + 4" "sq_ring (sq_sent sq) = sq_ring sq"
  "sq_idx_mask (sq_sent sq) = sq_idx_mask sq" "sq_dbr (sq_sent sq) = sq_dbr sq"
  by (simp_all add: sq_sent_def)

lemma sq_sent_balanced [intro]: "sq_balanced sq \<Longrightarrow> sq_balanced (sq_sent sq)"
  by (simp add: sq_balanced_def)

text \<open>The data segment of a balanced queue is segment 2 of the entry with the next index.\<close>

lemma data_sqe_of_entry:
  assumes "sq_balanced sq" "sq_idx_mask sq = ring_mask (n + 2)" "n \<le> 30"
  shows "fst (get_next_data_sqe fx sq) =
    sq_ring sq + of_nat (4 * (unat (sq_pi sq) mod 2 ^ n) + 2) * sqe_seg_bsize fx"
proof -
  let ?k = "unat (sq_pi sq)"
  have le: "n + 2 \<le> (32::nat)" using assms(3) by simp
  have "(2::nat) ^ (n + 2) dvd 2 ^ 32" using le by (rule le_imp_power_dvd)
  moreover have "unat (4 * sq_pi sq + 2) = (4 * ?k + 2) mod 2 ^ 32"
    by (simp add: unat_word_ariths mod_simps)
  ultimately have "unat ((4 * sq_pi sq + 2) AND ring_mask (n + 2)) = (4 * ?k + 2) mod 2 ^ (n + 2)"
    by (simp only: unat_and_ring_mask mod_mod_cancel)
  also have "\<dots> = 4 * (?k mod 2 ^ n) + 2"
  proof -
    have "(4 * ?k + 2) mod (4 * 2 ^ n) = 4 * ((4 * ?k + 2) div 4 mod 2 ^ n) + (4 * ?k + 2) mod 4"
      by (rule mod_mult2_eq)
    moreover have "(4 * ?k + 2) div 4 = ?k" "(4 * ?k + 2) mod 4 = 2" by presburger+
    ultimately show ?thesis by (simp add: power_add mult.commute)
  qed
  finally have "(ucast ((4 * sq_pi sq + 2) AND ring_mask (n + 2)) :: u64) = of_nat (4 * (?k mod 2 ^ n) + 2)"
    by (metis of_nat_unat)
  then show ?thesis
    using assms by (simp only: get_next_data_sqe_def sq_balanced_def fst_conv)
qed

text \<open>What \<open>prepare_send_packet\<close> leaves in memory.\<close>

lemma prepare_send_packet_mem:
  assumes "data_seg_sep fx (fst (get_next_data_sqe fx sq)) q n" "n \<le> 2 ^ 64"
  shows "posted fx (fst (get_next_data_sqe fx sq)) p len (mem (fst (prepare_send_packet fx sq p len d)))"
    and "load_bytes (mem (fst (prepare_send_packet fx sq p len d))) q n = load_bytes (mem d) q n"
proof -
  let ?w = "fst (get_next_data_sqe fx sq)"
  have m: "mem (fst (prepare_send_packet fx sq p len d)) =
    store64 (store32 (mem d) (?w + send_data_byte_count_off fx) (cpu_to_be32 fx len))
      (?w + send_data_addr_off fx) (cpu_to_be64 fx p)"
    by (simp add: prepare_send_packet_def get_next_data_sqe_def)
  have s: "sep (?w + send_data_addr_off fx) 8 (?w + send_data_byte_count_off fx) 4"
    using assms(1) by (simp add: data_seg_sep_def sep_sym)
  show "posted fx ?w p len (mem (fst (prepare_send_packet fx sq p len d)))"
    unfolding m posted_def using s by (simp add: mem_simps)
  show "load_bytes (mem (fst (prepare_send_packet fx sq p len d))) q n = load_bytes (mem d) q n"
    unfolding m using assms by (simp add: mem_simps data_seg_sep_def)
qed

lemma step_fields [simp]:
  "trace (step_rq fx rq d) = trace d" "clk (step_rq fx rq d) = clk d"
  "trace (fst (step_cq fx cq d)) = trace d" "clk (fst (step_cq fx cq d)) = clk d"
  by (simp_all add: step_rq_def step_cq_def Let_def)

lemma step_mem_outside:
  assumes "dbr_local fx"
  shows "\<not> inside a (rq_dbr rq) 4 \<Longrightarrow> mem (step_rq fx rq d) a = mem d a"
    and "\<not> inside a (cq_dbr cq) 4 \<Longrightarrow> mem (fst (step_cq fx cq d)) a = mem d a"
  using assms by (simp_all add: dbr_local_def step_rq_def step_cq_def Let_def)

lemma sq_sent_eq [send_simps]:
  "sq\<lparr>sq_wqe_seg_idx := sq_wqe_seg_idx sq + 4, sq_pi := sq_pi sq + 1\<rparr> = sq_sent sq"
  by (simp add: sq_sent_def)

lemma init_cq_at_inv: "cq_inv fx n (init_cq_at n app_cq ctx)"
  by (simp add: cq_inv_def init_cq_at_def)

lemma init_at_fields [simp]:
  "cq_idx (init_cq_at n app_cq ctx) = 0" "cq_ring (init_cq_at n app_cq ctx) = cq_ring_daddr app_cq"
  "cq_number (init_cq_at n app_cq ctx) = cq_num app_cq"
  "sq_number (init_sq_at fx n app_wq sq) = wq_num app_wq" "sq_wqe_seg_idx (init_sq_at fx n app_wq sq) = 0"
  "sq_ring (init_sq_at fx n app_wq sq) = wq_ring_daddr app_wq" "sq_pi (init_sq_at fx n app_wq sq) = sq_pi sq"
  "sq_idx_mask (init_sq_at fx n app_wq sq) = ring_mask (n + log_sqe_num_segs fx)"
  "rq_ring (init_rq_at n app_wq rq) = wq_ring_daddr app_wq" "rq_idx_mask (init_rq_at n app_wq rq) = ring_mask n"
  by (simp_all add: init_cq_at_def init_sq_at_def init_rq_at_def)

lemma init_send_sq_entry_keeps:
  "sq_pi (snd (init_send_sq_entry fx key i s)) = sq_pi (snd s) \<and>
   sq_number (snd (init_send_sq_entry fx key i s)) = sq_number (snd s) \<and>
   sq_ring (snd (init_send_sq_entry fx key i s)) = sq_ring (snd s) \<and>
   sq_idx_mask (snd (init_send_sq_entry fx key i s)) = sq_idx_mask (snd s)"
  by (simp add: init_send_sq_entry_def get_next_sqe_def case_prod_beta)

lemma init_send_sq_loop_keeps:
  "sq_pi (snd (init_send_sq_loop fx key i n s)) = sq_pi (snd s) \<and>
   sq_number (snd (init_send_sq_loop fx key i n s)) = sq_number (snd s) \<and>
   sq_ring (snd (init_send_sq_loop fx key i n s)) = sq_ring (snd s) \<and>
   sq_idx_mask (snd (init_send_sq_loop fx key i n s)) = sq_idx_mask (snd s)"
  by (induction n arbitrary: i s) (simp_all add: init_send_sq_entry_keeps)

lemma init_send_sq_fields [simp]:
  "trace (fst (init_send_sq fx sq n key d)) = trace d" "clk (fst (init_send_sq fx sq n key d)) = clk d"
  "sq_wqe_seg_idx (snd (init_send_sq fx sq n key d)) = 0"
  "sq_pi (snd (init_send_sq fx sq n key d)) = sq_pi sq"
  "sq_number (snd (init_send_sq fx sq n key d)) = sq_number sq"
  "sq_ring (snd (init_send_sq fx sq n key d)) = sq_ring sq"
  "sq_idx_mask (snd (init_send_sq fx sq n key d)) = sq_idx_mask sq"
  by (simp_all add: init_send_sq_def case_prod_beta init_send_sq_loop_keeps)

text \<open>Acquiring a window rings no doorbell.\<close>

lemma get_host_buffer_trace [simp]:
  "doorbells (trace (snd (get_host_buffer_with_dtctx fx w k a d))) = doorbells (trace d)"
  "db_ordered (trace (snd (get_host_buffer_with_dtctx fx w k a d))) = db_ordered (trace d)"
  "mem (snd (get_host_buffer_with_dtctx fx w k a d)) = mem d"
  "doorbells (trace (snd (get_host_buffer fx w k a d))) = doorbells (trace d)"
  "db_ordered (trace (snd (get_host_buffer fx w k a d))) = db_ordered (trace d)"
  "mem (snd (get_host_buffer fx w k a d)) = mem d"
  by (simp_all add: get_host_buffer_with_dtctx_def get_host_buffer_def Let_def db_ordered_quiet split: prod.splits)

end
