(* ===== verification/Packet_Headers.thy ===== *)
theory Packet_Headers
  imports Wrapper_Device
begin

text \<open>
  Packet headers, from \<open>wrapper_flexio/common_cross.h\<close>: the packed structures \<open>ether_hdr\<close>,
  \<open>ipv4_hdr\<close>, \<open>udp_hdr\<close> and \<open>udp_packet\<close> as records, their layout in memory, and the exchange of
  the two Ethernet addresses that the reflecting programs do with two overlapping 64-bit
  loads and stores.

  Lemmas: writing a \<open>udp_packet\<close> and reading it back is the identity; the address exchange
  computes exactly the fourteen header bytes it should and nothing else.
\<close>

subsection \<open>Structures\<close>

record ether_hdr =
  eth_dst_addr :: "u8 list"
  eth_src_addr :: "u8 list"
  ether_type :: u16

record ipv4_hdr =
  version_ihl :: u8
  type_of_service :: u8
  total_length :: u16
  packet_id :: u16
  fragment_offset :: u16
  time_to_live :: u8
  next_proto_id :: u8
  hdr_checksum :: u16
  ip_src_addr :: u32
  ip_dst_addr :: u32

record udp_hdr =
  src_port :: u16
  dst_port :: u16
  dgram_len :: u16
  dgram_cksum :: u16

record udp_packet =
  pkt_eth :: ether_hdr
  pkt_ip :: ipv4_hdr
  pkt_udp :: udp_hdr

subsection \<open>Layout\<close>

text \<open>Byte offsets of the fields of a packed \<open>struct udp_packet\<close>.\<close>

abbreviation off_eth_src :: ptr where "off_eth_src \<equiv> 6"
abbreviation off_ether_type :: ptr where "off_ether_type \<equiv> 12"
abbreviation off_version_ihl :: ptr where "off_version_ihl \<equiv> 14"
abbreviation off_type_of_service :: ptr where "off_type_of_service \<equiv> 15"
abbreviation off_total_length :: ptr where "off_total_length \<equiv> 16"
abbreviation off_packet_id :: ptr where "off_packet_id \<equiv> 18"
abbreviation off_fragment_offset :: ptr where "off_fragment_offset \<equiv> 20"
abbreviation off_time_to_live :: ptr where "off_time_to_live \<equiv> 22"
abbreviation off_next_proto_id :: ptr where "off_next_proto_id \<equiv> 23"
abbreviation off_hdr_checksum :: ptr where "off_hdr_checksum \<equiv> 24"
abbreviation off_ip_src :: ptr where "off_ip_src \<equiv> 26"
abbreviation off_ip_dst :: ptr where "off_ip_dst \<equiv> 30"
abbreviation off_src_port :: ptr where "off_src_port \<equiv> 34"
abbreviation off_dst_port :: ptr where "off_dst_port \<equiv> 36"
abbreviation off_dgram_len :: ptr where "off_dgram_len \<equiv> 38"
abbreviation off_dgram_cksum :: ptr where "off_dgram_cksum \<equiv> 40"

definition udp_packet_bytes :: "udp_packet \<Rightarrow> u8 list" where
  "udp_packet_bytes pkt =
     (let e = pkt_eth pkt; i = pkt_ip pkt; u = pkt_udp pkt in
      eth_dst_addr e @ eth_src_addr e @ word_bytes 2 (ether_type e) @
      [version_ihl i, type_of_service i] @ word_bytes 2 (total_length i) @
      word_bytes 2 (packet_id i) @ word_bytes 2 (fragment_offset i) @
      [time_to_live i, next_proto_id i] @ word_bytes 2 (hdr_checksum i) @
      word_bytes 4 (ip_src_addr i) @ word_bytes 4 (ip_dst_addr i) @
      word_bytes 2 (src_port u) @ word_bytes 2 (dst_port u) @
      word_bytes 2 (dgram_len u) @ word_bytes 2 (dgram_cksum u))"

definition read_udp_packet :: "memory \<Rightarrow> ptr \<Rightarrow> udp_packet" where
  "read_udp_packet m p =
     \<lparr>pkt_eth = \<lparr>eth_dst_addr = load_bytes m p 6, eth_src_addr = load_bytes m (p + off_eth_src) 6,
                 ether_type = load16 m (p + off_ether_type)\<rparr>,
      pkt_ip = \<lparr>version_ihl = m (p + off_version_ihl), type_of_service = m (p + off_type_of_service),
                total_length = load16 m (p + off_total_length), packet_id = load16 m (p + off_packet_id),
                fragment_offset = load16 m (p + off_fragment_offset),
                time_to_live = m (p + off_time_to_live), next_proto_id = m (p + off_next_proto_id),
                hdr_checksum = load16 m (p + off_hdr_checksum),
                ip_src_addr = load32 m (p + off_ip_src), ip_dst_addr = load32 m (p + off_ip_dst)\<rparr>,
      pkt_udp = \<lparr>src_port = load16 m (p + off_src_port), dst_port = load16 m (p + off_dst_port),
                 dgram_len = load16 m (p + off_dgram_len), dgram_cksum = load16 m (p + off_dgram_cksum)\<rparr>\<rparr>"

subsection \<open>Exchanging the Ethernet addresses\<close>

text \<open>
  \<^verbatim>\<open>
    size_t src_mac = *(size_t *)sq_data;
    size_t dst_mac = *(size_t *)(sq_data + 6);
    *(size_t *)(sq_data) = dst_mac;
    *(size_t *)(sq_data + 6) = (src_mac & 0x0000FFFFFFFFFFFF) | (0x0008ll << 48);
  \<close>
\<close>

definition swap_mac :: "memory \<Rightarrow> ptr \<Rightarrow> memory" where
  "swap_mac m data =
     (let src_mac = load64 m data;
          dst_mac = load64 m (data + 6);
          m = store64 m data dst_mac
      in store64 m (data + 6) ((src_mac AND 0x0000FFFFFFFFFFFF) OR push_bit 48 0x0008))"

subsection \<open>Bytes of words\<close>

lemma byte_of_load:
  "j < k \<Longrightarrow> 8 * k \<le> LENGTH('a::len) \<Longrightarrow>
     (ucast (drop_bit (8 * j) (load_le k m p :: 'a word)) :: u8) = m (p + of_nat j)"
proof (rule bit_word_eqI)
  fix n assume j: "j < k" "8 * k \<le> LENGTH('a)" and n: "n < LENGTH(8)"
  then have "8 * j + n < 8 * k" by simp
  moreover have "(8 * j + n) div 8 = j" "(8 * j + n) mod 8 = n" using n by simp_all
  ultimately show "bit (ucast (drop_bit (8 * j) (load_le k m p :: 'a word)) :: u8) n = bit (m (p + of_nat j)) n"
    using j n by (simp add: bit_simps bit_load_le)
qed

lemma load_bytes_store_word:
  "k \<le> 2 ^ 64 \<Longrightarrow> load_bytes (store_le k m p w) p k = word_bytes k w"
  by (rule nth_equalityI) (simp_all add: store_le_apply inside_def unat_of_nat)

lemma load_le_bytes:
  assumes "LENGTH('a::len) = 8 * k" "\<And>i. i < k \<Longrightarrow> m (p + of_nat i) = ucast (drop_bit (8 * i) w)"
  shows "load_le k m p = (w :: 'a word)"
proof (rule bit_word_eqI)
  fix n assume n: "n < LENGTH('a)"
  then have "n div 8 < k" using assms(1) by auto
  then show "bit (load_le k m p :: 'a word) n = bit w n"
    using n assms by (simp add: bit_load_le bit_simps)
qed

lemma low_byte_masked:
  fixes w e :: u64
  assumes "j < 6"
  shows "(ucast (drop_bit (8 * j) ((w AND mask 48) OR push_bit 48 e)) :: u8) = ucast (drop_bit (8 * j) w)"
proof (rule bit_word_eqI)
  fix n assume "n < LENGTH(8)"
  then have "8 * j + n < 48" using assms by simp
  then show "bit (ucast (drop_bit (8 * j) ((w AND mask 48) OR push_bit 48 e)) :: u8) n =
      bit (ucast (drop_bit (8 * j) w) :: u8) n"
    by (simp add: bit_simps)
qed

lemma swap_mac_new_tail:
  fixes w :: u64
  assumes "j < 8"
  shows "(ucast (drop_bit (8 * j) ((w AND 0x0000FFFFFFFFFFFF) OR push_bit 48 0x0008)) :: u8) =
     (if j < 6 then ucast (drop_bit (8 * j) w) else if j = 6 then 8 else 0)"
proof -
  have m: "(0x0000FFFFFFFFFFFF :: u64) = mask 48" by (simp add: mask_eq_exp_minus_1)
  consider "j < 6" | "j = 6" | "j = 7" using assms by linarith
  then show ?thesis
  proof cases
    case 1
    then show ?thesis unfolding m by (simp only: low_byte_masked if_True)
  qed (auto intro!: bit_word_eqI simp: m bit_simps)
qed

text \<open>What the exchange leaves at every address: the two addresses trade places, bytes 12 and 13
  become the IPv4 EtherType 08 00, everything else is as before.\<close>

lemma swap_mac_apply:
  "swap_mac m p a =
     (let i = unat (a - p) in
      if i < 6 then m (a + 6) else if i < 12 then m (a - 6)
      else if i = 12 then 8 else if i = 13 then 0 else m a)"
proof -
  let ?i = "unat (a - p)"
  have off: "p + of_nat ?i = a" by simp
  have in8: "inside a p 8 \<longleftrightarrow> ?i < 8" by (simp add: inside_def)
  have in68: "inside a (p + 6) 8 \<longleftrightarrow> 6 \<le> ?i \<and> ?i < 14"
    using unat_sub_split[of a p "p + 6"] unat_lt_u64[of "a - (p + 6)"] unat_lt_u64[of "a - p"]
    unfolding inside_def by auto
  have i6: "unat (a - (p + 6)) = ?i - 6" if "6 \<le> ?i"
    using that unat_sub_split[of a p "p + 6"] unat_lt_u64[of "a - (p + 6)"] by auto
  have hi: "p + of_nat (?i - 6) = a - 6" if "6 \<le> ?i" using that by (simp add: of_nat_diff)
  have lo: "(ucast (drop_bit (8 * ?i) (load64 m (p + 6))) :: u8) = m (a + 6)" if "?i < 8"
    using that by (subst byte_of_load) (simp_all add: algebra_simps)
  have tl: "(ucast (drop_bit (8 * (?i - 6)) (load64 m p)) :: u8) = m (a - 6)" if "6 \<le> ?i" "?i < 12"
    using that by (subst byte_of_load) (simp_all add: hi)
  have nt: "?i - 6 < 8 \<Longrightarrow> (ucast (drop_bit (8 * (?i - 6)) ((load64 m p AND 0x0000FFFFFFFFFFFF) OR push_bit 48 0x0008)) :: u8) =
      (if ?i - 6 < 6 then ucast (drop_bit (8 * (?i - 6)) (load64 m p)) else if ?i - 6 = 6 then 8 else 0)"
    by (rule swap_mac_new_tail)
  have k: "(8::nat) \<le> 2 ^ 64" by simp
  show ?thesis
    unfolding swap_mac_def Let_def store_le_apply[OF k] in8 in68
    using nt lo tl i6 by (cases "6 \<le> ?i") (simp_all only: split: if_split, auto)
qed

lemma unat_off [simp]: "i < 2 ^ 64 \<Longrightarrow> unat (p + of_nat i - p) = i" for p :: ptr
  by (simp add: unat_of_nat)

lemma swap_mac_nth:
  "i < 2 ^ 64 \<Longrightarrow> swap_mac m p (p + of_nat i) =
     (if i < 6 then m (p + of_nat (i + 6)) else if i < 12 then m (p + of_nat (i - 6))
      else if i = 12 then 8 else if i = 13 then 0 else m (p + of_nat i))"
proof -
  assume i: "i < 2 ^ 64"
  have a: "m (p + of_nat i + 6) = m (p + of_nat (i + 6))" by (simp add: add.assoc)
  have b: "m (p + of_nat i - 6) = m (p + of_nat (i - 6))" if "6 \<le> i"
    using that by (simp add: of_nat_diff add_diff_eq)
  show ?thesis
    unfolding swap_mac_apply unat_off[OF i] Let_def a using b by auto
qed

lemma swap_mac_outside: "\<not> inside a p 14 \<Longrightarrow> swap_mac m p a = m a"
  by (simp add: swap_mac_apply inside_def)

text \<open>The first \<open>n\<close> bytes of a frame after the exchange.\<close>

definition swapped_frame :: "u8 list \<Rightarrow> u8 list" where
  "swapped_frame bs = take 6 (drop 6 bs) @ take 6 bs @ [8, 0] @ drop 14 bs"

lemma length_swapped_frame [simp]: "14 \<le> length bs \<Longrightarrow> length (swapped_frame bs) = length bs"
  by (simp add: swapped_frame_def)

lemma nth_swapped_frame:
  assumes "14 \<le> length bs" "i < length bs"
  shows "swapped_frame bs ! i =
    (if i < 6 then bs ! (i + 6) else if i < 12 then bs ! (i - 6) else if i = 12 then 8 else if i = 13 then 0 else bs ! i)"
proof -
  consider "i < 6" | "6 \<le> i" "i < 12" | "i = 12" | "i = 13" | "14 \<le> i" by linarith
  then show ?thesis
  proof cases
    case 2
    then obtain j where "i = 6 + j" "j < 6" using le_Suc_ex by fastforce
    with assms show ?thesis by (simp add: swapped_frame_def nth_append)
  next
    case 5
    then obtain j where "i = 14 + j" using le_Suc_ex by blast
    with assms show ?thesis by (simp add: swapped_frame_def nth_append)
  qed (use assms in \<open>simp_all add: swapped_frame_def nth_append add.commute\<close>)
qed

lemma load_bytes_swap_mac:
  assumes "14 \<le> n" "n \<le> 2 ^ 64"
  shows "load_bytes (swap_mac m p) p n = swapped_frame (load_bytes m p n)"
proof (rule nth_equalityI)
  show "length (load_bytes (swap_mac m p) p n) = length (swapped_frame (load_bytes m p n))"
    using assms by (simp add: swapped_frame_def)
  fix i assume "i < length (load_bytes (swap_mac m p) p n)"
  then have i: "i < n" by simp
  then have u: "i < 2 ^ 64" using assms by simp
  show "load_bytes (swap_mac m p) p n ! i = swapped_frame (load_bytes m p n) ! i"
    unfolding nth_load_bytes[OF i] swap_mac_nth[OF u]
    using assms(1) i by (subst nth_swapped_frame) (auto simp: add.commute)
qed

lemma swapped_frame_twice:
  "14 \<le> length bs \<Longrightarrow> bs ! 12 = 8 \<Longrightarrow> bs ! 13 = 0 \<Longrightarrow> swapped_frame (swapped_frame bs) = bs"
  by (rule nth_equalityI) (auto simp: nth_swapped_frame)

subsection \<open>Round trip of a header\<close>

lemma load_le_store_bytes:
  assumes "LENGTH('a::len) = 8 * k" "length bs \<le> 2 ^ 64" "j + k \<le> length bs"
    and "take k (drop j bs) = word_bytes k w"
  shows "load_le k (store_bytes m p bs) (p + of_nat j) = (w :: 'a word)"
proof (rule load_le_bytes[OF assms(1)])
  fix i assume i: "i < k"
  then have b: "bs ! (j + i) = ucast (drop_bit (8 * i) w)"
    using assms(3,4) nth_take[of i k "drop j bs"] by simp
  have a: "p + of_nat j + of_nat i = p + of_nat (j + i)" by simp
  have u: "j + i < 2 ^ 64" using i assms(2,3) by simp
  show "store_bytes m p bs (p + of_nat j + of_nat i) = ucast (drop_bit (8 * i) w)"
    unfolding a store_bytes_apply[OF assms(2)] inside_def unat_off[OF u] using i assms(3) b by simp
qed

lemma load_bytes_store_bytes_at:
  assumes "length bs \<le> 2 ^ 64" "j + k \<le> length bs"
  shows "load_bytes (store_bytes m p bs) (p + of_nat j) k = take k (drop j bs)"
proof (rule nth_equalityI)
  fix i assume "i < length (load_bytes (store_bytes m p bs) (p + of_nat j) k)"
  then have i: "i < k" by simp
  have a: "p + of_nat j + of_nat i = p + of_nat (j + i)" by simp
  have u: "j + i < 2 ^ 64" using i assms by simp
  show "load_bytes (store_bytes m p bs) (p + of_nat j) k ! i = take k (drop j bs) ! i"
    unfolding nth_load_bytes[OF i] a store_bytes_apply[OF assms(1)] inside_def unat_off[OF u]
    using i assms by simp
qed (use assms in simp)

lemma store_bytes_nth:
  "length bs \<le> 2 ^ 64 \<Longrightarrow> j < length bs \<Longrightarrow> store_bytes m p bs (p + of_nat j) = bs ! j"
  by (simp add: store_bytes_apply inside_def unat_of_nat)

definition packet_wf :: "udp_packet \<Rightarrow> bool" where
  "packet_wf pkt \<longleftrightarrow> length (eth_dst_addr (pkt_eth pkt)) = 6 \<and> length (eth_src_addr (pkt_eth pkt)) = 6"

lemma length_udp_packet_bytes [simp]: "packet_wf pkt \<Longrightarrow> length (udp_packet_bytes pkt) = 42"
  by (simp add: packet_wf_def udp_packet_bytes_def Let_def)

lemma read_write_udp_packet:
  assumes "packet_wf pkt"
  shows "read_udp_packet (store_bytes m p (udp_packet_bytes pkt)) p = pkt"
proof -
  let ?bs = "udp_packet_bytes pkt"
  let ?m = "store_bytes m p ?bs"
  have len: "length ?bs \<le> 2 ^ 64" "length ?bs = 42" using assms by simp_all
  note wf = assms[unfolded packet_wf_def]
  have h: "load_le 2 ?m (p + of_nat j) = w" if "j + 2 \<le> 42" "take 2 (drop j ?bs) = word_bytes 2 w" for j and w :: u16
    using that len by (intro load_le_store_bytes) simp_all
  have w: "load_le 4 ?m (p + of_nat j) = w" if "j + 4 \<le> 42" "take 4 (drop j ?bs) = word_bytes 4 w" for j and w :: u32
    using that len by (intro load_le_store_bytes) simp_all
  have b: "?m (p + of_nat j) = ?bs ! j" if "j < 42" for j
    using that len by (intro store_bytes_nth) simp_all
  have e: "load_bytes ?m (p + of_nat j) 6 = take 6 (drop j ?bs)" if "j + 6 \<le> 42" for j
    using that len by (intro load_bytes_store_bytes_at) simp_all
  note unf = udp_packet_bytes_def Let_def nth_append
  show ?thesis
    using e[of 0] e[of 6] h[of 12 "ether_type (pkt_eth pkt)"]
      b[of 14] b[of 15] h[of 16 "total_length (pkt_ip pkt)"] h[of 18 "packet_id (pkt_ip pkt)"]
      h[of 20 "fragment_offset (pkt_ip pkt)"] b[of 22] b[of 23] h[of 24 "hdr_checksum (pkt_ip pkt)"]
      w[of 26 "ip_src_addr (pkt_ip pkt)"] w[of 30 "ip_dst_addr (pkt_ip pkt)"]
      h[of 34 "src_port (pkt_udp pkt)"] h[of 36 "dst_port (pkt_udp pkt)"]
      h[of 38 "dgram_len (pkt_udp pkt)"] h[of 40 "dgram_cksum (pkt_udp pkt)"] wf
    by (simp add: read_udp_packet_def unf)
qed

subsection \<open>Writing single fields\<close>

text \<open>A store to a field of a packet in memory is an update of that field of the record.\<close>

named_theorems header_simps "stores to header fields as record updates"

lemma store_field_simps [header_simps]:
  "read_udp_packet (store16 m (p + off_total_length) h) p =
     (read_udp_packet m p)\<lparr>pkt_ip := (pkt_ip (read_udp_packet m p))\<lparr>total_length := h\<rparr>\<rparr>"
  "read_udp_packet (store32 m (p + off_ip_src) w) p =
     (read_udp_packet m p)\<lparr>pkt_ip := (pkt_ip (read_udp_packet m p))\<lparr>ip_src_addr := w\<rparr>\<rparr>"
  "read_udp_packet (store32 m (p + off_ip_dst) w) p =
     (read_udp_packet m p)\<lparr>pkt_ip := (pkt_ip (read_udp_packet m p))\<lparr>ip_dst_addr := w\<rparr>\<rparr>"
  "read_udp_packet (store16 m (p + off_src_port) h) p =
     (read_udp_packet m p)\<lparr>pkt_udp := (pkt_udp (read_udp_packet m p))\<lparr>src_port := h\<rparr>\<rparr>"
  "read_udp_packet (store16 m (p + off_dst_port) h) p =
     (read_udp_packet m p)\<lparr>pkt_udp := (pkt_udp (read_udp_packet m p))\<lparr>dst_port := h\<rparr>\<rparr>"
  by (simp_all add: read_udp_packet_def mem_simps sep_def store_le_outside inside_def
      unsigned_minus_1_eq_mask mask_eq_exp_minus_1)

lemma load_byte_upd [mem_simps]:
  "sep p 1 q k \<Longrightarrow> k \<le> 2 ^ 64 \<Longrightarrow> load_le k (m(p := b)) q = load_le k m q"
  using load_store_sep[of p 1 q k m b] by simp

lemma load_bytes_upd [mem_simps]:
  "sep p 1 q k \<Longrightarrow> k \<le> 2 ^ 64 \<Longrightarrow> load_bytes (m(p := b)) q k = load_bytes m q k"
  using load_bytes_store_sep[of p 1 q k m b] by simp

lemma byte_field_simps [header_simps]:
  "read_udp_packet (m(p + off_version_ihl := b)) p =
     (read_udp_packet m p)\<lparr>pkt_ip := (pkt_ip (read_udp_packet m p))\<lparr>version_ihl := b\<rparr>\<rparr>"
  "read_udp_packet (m(p + off_type_of_service := b)) p =
     (read_udp_packet m p)\<lparr>pkt_ip := (pkt_ip (read_udp_packet m p))\<lparr>type_of_service := b\<rparr>\<rparr>"
  "read_udp_packet (m(p + off_time_to_live := b)) p =
     (read_udp_packet m p)\<lparr>pkt_ip := (pkt_ip (read_udp_packet m p))\<lparr>time_to_live := b\<rparr>\<rparr>"
  "read_udp_packet (m(p + off_next_proto_id := b)) p =
     (read_udp_packet m p)\<lparr>pkt_ip := (pkt_ip (read_udp_packet m p))\<lparr>next_proto_id := b\<rparr>\<rparr>"
  by (simp_all add: read_udp_packet_def mem_simps sep_def unsigned_minus_1_eq_mask mask_eq_exp_minus_1)

text \<open>Loads of fields, as selections.\<close>

lemma load_field_simps [header_simps]:
  "load16 m (p + off_total_length) = total_length (pkt_ip (read_udp_packet m p))"
  "load16 m (p + off_packet_id) = packet_id (pkt_ip (read_udp_packet m p))"
  "load32 m (p + off_ip_src) = ip_src_addr (pkt_ip (read_udp_packet m p))"
  "load32 m (p + off_ip_dst) = ip_dst_addr (pkt_ip (read_udp_packet m p))"
  "load16 m (p + off_src_port) = src_port (pkt_udp (read_udp_packet m p))"
  "load16 m (p + off_dst_port) = dst_port (pkt_udp (read_udp_packet m p))"
  "load16 m (p + off_dgram_len) = dgram_len (pkt_udp (read_udp_packet m p))"
  "m (p + off_version_ihl) = version_ihl (pkt_ip (read_udp_packet m p))"
  "m (p + off_type_of_service) = type_of_service (pkt_ip (read_udp_packet m p))"
  "m (p + off_time_to_live) = time_to_live (pkt_ip (read_udp_packet m p))"
  "m (p + off_next_proto_id) = next_proto_id (pkt_ip (read_udp_packet m p))"
  by (simp_all add: read_udp_packet_def)

text \<open>The Ethernet header, and the other fields of the two other headers.\<close>

lemma load_store_bytes_sep [mem_simps]:
  assumes "sep p (length bs) q k" "length bs \<le> 2 ^ 64" "k \<le> 2 ^ 64"
  shows "load_le k (store_bytes m p bs) q = load_le k m q"
  using assms by (intro load_le_cong) (simp add: store_bytes_apply sep_off)

lemma load_bytes_store_bytes_sep [mem_simps]:
  assumes "sep p (length bs) q k" "length bs \<le> 2 ^ 64" "k \<le> 2 ^ 64"
  shows "load_bytes (store_bytes m p bs) q k = load_bytes m q k"
  using assms by (intro load_bytes_cong) (simp add: store_bytes_apply sep_off)

lemma load_bytes_store_bytes_len [mem_simps]:
  "length bs = n \<Longrightarrow> n \<le> 2 ^ 64 \<Longrightarrow> load_bytes (store_bytes m p bs) p n = bs"
  using load_bytes_store_bytes by blast

lemma addr_field_simps [header_simps]:
  "length bs = 6 \<Longrightarrow> read_udp_packet (store_bytes m p bs) p =
     (read_udp_packet m p)\<lparr>pkt_eth := (pkt_eth (read_udp_packet m p))\<lparr>eth_dst_addr := bs\<rparr>\<rparr>"
  "length bs = 6 \<Longrightarrow> read_udp_packet (store_bytes m (p + off_eth_src) bs) p =
     (read_udp_packet m p)\<lparr>pkt_eth := (pkt_eth (read_udp_packet m p))\<lparr>eth_src_addr := bs\<rparr>\<rparr>"
  by (simp_all add: read_udp_packet_def mem_simps sep_def store_bytes_apply inside_def
      unsigned_minus_1_eq_mask mask_eq_exp_minus_1)

lemma store_field_simps2 [header_simps]:
  "read_udp_packet (store16 m (p + off_ether_type) h) p =
     (read_udp_packet m p)\<lparr>pkt_eth := (pkt_eth (read_udp_packet m p))\<lparr>ether_type := h\<rparr>\<rparr>"
  "read_udp_packet (store16 m (p + off_packet_id) h) p =
     (read_udp_packet m p)\<lparr>pkt_ip := (pkt_ip (read_udp_packet m p))\<lparr>packet_id := h\<rparr>\<rparr>"
  "read_udp_packet (store16 m (p + off_fragment_offset) h) p =
     (read_udp_packet m p)\<lparr>pkt_ip := (pkt_ip (read_udp_packet m p))\<lparr>fragment_offset := h\<rparr>\<rparr>"
  "read_udp_packet (store16 m (p + off_dgram_len) h) p =
     (read_udp_packet m p)\<lparr>pkt_udp := (pkt_udp (read_udp_packet m p))\<lparr>dgram_len := h\<rparr>\<rparr>"
  by (simp_all add: read_udp_packet_def mem_simps sep_def store_le_outside inside_def
      unsigned_minus_1_eq_mask mask_eq_exp_minus_1)

text \<open>What lies outside the 42 bytes does not matter.\<close>

lemma read_udp_packet_cong:
  assumes "\<And>i. i < 42 \<Longrightarrow> m (p + of_nat i) = m' (p + of_nat i)"
  shows "read_udp_packet m p = read_udp_packet m' p"
proof -
  have b: "m (p + of_nat k) = m' (p + of_nat k)" if "k < 42" for k using assms[OF that] .
  have a: "m (p + of_nat k + of_nat i) = m' (p + of_nat k + of_nat i)" if "k + i < 42" for k i
    using assms[OF that] by (simp add: add.assoc)
  have l: "load_le l m (p + of_nat k) = load_le l m' (p + of_nat k)" if "k + l \<le> 42" for k l
    using that by (intro load_le_cong a) simp
  have bs: "load_bytes m (p + of_nat k) l = load_bytes m' (p + of_nat k) l" if "k + l \<le> 42" for k l
    using that by (intro load_bytes_cong a) simp
  show ?thesis
    using b[of 14] b[of 15] b[of 22] b[of 23] bs[of 0 6] bs[of 6 6] l[of 12 2] l[of 16 2] l[of 18 2] l[of 20 2]
      l[of 24 2] l[of 26 4] l[of 30 4] l[of 34 2] l[of 36 2] l[of 38 2] l[of 40 2]
    by (simp add: read_udp_packet_def)
qed

end
