(* ===== verification/Rx_Loop.thy ===== *)
theory Rx_Loop
  imports Wrapper_Device
begin

text \<open>
  The receive loop that every DPA event handler runs:
  \<^verbatim>\<open>
    while (flexio_dev_cqe_get_owner(cqe) != cq_hw_owner_bit) {
        process the packet; step_rq(...); step_cq(...);
    }
  \<close>
  A program gives its loop body as a function \<open>iter\<close> on the thread's state and the program's
  own state, and a reader \<open>cqc\<close> of its completion-queue context.  \<open>iter\<close> returns \<open>None\<close> where the
  source has no defined result (an access outside an array, a loop that does not end).

  \<open>rx_drain\<close> is the inner loop run with memory left alone by others.  \<open>rx_step\<close> adds the
  network card, which may write any memory between two turns.  \<open>nic_step\<close> restricts the card
  to its side of the ownership protocol: it fills entry \<open>made mod 2^n\<close> with the owner bit of
  its epoch, and never overruns the ring.

  The locale \<open>receive_loop\<close> is the interface between the loop and a program: its laws are that
  one turn advances the completion queue by one entry and keeps doorbells after write-backs.
  Its lemmas are the properties that every program inherits by an interpretation.
\<close>

subsection \<open>The loop\<close>

partial_function (option) rx_drain ::
  "flexio \<Rightarrow> (dpa \<times> 'c \<Rightarrow> (dpa \<times> 'c) option) \<Rightarrow> ('c \<Rightarrow> cq_ctx_t) \<Rightarrow> dpa \<times> 'c \<Rightarrow> (dpa \<times> 'c) option" where
  "rx_drain fx iter cqc s =
     (if cqe_ready fx (mem (fst s)) (cqc (snd s))
      then Option.bind (iter s) (rx_drain fx iter cqc) else Some s)"

text \<open>How a handler ends: it exits, or it is in its polling loop.\<close>

datatype 'c outcome = Exited dpa 'c | Polling dpa 'c

inductive rx_step ::
  "flexio \<Rightarrow> (dpa \<times> 'c \<Rightarrow> (dpa \<times> 'c) option) \<Rightarrow> ('c \<Rightarrow> cq_ctx_t) \<Rightarrow> dpa \<times> 'c \<Rightarrow> dpa \<times> 'c \<Rightarrow> bool"
  for fx iter cqc where
  card: "rx_step fx iter cqc (d, c) (d\<lparr>mem := m\<rparr>, c)"
| turn: "cqe_ready fx (mem d) (cqc c) \<Longrightarrow> iter (d, c) = Some t \<Longrightarrow> rx_step fx iter cqc (d, c) t"

inductive_cases rx_stepE: "rx_step fx iter cqc s t"

text \<open>An invariant of the program's state that every turn keeps holds on every run.\<close>

lemma rx_reach_inv:
  assumes "(rx_step fx iter cqc)\<^sup>*\<^sup>* s t" "P (snd s)" "\<And>s t. iter s = Some t \<Longrightarrow> P (snd s) \<Longrightarrow> P (snd t)"
  shows "P (snd t)"
  using assms(1,2)
proof (induction rule: rtranclp_induct)
  case (step t u)
  from step(2) show ?case
  proof cases
    case (turn d c)
    with step assms(3)[of t u] show ?thesis by simp
  qed (use step in simp)
qed

text \<open>Runs with the number of turns taken.\<close>

inductive rx_run ::
  "flexio \<Rightarrow> (dpa \<times> 'c \<Rightarrow> (dpa \<times> 'c) option) \<Rightarrow> ('c \<Rightarrow> cq_ctx_t) \<Rightarrow> dpa \<times> 'c \<Rightarrow> nat \<Rightarrow> dpa \<times> 'c \<Rightarrow> bool"
  for fx iter cqc s where
  run_start: "rx_run fx iter cqc s 0 s"
| run_card: "rx_run fx iter cqc s n (d, c) \<Longrightarrow> rx_run fx iter cqc s n (d\<lparr>mem := m\<rparr>, c)"
| run_turn: "rx_run fx iter cqc s n (d, c) \<Longrightarrow> cqe_ready fx (mem d) (cqc c) \<Longrightarrow> iter (d, c) = Some t \<Longrightarrow>
     rx_run fx iter cqc s (Suc n) t"

lemma rx_run_inv:
  assumes "rx_run fx iter cqc s n t" "P 0 (snd s)"
    and "\<And>n s t. iter s = Some t \<Longrightarrow> P n (snd s) \<Longrightarrow> P (Suc n) (snd t)"
  shows "P n (snd t)"
  using assms(1)
proof induction
  case (run_turn n d c t)
  with assms(3)[of "(d, c)" t n] show ?case by simp
qed (use assms(2) in simp_all)

subsection \<open>The ownership protocol\<close>

text \<open>
  The owner bits of a ring of \<open>2^n\<close> entries into which the card has written \<open>made\<close> entries:
  entry \<open>s\<close> has been written \<open>(made + 2^n - 1 - s) div 2^n\<close> times, and each write flips its bit,
  which starts as 1.
\<close>

definition ring_holds :: "flexio \<Rightarrow> nat \<Rightarrow> ptr \<Rightarrow> memory \<Rightarrow> nat \<Rightarrow> bool" where
  "ring_holds fx n ring m made \<longleftrightarrow>
     (\<forall>s < 2 ^ n. cqe_get_owner fx m (ring + of_nat s * cqe_bsize fx) =
                    (if even ((made + 2 ^ n - 1 - s) div 2 ^ n) then 1 else 0))"

text \<open>
  A state of the protocol: entries produced, entries consumed, the thread and the program.
\<close>

inductive nic_step ::
  "flexio \<Rightarrow> nat \<Rightarrow> (dpa \<times> 'c \<Rightarrow> (dpa \<times> 'c) option) \<Rightarrow> ('c \<Rightarrow> cq_ctx_t) \<Rightarrow>
   nat \<times> nat \<times> dpa \<times> 'c \<Rightarrow> nat \<times> nat \<times> dpa \<times> 'c \<Rightarrow> bool"
  for fx n iter cqc where
  produce: "made < taken + 2 ^ n \<Longrightarrow> ring_holds fx n (cq_ring (cqc c)) m (Suc made) \<Longrightarrow>
     nic_step fx n iter cqc (made, taken, d, c) (Suc made, taken, d\<lparr>mem := m\<rparr>, c)"
| consume: "cqe_ready fx (mem d) (cqc c) \<Longrightarrow> iter (d, c) = Some (d', c') \<Longrightarrow>
     ring_holds fx n (cq_ring (cqc c)) (mem d') made \<Longrightarrow>
     nic_step fx n iter cqc (made, taken, d, c) (made, Suc taken, d', c')"

inductive_cases nic_stepE: "nic_step fx n iter cqc s t"

definition nic_inv :: "flexio \<Rightarrow> nat \<Rightarrow> ('c \<Rightarrow> cq_ctx_t) \<Rightarrow> nat \<times> nat \<times> dpa \<times> 'c \<Rightarrow> bool" where
  "nic_inv fx n cqc = (\<lambda>(made, taken, d, c).
     n \<le> 31 \<and> taken \<le> made \<and> made \<le> taken + 2 ^ n \<and> cq_inv fx n (cqc c) \<and>
     cq_idx (cqc c) = of_nat taken \<and> ring_holds fx n (cq_ring (cqc c)) (mem d) made)"

text \<open>The abstract queue: the numbers of the entries that are produced and not yet consumed.\<close>

definition pending :: "nat \<times> nat \<times> dpa \<times> 'c \<Rightarrow> nat list" where
  "pending = (\<lambda>(made, taken, d, c). [taken..<made])"

subsection \<open>Arithmetic of epochs\<close>

lemma writes_current:
  fixes taken made N :: nat
  assumes "0 < N" "taken \<le> made" "made \<le> taken + N"
  shows "(made + N - 1 - taken mod N) div N = taken div N + (if taken < made then 1 else 0)"
proof -
  define k where "k = made - taken"
  define q r where "q = taken div N" and "r = taken mod N"
  have t: "taken = q * N + r" "r < N" "k \<le> N" "made = taken + k"
    using assms by (simp_all add: q_def r_def k_def)
  then have "made + N - 1 - r = q * N + (N - 1 + k)" by simp
  then have "(made + N - 1 - r) div N = q + (N - 1 + k) div N"
    using assms(1) by (simp only: div_mult_self3)
  moreover have "(N - 1 + k) div N = (if 0 < k then 1 else 0)"
    using assms(1) t(3) by (auto intro!: div_nat_eqI)
  ultimately show ?thesis by (simp add: q_def r_def k_def)
qed

lemma div_mult_mod_exchange: "x mod (a * b) div a = x div a mod b" for x a b :: nat
  by (cases "a = 0") (simp_all add: mod_mult2_eq)

lemma even_div_mod_u32:
  "n \<le> 31 \<Longrightarrow> even (x mod 2 ^ 32 div 2 ^ n) = even (x div 2 ^ n)" for x :: nat
proof -
  assume "n \<le> 31"
  then have e: "(2::nat) ^ 32 = 2 ^ n * (2 * 2 ^ (31 - n))" by (simp flip: power_Suc power_add)
  have "x mod 2 ^ 32 div 2 ^ n = x div 2 ^ n mod (2 * 2 ^ (31 - n))"
    unfolding e by (rule div_mult_mod_exchange)
  then show ?thesis by (simp add: dvd_mod_iff)
qed

lemma unat_of_nat_mod_pow:
  "n \<le> 31 \<Longrightarrow> unat (of_nat k :: u32) mod 2 ^ n = k mod 2 ^ n"
proof -
  assume "n \<le> 31"
  then have "(2::nat) ^ n dvd 2 ^ 32" by (intro le_imp_power_dvd) simp
  then show ?thesis by (simp add: unat_of_nat mod_mod_cancel)
qed

text \<open>The owner test is exact: the current entry is ready iff something is pending.\<close>

lemma ready_iff_pending:
  assumes "nic_inv fx n cqc (made, taken, d, c)"
  shows "cqe_ready fx (mem d) (cqc c) \<longleftrightarrow> taken < made"
proof -
  let ?cq = "cqc c" and ?s = "taken mod 2 ^ n"
  from assms have inv: "n \<le> 31" "taken \<le> made" "made \<le> taken + 2 ^ n" "cq_inv fx n ?cq"
    "cq_idx ?cq = of_nat taken" "ring_holds fx n (cq_ring ?cq) (mem d) made"
    by (auto simp: nic_inv_def)
  have "unat (cq_idx ?cq AND ring_mask n) = ?s"
    using inv(1,5) by (simp add: unat_and_ring_mask unat_of_nat_mod_pow)
  then have "ucast (cq_idx ?cq AND ring_mask n) = (of_nat ?s :: u64)"
    by (metis of_nat_unat)
  then have "cqe ?cq = cq_ring ?cq + of_nat ?s * cqe_bsize fx"
    using inv(4) by (simp add: cq_inv_def)
  then have own: "cqe_get_owner fx (mem d) (cqe ?cq) =
      (if even ((made + 2 ^ n - 1 - ?s) div 2 ^ n) then 1 else 0)"
    using inv(6) by (simp add: ring_holds_def)
  have bit: "cq_hw_owner_bit ?cq = (if even (taken div 2 ^ n) then 1 else 0)"
    using inv(4,5) even_div_mod_u32[OF inv(1), of taken] by (simp add: cq_inv_def unat_of_nat)
  show ?thesis
    using own bit writes_current[of "2 ^ n" taken made] inv(2,3) by (simp add: cqe_ready_def)
qed


lemma next_cq_fields [simp]:
  "cq_idx (next_cq fx cq) = cq_idx cq + 1" "cq_ring (next_cq fx cq) = cq_ring cq"
  "cq_idx_mask (next_cq fx cq) = cq_idx_mask cq" "cq_number (next_cq fx cq) = cq_number cq"
  "cq_dbr (next_cq fx cq) = cq_dbr cq"
  by (simp_all add: next_cq_def step_cq_def Let_def)

subsection \<open>The interface of a program's receive loop\<close>

locale receive_loop =
  fixes iter :: "flexio \<Rightarrow> dpa \<times> 'c \<Rightarrow> (dpa \<times> 'c) option"
    and cqc :: "'c \<Rightarrow> cq_ctx_t"
  assumes iter_cq: "iter fx s = Some t \<Longrightarrow> cqc (snd t) = next_cq fx (cqc (snd s))"
    and iter_db: "iter fx s = Some t \<Longrightarrow> db_ordered (trace (fst s)) \<Longrightarrow> db_ordered (trace (fst t))"
begin

lemma step_cq_inv:
  assumes "rx_step fx (iter fx) cqc s t" "n \<le> 31" "cq_inv fx n (cqc (snd s))"
  shows "cq_inv fx n (cqc (snd t))"
  using assms by cases (auto dest: iter_cq simp: next_cq_inv)

lemma reach_cq_inv:
  assumes "(rx_step fx (iter fx) cqc)\<^sup>*\<^sup>* s t" "n \<le> 31" "cq_inv fx n (cqc (snd s))"
  shows "cq_inv fx n (cqc (snd t))"
  using assms by (induction rule: rtranclp_induct) (auto dest: step_cq_inv)

lemma reach_db:
  assumes "(rx_step fx (iter fx) cqc)\<^sup>*\<^sup>* s t" "db_ordered (trace (fst s))"
  shows "db_ordered (trace (fst t))"
  using assms by (induction rule: rtranclp_induct) (auto elim!: rx_stepE dest: iter_db)

lemma nic_step_inv:
  assumes "nic_step fx n (iter fx) cqc s t" "nic_inv fx n cqc s"
  shows "nic_inv fx n cqc t"
  using assms
proof cases
  case (produce made taken c m d)
  with assms(2) show ?thesis by (auto simp: nic_inv_def)
next
  case (consume d c d' c' made taken)
  have rdy: "taken < made" using ready_iff_pending[of fx n cqc made taken d c] assms(2) consume by simp
  have cq: "cqc c' = next_cq fx (cqc c)" using iter_cq[of fx "(d, c)" "(d', c')"] consume by simp
  show ?thesis
    using assms(2) consume rdy
    by (auto simp: nic_inv_def cq next_cq_inv next_cq_fields)
qed

lemma nic_reach_inv:
  assumes "(nic_step fx n (iter fx) cqc)\<^sup>*\<^sup>* s t" "nic_inv fx n cqc s"
  shows "nic_inv fx n cqc t"
  using assms by (induction rule: rtranclp_induct) (auto dest: nic_step_inv)

text \<open>Simulation: a step of the protocol is an append or a removal at the head of the queue.\<close>

lemma nic_step_queue:
  assumes "nic_step fx n (iter fx) cqc s t" "nic_inv fx n cqc s"
  shows "pending t = pending s @ [fst s] \<or> pending s = fst (snd s) # pending t"
  using assms
proof cases
  case (produce made taken c m d)
  with assms(2) show ?thesis by (auto simp: nic_inv_def pending_def)
next
  case (consume d c d' c' made taken)
  have "taken < made" using ready_iff_pending[of fx n cqc made taken d c] assms(2) consume by simp
  with consume show ?thesis by (simp add: pending_def upt_rec)
qed

text \<open>The inner loop returns, having consumed exactly what was pending.\<close>

lemma drain_returns:
  assumes "nic_inv fx n cqc (made, taken, d, c)"
    and "\<And>d c k. nic_inv fx n cqc (made, k, d, c) \<Longrightarrow> k < made \<Longrightarrow>
           \<exists>d' c'. iter fx (d, c) = Some (d', c') \<and> ring_holds fx n (cq_ring (cqc c)) (mem d') made"
  shows "\<exists>d' c'. rx_drain fx (iter fx) cqc (d, c) = Some (d', c') \<and> nic_inv fx n cqc (made, made, d', c')"
  using assms(1)
proof (induction "made - taken" arbitrary: taken d c)
  case 0
  then have "taken = made" by (auto simp: nic_inv_def)
  with 0 show ?case
    using ready_iff_pending[OF 0(2)] by (subst rx_drain.simps) auto
next
  case (Suc k)
  then have lt: "taken < made" by simp
  from assms(2)[OF Suc.prems lt] obtain d' c' where
    it: "iter fx (d, c) = Some (d', c')" and rh: "ring_holds fx n (cq_ring (cqc c)) (mem d') made"
    by blast
  have rdy: "cqe_ready fx (mem d) (cqc c)" using ready_iff_pending[OF Suc.prems] lt by simp
  have "nic_step fx n (iter fx) cqc (made, taken, d, c) (made, Suc taken, d', c')"
    using rdy it rh by (rule nic_step.consume)
  then have "nic_inv fx n cqc (made, Suc taken, d', c')"
    using Suc.prems by (rule nic_step_inv)
  from Suc.hyps(1)[OF _ this] Suc.hyps(2) show ?case
    using it rdy by (subst rx_drain.simps) simp
qed

end

subsection \<open>The interface of a program that answers some packets\<close>

text \<open>
  A program whose turn drops the packet, leaving the send queue alone, or answers it, using one
  send entry and ringing one doorbell with the next producer index.  \<open>tally k c\<close>: the program's
  own counters in context \<open>c\<close> are those of \<open>k\<close> answers.
\<close>

locale filtering_loop = receive_loop iter cqc
  for iter :: "flexio \<Rightarrow> dpa \<times> 'c \<Rightarrow> (dpa \<times> 'c) option" and cqc :: "'c \<Rightarrow> cq_ctx_t" +
  fixes sqc :: "'c \<Rightarrow> sq_ctx_t" and tally :: "nat \<Rightarrow> 'c \<Rightarrow> bool"
  assumes iter_filter: "iter fx s = Some t \<Longrightarrow>
      sqc (snd t) = sqc (snd s) \<and> doorbells (trace (fst t)) = doorbells (trace (fst s)) \<and>
        (\<forall>k. tally k (snd s) \<longrightarrow> tally k (snd t)) \<or>
      sqc (snd t) = sq_sent (sqc (snd s)) \<and>
        doorbells (trace (fst t)) = doorbells (trace (fst s)) @ [(sq_pi (sqc (snd s)) + 1, sq_number (sqc (snd s)))] \<and>
        (\<forall>k. tally k (snd s) \<longrightarrow> tally (Suc k) (snd t))"
begin

lemma reach_tally:
  assumes "(rx_step fx (iter fx) cqc)\<^sup>*\<^sup>* s t" "sq_balanced (sqc (snd s))" "tally 0 (snd s)"
  shows "\<exists>k. tally k (snd t) \<and> sq_balanced (sqc (snd t)) \<and> sq_pi (sqc (snd t)) = sq_pi (sqc (snd s)) + of_nat k \<and>
      sq_number (sqc (snd t)) = sq_number (sqc (snd s)) \<and>
      doorbells (trace (fst t)) = doorbells (trace (fst s)) @
        map (\<lambda>i. (sq_pi (sqc (snd s)) + of_nat (Suc i), sq_number (sqc (snd s)))) [0..<k]"
  using assms(1)
proof (induction rule: rtranclp_induct)
  case base
  with assms show ?case by (intro exI[of _ 0]) simp
next
  case (step t u)
  then obtain k where k: "tally k (snd t)" "sq_balanced (sqc (snd t))"
    "sq_pi (sqc (snd t)) = sq_pi (sqc (snd s)) + of_nat k" "sq_number (sqc (snd t)) = sq_number (sqc (snd s))"
    "doorbells (trace (fst t)) = doorbells (trace (fst s)) @
        map (\<lambda>i. (sq_pi (sqc (snd s)) + of_nat (Suc i), sq_number (sqc (snd s)))) [0..<k]" by blast
  from step(2) show ?case
  proof cases
    case (card d c m)
    with k show ?thesis by (intro exI[of _ k]) simp
  next
    case (turn d c)
    from iter_filter[OF turn(3)] show ?thesis
    proof
      assume "sqc (snd u) = sqc (snd (d, c)) \<and> doorbells (trace (fst u)) = doorbells (trace (fst (d, c))) \<and>
        (\<forall>k. tally k (snd (d, c)) \<longrightarrow> tally k (snd u))"
      with turn(1) k show ?thesis by (intro exI[of _ k]) simp
    next
      assume "sqc (snd u) = sq_sent (sqc (snd (d, c))) \<and> doorbells (trace (fst u)) = doorbells (trace (fst (d, c))) @
          [(sq_pi (sqc (snd (d, c))) + 1, sq_number (sqc (snd (d, c))))] \<and>
        (\<forall>k. tally k (snd (d, c)) \<longrightarrow> tally (Suc k) (snd u))"
      with turn(1) k sq_sent_balanced[of "sqc c"] show ?thesis by (intro exI[of _ "Suc k"]) simp
    qed
  qed
qed

end

subsection \<open>Runs with what each turn saw\<close>

text \<open>
  Runs that record, for each turn, what the program reads of the state at its beginning: \<open>see\<close> is
  for example the size of the packet that the turn takes.
\<close>

inductive rx_seen ::
  "flexio \<Rightarrow> (dpa \<times> 'c \<Rightarrow> (dpa \<times> 'c) option) \<Rightarrow> ('c \<Rightarrow> cq_ctx_t) \<Rightarrow> (dpa \<times> 'c \<Rightarrow> 'a) \<Rightarrow>
   dpa \<times> 'c \<Rightarrow> 'a list \<Rightarrow> dpa \<times> 'c \<Rightarrow> bool"
  for fx iter cqc see s where
  seen_start: "rx_seen fx iter cqc see s [] s"
| seen_card: "rx_seen fx iter cqc see s xs (d, c) \<Longrightarrow> rx_seen fx iter cqc see s xs (d\<lparr>mem := m\<rparr>, c)"
| seen_turn: "rx_seen fx iter cqc see s xs (d, c) \<Longrightarrow> cqe_ready fx (mem d) (cqc c) \<Longrightarrow> iter (d, c) = Some t \<Longrightarrow>
     rx_seen fx iter cqc see s (xs @ [see (d, c)]) t"

text \<open>These are the runs of the loop, no more and no fewer.\<close>

lemma rx_seen_reach: "rx_seen fx iter cqc see s xs t \<Longrightarrow> (rx_step fx iter cqc)\<^sup>*\<^sup>* s t"
  by (induction rule: rx_seen.induct) (auto intro: rtranclp.rtrancl_into_rtrancl rx_step.intros)

lemma reach_rx_seen: "(rx_step fx iter cqc)\<^sup>*\<^sup>* s t \<Longrightarrow> \<exists>xs. rx_seen fx iter cqc see s xs t"
  by (induction rule: rtranclp_induct) (auto elim!: rx_stepE intro: rx_seen.intros)

text \<open>
  A program that answers exactly the packets that are \<open>good\<close>, a property of the state at the beginning
  of the turn.
\<close>

locale selecting_loop = receive_loop iter cqc
  for iter :: "flexio \<Rightarrow> dpa \<times> 'c \<Rightarrow> (dpa \<times> 'c) option" and cqc :: "'c \<Rightarrow> cq_ctx_t" +
  fixes sqc :: "'c \<Rightarrow> sq_ctx_t" and tally :: "nat \<Rightarrow> 'c \<Rightarrow> bool" and good :: "flexio \<Rightarrow> dpa \<times> 'c \<Rightarrow> bool"
  assumes iter_drop: "iter fx s = Some t \<Longrightarrow> \<not> good fx s \<Longrightarrow>
      sqc (snd t) = sqc (snd s) \<and> doorbells (trace (fst t)) = doorbells (trace (fst s)) \<and>
        (\<forall>k. tally k (snd s) \<longrightarrow> tally k (snd t))"
    and iter_answer: "iter fx s = Some t \<Longrightarrow> good fx s \<Longrightarrow>
      sqc (snd t) = sq_sent (sqc (snd s)) \<and>
        doorbells (trace (fst t)) = doorbells (trace (fst s)) @ [(sq_pi (sqc (snd s)) + 1, sq_number (sqc (snd s)))] \<and>
        (\<forall>k. tally k (snd s) \<longrightarrow> tally (Suc k) (snd t))"

sublocale selecting_loop \<subseteq> selects: filtering_loop iter cqc sqc tally
  by unfold_locales (use iter_drop iter_answer in blast)

context selecting_loop
begin

lemma seen_tally:
  assumes "rx_seen fx (iter fx) cqc see s xs t" "\<And>u. good fx u = P (see u)"
    and "sq_balanced (sqc (snd s))" "tally 0 (snd s)"
  shows "tally (length (filter P xs)) (snd t) \<and> sq_balanced (sqc (snd t)) \<and>
      cq_idx (cqc (snd t)) = cq_idx (cqc (snd s)) + of_nat (length xs) \<and>
      sq_pi (sqc (snd t)) = sq_pi (sqc (snd s)) + of_nat (length (filter P xs)) \<and>
      sq_number (sqc (snd t)) = sq_number (sqc (snd s)) \<and>
      doorbells (trace (fst t)) = doorbells (trace (fst s)) @
        map (\<lambda>i. (sq_pi (sqc (snd s)) + of_nat (Suc i), sq_number (sqc (snd s)))) [0..<length (filter P xs)]"
  using assms(1)
proof induction
  case (seen_turn xs d c t)
  have cq: "cqc (snd t) = next_cq fx (cqc c)" using iter_cq[OF seen_turn.hyps(3)] by simp
  show ?case
  proof (cases "good fx (d, c)")
    case True
    with seen_turn iter_answer[OF seen_turn.hyps(3) True] sq_sent_balanced[of "sqc c"] show ?thesis
      by (simp add: cq flip: assms(2))
  next
    case False
    with seen_turn iter_drop[OF seen_turn.hyps(3) False] show ?thesis by (simp add: cq flip: assms(2))
  qed
qed (use assms(3,4) in simp_all)

end

subsection \<open>The interface of a program that answers every packet\<close>

text \<open>
  \<open>rx_started\<close>: the queues as initialisation leaves them.  \<open>answered\<close>: the completion queue
  satisfies its invariant, and each of the \<open>k\<close> packets taken so far has used one send entry and
  rung one doorbell, after a write-back, with consecutive producer indices.
\<close>

definition rx_started :: "flexio \<Rightarrow> nat \<Rightarrow> cq_ctx_t \<Rightarrow> sq_ctx_t \<Rightarrow> dpa \<Rightarrow> bool" where
  "rx_started fx n cq sq d \<longleftrightarrow>
     cq_inv fx n cq \<and> cq_idx cq = 0 \<and> sq_wqe_seg_idx sq = 0 \<and> sq_pi sq = 0 \<and>
     db_ordered (trace d) \<and> doorbells (trace d) = []"

definition answered :: "flexio \<Rightarrow> nat \<Rightarrow> cq_ctx_t \<Rightarrow> sq_ctx_t \<Rightarrow> dpa \<Rightarrow> bool" where
  "answered fx n cq sq d \<longleftrightarrow>
     cq_inv fx n cq \<and> sq_balanced sq \<and> db_ordered (trace d) \<and>
     (\<exists>k. cq_idx cq = of_nat k \<and> sq_pi sq = of_nat k \<and>
          doorbells (trace d) = map (\<lambda>i. (of_nat (Suc i), sq_number sq)) [0..<k])"

text \<open>
  A program that sends one packet for each it receives: one turn uses one send entry and
  rings one doorbell, with the next producer index.
\<close>

locale reflecting_loop = receive_loop iter cqc
  for iter :: "flexio \<Rightarrow> dpa \<times> 'c \<Rightarrow> (dpa \<times> 'c) option" and cqc :: "'c \<Rightarrow> cq_ctx_t" +
  fixes sqc :: "'c \<Rightarrow> sq_ctx_t"
  assumes iter_sq: "iter fx s = Some t \<Longrightarrow> sqc (snd t) = sq_sent (sqc (snd s))"
    and iter_bell: "iter fx s = Some t \<Longrightarrow> doorbells (trace (fst t)) =
          doorbells (trace (fst s)) @ [(sq_pi (sqc (snd s)) + 1, sq_number (sqc (snd s)))]"

sublocale reflecting_loop \<subseteq> filtering: filtering_loop iter cqc sqc "\<lambda>_ _. True"
  by unfold_locales (simp add: iter_sq iter_bell)

context reflecting_loop
begin

text \<open>However the card and the handler interleave, the \<open>k\<close> packets taken from the completion
  queue are announced by \<open>k\<close> doorbells with consecutive indices.\<close>

lemma reach_bells:
  assumes "(rx_step fx (iter fx) cqc)\<^sup>*\<^sup>* s t"
  shows "\<exists>k. cq_idx (cqc (snd t)) = cq_idx (cqc (snd s)) + of_nat k \<and>
      sq_pi (sqc (snd t)) = sq_pi (sqc (snd s)) + of_nat k \<and>
      sq_number (sqc (snd t)) = sq_number (sqc (snd s)) \<and>
      doorbells (trace (fst t)) = doorbells (trace (fst s)) @
        map (\<lambda>i. (sq_pi (sqc (snd s)) + of_nat (Suc i), sq_number (sqc (snd s)))) [0..<k]"
  using assms
proof (induction rule: rtranclp_induct)
  case base
  show ?case by (intro exI[of _ 0]) simp
next
  case (step t u)
  then obtain k where k: "cq_idx (cqc (snd t)) = cq_idx (cqc (snd s)) + of_nat k"
    "sq_pi (sqc (snd t)) = sq_pi (sqc (snd s)) + of_nat k"
    "sq_number (sqc (snd t)) = sq_number (sqc (snd s))"
    "doorbells (trace (fst t)) = doorbells (trace (fst s)) @
        map (\<lambda>i. (sq_pi (sqc (snd s)) + of_nat (Suc i), sq_number (sqc (snd s)))) [0..<k]" by blast
  from step(2) show ?case
  proof cases
    case (card d c m)
    with k show ?thesis by (intro exI[of _ k]) simp
  next
    case (turn d c)
    have "cqc (snd u) = next_cq fx (cqc c)" "sqc (snd u) = sq_sent (sqc c)"
      "doorbells (trace (fst u)) = doorbells (trace d) @ [(sq_pi (sqc c) + 1, sq_number (sqc c))]"
      using iter_cq[of fx "(d, c)" u] iter_sq[of fx "(d, c)" u] iter_bell[of fx "(d, c)" u] turn by simp_all
    with turn(1) k show ?thesis by (intro exI[of _ "Suc k"]) simp
  qed
qed

lemma reach_answered:
  assumes "(rx_step fx (iter fx) cqc)\<^sup>*\<^sup>* (d, c) (d', c')" "n \<le> 31" "rx_started fx n (cqc c) (sqc c) d"
  shows "answered fx n (cqc c') (sqc c') d'"
  using reach_cq_inv[OF assms(1,2)] reach_db[OF assms(1)] filtering.reach_tally[OF assms(1)] reach_bells[OF assms(1)] assms(3)
  by (auto simp: answered_def rx_started_def sq_balanced_def)

end

subsection \<open>Several threads\<close>

text \<open>
  Threads share the memory and have their own contexts, traces and counters.  A step is a
  write of the card or one turn of one thread's loop.  What a thread sees of a run is a run of
  its own loop in which the others' writes count as the card's.
\<close>

definition view :: "nat \<Rightarrow> memory \<times> (dpa \<times> 'c) list \<Rightarrow> dpa \<times> 'c" where
  "view i = (\<lambda>(m, ts). ((fst (ts ! i))\<lparr>mem := m\<rparr>, snd (ts ! i)))"

inductive mt_step ::
  "flexio \<Rightarrow> (nat \<Rightarrow> dpa \<times> 'c \<Rightarrow> (dpa \<times> 'c) option) \<Rightarrow> ('c \<Rightarrow> cq_ctx_t) \<Rightarrow>
   memory \<times> (dpa \<times> 'c) list \<Rightarrow> memory \<times> (dpa \<times> 'c) list \<Rightarrow> bool"
  for fx iters cqc where
  mt_card: "mt_step fx iters cqc (m, ts) (m', ts)"
| mt_turn: "i < length ts \<Longrightarrow> cqe_ready fx m (cqc (snd (ts ! i))) \<Longrightarrow> iters i (view i (m, ts)) = Some (d, c) \<Longrightarrow>
     mt_step fx iters cqc (m, ts) (mem d, ts[i := (d, c)])"

lemma mt_step_view:
  assumes "mt_step fx iters cqc s t" "j < length (snd s)"
  shows "rx_step fx (iters j) cqc (view j s) (view j t) \<and> length (snd t) = length (snd s)"
  using assms(1)
proof cases
  case (mt_card m ts m')
  have "rx_step fx (iters j) cqc (view j (m, ts)) ((fst (view j (m, ts)))\<lparr>mem := m'\<rparr>, snd (view j (m, ts)))"
    using rx_step.card[of fx "iters j" cqc "fst (view j (m, ts))" "snd (view j (m, ts))" m'] by simp
  with mt_card show ?thesis by (simp add: view_def)
next
  case (mt_turn i ts m d c)
  show ?thesis
  proof (cases "i = j")
    case True
    have "rx_step fx (iters j) cqc (fst (view j (m, ts)), snd (view j (m, ts))) (d, c)"
      using mt_turn True by (intro rx_step.turn) (simp_all add: view_def)
    moreover have "view j t = (d, c)" using mt_turn True by (simp add: view_def)
    ultimately show ?thesis using mt_turn by simp
  next
    case False
    have "rx_step fx (iters j) cqc (view j (m, ts)) ((fst (view j (m, ts)))\<lparr>mem := mem d\<rparr>, snd (view j (m, ts)))"
      using rx_step.card[of fx "iters j" cqc "fst (view j (m, ts))" "snd (view j (m, ts))" "mem d"] by simp
    with mt_turn False show ?thesis by (simp add: view_def)
  qed
qed

lemma mt_reach_view:
  assumes "(mt_step fx iters cqc)\<^sup>*\<^sup>* s t" "j < length (snd s)"
  shows "(rx_step fx (iters j) cqc)\<^sup>*\<^sup>* (view j s) (view j t) \<and> length (snd t) = length (snd s)"
  using assms
proof (induction rule: rtranclp_induct)
  case (step t u)
  then have "rx_step fx (iters j) cqc (view j t) (view j u) \<and> length (snd u) = length (snd t)"
    by (intro mt_step_view) simp_all
  with step show ?case by (auto intro: rtranclp.rtrancl_into_rtrancl)
qed simp

end
