(* ===== verification/Sample_Device.thy ===== *)
theory Sample_Device
  imports Packet_Headers Rx_Loop
begin

text \<open>
  A concrete device library, with the entry layouts of a ConnectX card (64-byte completion
  entries with the owner bit in the last byte, 16-byte receive entries and send segments, all
  in big-endian order).  Theorems hold for every \<open>flexio\<close>; this value is what the concrete
  instances of them are evaluated on.
\<close>

definition bswap16 :: "u16 \<Rightarrow> u16" where
  "bswap16 w = push_bit 8 w OR drop_bit 8 w"

definition bswap32 :: "u32 \<Rightarrow> u32" where
  "bswap32 w = push_bit 24 w OR (push_bit 8 w AND 0xff0000) OR (drop_bit 8 w AND 0xff00) OR drop_bit 24 w"

definition bswap64 :: "u64 \<Rightarrow> u64" where
  "bswap64 w = push_bit 32 (ucast (bswap32 (ucast w))) OR ucast (bswap32 (ucast (drop_bit 32 w)))"

definition sample_fx :: flexio where
  "sample_fx =
     \<lparr>cqe_bsize = 64, rwqe_bsize = 16, sqe_seg_bsize = 16, log_sqe_num_segs = 2,
      cqe_get_wqe_counter = (\<lambda>m p. ucast (bswap16 (load16 m (p + 60)))),
      cqe_get_byte_cnt = (\<lambda>m p. bswap32 (load32 m (p + 44))),
      cqe_get_owner = (\<lambda>m p. m (p + 63) AND 1),
      rwqe_get_addr = (\<lambda>m p. bswap64 (load64 m (p + 8))),
      swqe_seg_ctrl_set = (\<lambda>p i qn m. store32 (store32 m p (bswap32 (push_bit 8 i OR 10))) (p + 4) (bswap32 (push_bit 8 qn OR 4))),
      swqe_seg_eth_set = (\<lambda>p m. store64 (store64 m p 0) (p + 8) 0),
      swqe_seg_mem_ptr_data_set = (\<lambda>p sz key a m. store64 (store32 (store32 m p (bswap32 sz)) (p + 4) (bswap32 key)) (p + 8) (bswap64 a)),
      send_data_byte_count_off = 0, send_data_addr_off = 8,
      dbr_rq_inc_pi = (\<lambda>p m. store32 m p (bswap32 (bswap32 (load32 m p) + 1))),
      dbr_cq_set_ci = (\<lambda>p ci m. store32 m p (bswap32 (ci AND 0xffffff))),
      cpu_to_be16 = bswap16, cpu_to_be32 = bswap32, cpu_to_be64 = bswap64,
      get_thread_ctx = (0, 0x1000),
      window_config_ok = (\<lambda>tr w k. True),
      window_ptr_acquire = (\<lambda>tr a. (True, a + 0x8000000000)),
      window_copy_to_host = (\<lambda>tr a bs m. m),
      thread_cycles = (\<lambda>n. 25 * of_nat n), thread_inst_ret = (\<lambda>n. 10 * of_nat n)\<rparr>"

text \<open>
  A memory in which every completion entry is still owned by the card, except that the card
  has written the first: a 64-byte packet that arrived in receive entry 0, which points at
  address \<open>0x3000\<close>.  The completion ring is at \<open>0x10000\<close>, the receive ring at \<open>0x20000\<close>.
\<close>

definition sample_mem :: memory where
  "sample_mem a =
     (if a = 0x1003f then 0 else if a = 0x1002f then 64 else if a = 0x2000e then 0x30
      else if 0x10000 \<le> a \<and> a < 0x12000 then (if a AND 63 = 63 then 1 else 0)
      else if 0x3000 \<le> a \<and> a < 0x3040 then ucast a else 0)"

definition sample_dpa :: dpa where
  "sample_dpa = \<lparr>mem = sample_mem, trace = [], clk = 0\<rparr>"

definition sample_qcd :: queue_config_data where
  "sample_qcd =
     \<lparr>rq_cq_data = \<lparr>cq_num = 3, log_cq_depth = 7, cq_ring_daddr = 0x10000, cq_dbr_daddr = 0x4000\<rparr>,
      rq_data = \<lparr>wq_num = 4, wqd_mkey_id = 9, wq_ring_daddr = 0x20000, wq_dbr_daddr = 0x4010,
                 wqd_daddr = 0x3000, daddr_on_host = 0\<rparr>,
      sq_cq_data = \<lparr>cq_num = 5, log_cq_depth = 7, cq_ring_daddr = 0x14000, cq_dbr_daddr = 0x4020\<rparr>,
      sq_data = \<lparr>wq_num = 6, wqd_mkey_id = 9, wq_ring_daddr = 0x28000, wq_dbr_daddr = 0x4030,
                 wqd_daddr = 0x50000, daddr_on_host = 0\<rparr>,
      thread_index = 0, new_buffer_addr = 0, new_buffer_mkey_id = 0\<rparr>"

lemma sample_ready:
  "cqe cq = 0x10000 \<Longrightarrow> cq_hw_owner_bit cq = 1 \<Longrightarrow> cqe_ready sample_fx sample_mem cq"
  by (simp add: cqe_ready_def sample_fx_def sample_mem_def)

text \<open>One turn of a loop once the card has put the packet into memory.\<close>

lemma sample_reach:
  assumes "cqe (cqc c) = 0x10000" "cq_hw_owner_bit (cqc c) = 1" "iter (d\<lparr>mem := sample_mem\<rparr>, c) = Some t"
  shows "(rx_step sample_fx iter cqc)\<^sup>*\<^sup>* (d, c) t"
proof -
  have "rx_step sample_fx iter cqc (d, c) (d\<lparr>mem := sample_mem\<rparr>, c)" by (rule card)
  moreover have "rx_step sample_fx iter cqc (d\<lparr>mem := sample_mem\<rparr>, c) t"
    using assms sample_ready[of "cqc c"] by (intro turn) simp_all
  ultimately show ?thesis by (meson rtranclp.rtrancl_into_rtrancl rtranclp.rtrancl_refl)
qed

text \<open>The received frame.\<close>

lemma sample_receive:
  assumes "cqe cq = 0x10000" "rq_ring rq = 0x20000"
  shows "receive_packet sample_fx sample_mem cq rq = (0x3000, 64)"
  by (simp add: receive_packet_def sample_fx_def assms eval_simps sample_mem_def
      bswap16_def bswap32_def bswap64_def Let_def)

lemma sample_fx_simps [simp]:
  "cqe_bsize sample_fx = 64" "rwqe_bsize sample_fx = 16" "sqe_seg_bsize sample_fx = 16"
  "log_sqe_num_segs sample_fx = 2" "send_data_byte_count_off sample_fx = 0" "send_data_addr_off sample_fx = 8"
  "cpu_to_be16 sample_fx = bswap16" "cpu_to_be32 sample_fx = bswap32" "cpu_to_be64 sample_fx = bswap64"
  "get_thread_ctx sample_fx = (0, 0x1000)" "thread_cycles sample_fx n = 25 * of_nat n"
  "thread_inst_ret sample_fx n = 10 * of_nat n"
  "window_config_ok sample_fx tr w k" "window_ptr_acquire sample_fx tr a = (True, a + 0x8000000000)"
  "window_copy_to_host sample_fx tr a bs m = m"
  by (simp_all add: sample_fx_def)

lemma sample_dpa_simps [simp]: "mem sample_dpa = sample_mem" "trace sample_dpa = []" "clk sample_dpa = 0"
  by (simp_all add: sample_dpa_def)

text \<open>The queues that any program initialises from the sample configuration.\<close>

lemma sample_queues [simp]:
  "receive_packet sample_fx sample_mem (init_cq_at n (rq_cq_data sample_qcd) cq) (init_rq_at k (rq_data sample_qcd) rq) = (0x3000, 64)"
  "cqe (init_cq_at n (rq_cq_data sample_qcd) cq) = 0x10000"
  "cq_hw_owner_bit (init_cq_at n (rq_cq_data sample_qcd) cq) = 1"
  "fst (get_next_data_sqe sample_fx (init_sq_at sample_fx 7 (sq_data sample_qcd) sq)) = 0x28020"
  by (simp_all add: sample_receive init_cq_at_def init_rq_at_def init_sq_at_def sample_qcd_def
      get_next_data_sqe_def ring_mask_def)

lemma sample_data_seg_sep [simp]:
  "data_seg_sep sample_fx 0x28020 0x3000 64" "data_seg_sep sample_fx 0x28020 0x8003000 64"
  by (simp_all add: data_seg_sep_def sep_def)

lemma sample_wq_nums [simp]:
  "wq_num (sq_data sample_qcd) = 6" "daddr_on_host (rq_data sample_qcd) = 0" "daddr_on_host (sq_data sample_qcd) = 0"
  "wqd_mkey_id (sq_data sample_qcd) = 9" "wq_ring_daddr (sq_data sample_qcd) = 0x28000"
  by (simp_all add: sample_qcd_def)

lemma sample_dbr_local [simp]: "dbr_local sample_fx"
  by (simp add: dbr_local_def sample_fx_def store_le_outside)

text \<open>
  The same library with owner bits that depend on the entry's address only: entry 0 of the
  completion ring is ready, no other is.
\<close>

definition one_shot_fx :: flexio where
  "one_shot_fx = sample_fx\<lparr>cqe_get_owner := \<lambda>m p. of_bool (p \<noteq> 0x10000)\<rparr>"

lemma one_shot_ready [simp]:
  "cqe_ready one_shot_fx m cq \<longleftrightarrow> of_bool (cqe cq \<noteq> 0x10000) \<noteq> cq_hw_owner_bit cq"
  by (simp add: cqe_ready_def one_shot_fx_def)

lemma one_shot_fields [simp]:
  "receive_packet one_shot_fx = receive_packet sample_fx" "cqe_bsize one_shot_fx = 64"
  "get_thread_ctx one_shot_fx = (0, 0x1000)" "send_data_byte_count_off one_shot_fx = 0" "send_data_addr_off one_shot_fx = 8"
  "get_next_data_sqe one_shot_fx = get_next_data_sqe sample_fx" "data_seg_sep one_shot_fx = data_seg_sep sample_fx"
  by (auto simp: one_shot_fx_def fun_eq_iff receive_packet_def get_next_data_sqe_def data_seg_sep_def)

lemma one_shot_dbr_local [simp]: "dbr_local one_shot_fx"
  using sample_dbr_local by (simp add: dbr_local_def one_shot_fx_def)

end
