(* ===== verification/Wrapper_Properties.thy ===== *)
theory Wrapper_Properties
  imports Sample_Device
begin

text \<open>
  Properties of the device wrapper by itself: the completion queue's owner bit, the ownership
  protocol between the card and the receive loop, send buffers, window addresses, the send
  ring and the timer.
\<close>

subsection \<open>Completion queue\<close>

text \<open>
  C27: \<open>step_cq\<close> keeps a completion queue of depth \<open>2^n\<close> consistent: the entry pointer is the one
  the index names, and the owner bit is the parity of the number of times the ring has been
  passed, for every value of the 32-bit index, its wrap from \<open>2^32 - 1\<close> to 0 included.
\<close>

theorem step_cq_owner_bit:
  assumes "n \<le> 31" "cq_inv fx n cq" "step_cq fx cq d = (d', cq')"
  shows "cq_inv fx n cq' \<and> cq_idx cq' = cq_idx cq + 1 \<and>
         unat (cq_idx cq' AND cq_idx_mask cq') < 2 ^ n \<and>
         mem d' = dbr_cq_set_ci fx (cq_dbr cq) (cq_idx cq') (mem d)"
proof -
  have cq: "cq' = next_cq fx cq" using assms(3) snd_step_cq[of fx cq d] by simp
  have "cq_idx_mask cq' = ring_mask n" using assms(2) cq by (simp add: cq_inv_def)
  then have "unat (cq_idx cq' AND cq_idx_mask cq') < 2 ^ n" by (simp add: ring_mask_bound)
  moreover have "mem d' = dbr_cq_set_ci fx (cq_dbr cq) (cq_idx cq + 1) (mem d)"
    using assms(3) by (auto simp: step_cq_def Let_def)
  ultimately show ?thesis using next_cq_inv[OF assms(1,2)] cq by simp
qed

text \<open>At the last index before the wrap.\<close>

theorem step_cq_owner_bit_witness:
  "let cq = \<lparr>cq_number = 3, cq_ring = 0x10000, cqe = 0x11fc0, cq_idx = 0xffffffff,
             cq_hw_owner_bit = 0, cq_dbr = 0x4000, cq_idx_mask = 127\<rparr>;
       cq' = snd (step_cq sample_fx cq sample_dpa)
   in cq_inv sample_fx 7 cq \<and> cq_inv sample_fx 7 cq' \<and> cq_idx cq' = 0 \<and> cq_hw_owner_bit cq' = 1"
proof -
  let ?cq = "\<lparr>cq_number = 3, cq_ring = 0x10000, cqe = 0x11fc0, cq_idx = 0xffffffff,
             cq_hw_owner_bit = 0, cq_dbr = 0x4000, cq_idx_mask = 127\<rparr>"
  have i: "cq_inv sample_fx 7 ?cq" by (simp add: cq_inv_def ring_mask_def)
  have n: "(7::nat) \<le> 31" by simp
  show ?thesis
    using step_cq_owner_bit[OF n i surjective_pairing, of sample_dpa] i
    by (simp add: Let_def step_cq_def)
qed

text \<open>
  C4: the owner test is exact.  With the card and the loop on their sides of the ownership
  protocol, the loop's condition holds iff the card has produced an entry that the loop has
  not consumed: no entry is seen before it is written, and none is missed.
\<close>

theorem owner_test_exact:
  assumes "nic_inv fx n cqc (made, taken, d, c)"
  shows "cqe_ready fx (mem d) (cqc c) \<longleftrightarrow> pending (made, taken, d, c) \<noteq> []"
  using ready_iff_pending[OF assms] by (auto simp: pending_def)

theorem owner_test_exact_witness:
  "let cq = init_cq_at 1 (rq_cq_data sample_qcd) cq_zero in
   nic_inv sample_fx 1 id (1, 0, sample_dpa, cq) \<and> cqe_ready sample_fx sample_mem cq \<and>
   pending (1, 0, sample_dpa, cq) = [0]"
proof -
  let ?cq = "init_cq_at 1 (rq_cq_data sample_qcd) cq_zero"
  have "ring_holds sample_fx 1 0x10000 sample_mem 1"
    by (auto simp: ring_holds_def sample_mem_def sample_fx_def less_2_cases_iff)
  then have i: "nic_inv sample_fx 1 id (1, 0, sample_dpa, ?cq)"
    by (simp add: nic_inv_def init_cq_at_inv) (simp add: sample_qcd_def)
  have p: "pending (1, 0, sample_dpa, ?cq) = [0]" by (simp add: pending_def)
  show ?thesis using owner_test_exact[OF i] i unfolding Let_def p by simp
qed

subsection \<open>Send buffers, windows, timer\<close>

text \<open>
  C28: successive send buffers.  The \<open>k\<close>-th buffer is entry \<open>k mod 2^n\<close> of the data area: it starts
  on an entry boundary, lies inside the area, and the index advances by one.
\<close>

theorem send_buf_in_area:
  assumes "data_idx_mask dt = ring_mask n" "n + l \<le> 32" "get_next_send_buf dt l = (p, dt')"
  shows "unat (p - sq_tx_buff dt) = (unat (tx_buff_idx dt) mod 2 ^ n) * 2 ^ l \<and>
         unat (p - sq_tx_buff dt) + 2 ^ l \<le> 2 ^ n * 2 ^ l \<and>
         dt' = dt\<lparr>tx_buff_idx := tx_buff_idx dt + 1\<rparr>"
proof -
  let ?i = "unat (tx_buff_idx dt) mod 2 ^ n"
  have p: "p - sq_tx_buff dt = of_nat (?i * 2 ^ l)"
    using get_next_send_buf_addr[OF assms(1,2)] assms(3) by simp
  have "Suc ?i * 2 ^ l \<le> 2 ^ n * 2 ^ l" by (intro mult_right_mono) (simp_all add: Suc_leI)
  moreover have "(2::nat) ^ n * 2 ^ l \<le> 2 ^ 32"
    using power_increasing[OF assms(2), of "2::nat"] by (simp add: power_add)
  moreover have "?i * 2 ^ l + 2 ^ l = Suc ?i * 2 ^ l" "(0::nat) < 2 ^ l" by simp_all
  ultimately have b: "?i * 2 ^ l + 2 ^ l \<le> 2 ^ n * 2 ^ l" "?i * 2 ^ l < 2 ^ 32" by linarith+
  then have "unat (p - sq_tx_buff dt) = ?i * 2 ^ l"
    unfolding p by (simp only: unat_of_nat) (simp add: take_bit_nat_eq_self)
  with b assms(3) show ?thesis by (auto simp: get_next_send_buf_def Let_def)
qed

theorem send_buf_in_area_witness:
  "let dt = \<lparr>sq_tx_buff = 0x50000, tx_buff_idx = 129, data_idx_mask = 127\<rparr> in
   data_idx_mask dt = ring_mask 7 \<and> unat (fst (get_next_send_buf dt 10) - 0x50000) = 1024"
  using send_buf_in_area[of "\<lparr>sq_tx_buff = 0x50000, tx_buff_idx = 129, data_idx_mask = 127\<rparr>" 7 10,
      OF _ _ surjective_pairing]
  by (simp add: ring_mask_def)

text \<open>
  window addresses.  \<open>receive_packet_host\<close> returns, for a buffer that lies at some offset in
  the host's receive area, the address at the same offset in the window.
\<close>

lemma receive_host_offset:
  assumes "receive_packet fx m cq rq = (host_rx_buff h + off, len)"
  shows "receive_packet_host fx m cq rq h = (dpa_rx_buff h + off, len)"
  using assms by (simp add: receive_packet_host_eq host_rq_addr_off)

text \<open>
  the timer benchmark.  Where the two counter reads of a round are not separated by a
  counter wrap the round counts exactly; each round with a wrap counts one cycle too few:
  the result is the sum of the true 32-bit differences minus the number of such rounds.
\<close>

lemma timer_benchmark_total:
  "fst (timer_benchmark fx (int n) d) =
     (\<Sum>i<n. elapsed32 (thread_cycles fx (clk d + 2 * i)) (thread_cycles fx (clk d + 2 * i + 1))) -
     of_nat (\<Sum>i<n. of_bool (\<not> thread_cycles fx (clk d + 2 * i) < thread_cycles fx (clk d + 2 * i + 1)))"
  using timer_benchmark_loop_exact[of fx n "(0, 0)" d] timer_benchmark_loop_wraps[of fx n "(0, 0)" d]
  by (auto simp: timer_benchmark_def case_prod_beta eq_diff_eq)

end
