(* ===== verification/Refactor.thy ===== *)
theory Refactor
  imports Sample_Device
begin

text \<open>
  The reflector \<open>flexio/dpa_refactor/device/dpa_refactor_device.c\<close>: each received frame is sent
  back from the buffer it arrived in, with its Ethernet addresses exchanged.  The buffers are
  in DPA memory or in host memory seen through a window.
\<close>

subsection \<open>Context and initialisation\<close>

abbreviation LOG_SQ_RING_DEPTH_refactor :: nat where "LOG_SQ_RING_DEPTH_refactor \<equiv> 7"
abbreviation LOG_RQ_RING_DEPTH_refactor :: nat where "LOG_RQ_RING_DEPTH_refactor \<equiv> 7"
abbreviation LOG_CQ_RING_DEPTH_refactor :: nat where "LOG_CQ_RING_DEPTH_refactor \<equiv> 7"

record refactor_ctx = dev_base +
  lkey :: u32
  host_rq_ctx :: host_rq_ctx_t
  packets_count :: u32
  rq_on_host :: u8
  sq_on_host :: u8

definition dev_ctx_refactor :: refactor_ctx where
  "dev_ctx_refactor =
     \<lparr>is_initalized = 0, rqcq_ctx = cq_zero, sqcq_ctx = cq_zero, rq_ctx = rq_zero, sq_ctx = sq_zero, dt_ctx = dt_zero,
      lkey = 0, host_rq_ctx = host_rq_zero, packets_count = 0, rq_on_host = 0, sq_on_host = 0\<rparr>"

definition init_cq_refactor :: "app_transfer_cq \<Rightarrow> cq_ctx_t \<Rightarrow> cq_ctx_t" where
  "init_cq_refactor = init_cq_at LOG_CQ_RING_DEPTH_refactor"

definition init_rq_refactor :: "app_transfer_wq \<Rightarrow> rq_ctx_t \<Rightarrow> rq_ctx_t" where
  "init_rq_refactor = init_rq_at LOG_RQ_RING_DEPTH_refactor"

definition init_sq_refactor :: "flexio \<Rightarrow> app_transfer_wq \<Rightarrow> sq_ctx_t \<Rightarrow> sq_ctx_t" where
  "init_sq_refactor fx = init_sq_at fx LOG_SQ_RING_DEPTH_refactor"

definition dpa_refactor_device_init ::
  "flexio \<Rightarrow> queue_config_data \<Rightarrow> dpa \<times> refactor_ctx \<Rightarrow> u64 \<times> dpa \<times> refactor_ctx" where
  "dpa_refactor_device_init fx shared_data = (\<lambda>(d, c).
     let c = c\<lparr>lkey := wqd_mkey_id (sq_data shared_data),
               host_rq_ctx := (host_rq_ctx c)\<lparr>rq_rkey := wqd_mkey_id (rq_data shared_data),
                                             rq_window_id := new_buffer_mkey_id shared_data,
                                             host_rx_buff := wqd_daddr (rq_data shared_data)\<rparr>,
               rqcq_ctx := init_cq_refactor (rq_cq_data shared_data) (rqcq_ctx c),
               rq_ctx := init_rq_refactor (rq_data shared_data) (rq_ctx c),
               sqcq_ctx := init_cq_refactor (sq_cq_data shared_data) (sqcq_ctx c),
               sq_ctx := init_sq_refactor fx (sq_data shared_data) (sq_ctx c)\<rparr>;
         (d, sq) = init_send_sq fx (sq_ctx c) (ucast (LOG2VALUE LOG_SQ_RING_DEPTH_refactor)) (lkey c) d;
         c = c\<lparr>sq_ctx := sq,
               dt_ctx := (dt_ctx c)\<lparr>sq_tx_buff := wqd_daddr (sq_data shared_data),
                                   tx_buff_idx := 0,
                                   data_idx_mask := ring_mask LOG_SQ_RING_DEPTH_refactor\<rparr>,
               rq_on_host := daddr_on_host (rq_data shared_data),
               sq_on_host := daddr_on_host (sq_data shared_data),
               is_initalized := 1\<rparr>
     in (0, d, c))"

subsection \<open>Packets\<close>

definition process_packet_refactor :: "flexio \<Rightarrow> dpa \<times> refactor_ctx \<Rightarrow> dpa \<times> refactor_ctx" where
  "process_packet_refactor fx = (\<lambda>(d, c).
     let (rq_data, data_sz) = receive_packet fx (mem d) (rqcq_ctx c) (rq_ctx c);
         d = upd_mem (\<lambda>m. swap_mac m rq_data) d;
         (d, sq) = prepare_send_packet fx (sq_ctx c) rq_data data_sz d;
         (d, sq) = finish_send_packet sq d
     in (d, c\<lparr>sq_ctx := sq\<rparr>))"

definition process_packet_host_refactor :: "flexio \<Rightarrow> dpa \<times> refactor_ctx \<Rightarrow> dpa \<times> refactor_ctx" where
  "process_packet_host_refactor fx = (\<lambda>(d, c).
     let (rq_data, data_sz) = receive_packet fx (mem d) (rqcq_ctx c) (rq_ctx c);
         rq_data_dpa = host_rq_addr_to_dpa_addr rq_data (host_rq_ctx c);
         d = upd_mem (\<lambda>m. swap_mac m rq_data_dpa) d;
         (d, sq) = prepare_send_packet fx (sq_ctx c) rq_data data_sz d;
         (d, sq) = finish_send_packet_host sq d
     in (d, c\<lparr>sq_ctx := sq\<rparr>))"

subsection \<open>The event handler\<close>

text \<open>
  \<open>flexio_dev_thread_reschedule\<close> does not return.  The outer loop \<open>while (dtctx != NULL)\<close> has no
  exit, so a handler that reaches it keeps polling; \<open>iter_refactor\<close> is the body of its inner loop,
  with the local copy of \<open>rq_on_host\<close>.
\<close>

definition iter_refactor :: "u8 \<Rightarrow> flexio \<Rightarrow> dpa \<times> refactor_ctx \<Rightarrow> (dpa \<times> refactor_ctx) option" where
  "iter_refactor on_host fx s =
     (let (d, c) = (if on_host \<noteq> 0 then process_packet_host_refactor fx s else process_packet_refactor fx s);
          d = step_rq fx (rq_ctx c) d;
          (d, cq) = step_cq fx (rqcq_ctx c) d
      in Some (d, c\<lparr>rqcq_ctx := cq\<rparr>))"

definition dpa_refactor_device_event_handler :: "flexio \<Rightarrow> dpa \<times> refactor_ctx \<Rightarrow> refactor_ctx outcome" where
  "dpa_refactor_device_event_handler fx = (\<lambda>(d, c).
     let dtctx = snd (get_thread_ctx fx); h = host_rq_ctx c in
     if is_initalized c = 0 then Exited (emit Reschedule d) c
     else
       let (buff, d) = (if rq_on_host c \<noteq> 0
                        then get_host_buffer_with_dtctx fx (rq_window_id h) (rq_rkey h) (host_rx_buff h) d
                        else (host_rx_buff h, d));
           c = c\<lparr>host_rq_ctx := h\<lparr>dpa_rx_buff := buff\<rparr>\<rparr>
       in if dtctx \<noteq> 0 then Polling d c
          else Exited (emit Reschedule (emit (Cq_arm (cq_idx (rqcq_ctx c)) (cq_number (rqcq_ctx c)))
                 (emit Thread_fence d))) c)"

subsection \<open>Lemmas\<close>

interpretation refactor_rx: reflecting_loop "iter_refactor b" rqcq_ctx sq_ctx for b
  by unfold_locales
    (auto simp: iter_refactor_def process_packet_refactor_def process_packet_host_refactor_def
       case_prod_beta Let_def send_simps db_ordered_emit split: if_splits)

text \<open>The receiver's context is untouched until \<open>step_cq\<close>; initialisation leaves fresh queues.\<close>

lemma refactor_init_started:
  assumes "dpa_refactor_device_init fx q (d0, c0) = (r, d1, c1)" "sq_pi (sq_ctx c0) = 0" "trace d0 = []"
  shows "rx_started fx 7 (rqcq_ctx c1) (sq_ctx c1) d1"
  using assms
  by (auto simp: dpa_refactor_device_init_def Let_def case_prod_beta rx_started_def init_cq_refactor_def
      init_sq_refactor_def init_cq_at_inv db_ordered_def)

lemma refactor_handler_polling:
  assumes "dpa_refactor_device_event_handler fx (d1, c1) = Polling d2 c2"
  shows "rx_started fx n (rqcq_ctx c2) (sq_ctx c2) d2 = rx_started fx n (rqcq_ctx c1) (sq_ctx c1) d1"
  using assms
  by (auto simp: dpa_refactor_device_event_handler_def Let_def case_prod_beta rx_started_def
      split: if_splits)

text \<open>A context whose receive queue is that of the sample memory.\<close>

definition sample_refactor :: refactor_ctx where
  "sample_refactor = dev_ctx_refactor
     \<lparr>is_initalized := 1, rqcq_ctx := init_cq_refactor (rq_cq_data sample_qcd) cq_zero,
      rq_ctx := init_rq_refactor (rq_data sample_qcd) rq_zero,
      sq_ctx := init_sq_refactor sample_fx (sq_data sample_qcd) sq_zero\<rparr>"

lemma sample_refactor_simps [simp]:
  "rqcq_ctx sample_refactor = init_cq_at 7 (rq_cq_data sample_qcd) cq_zero"
  "rq_ctx sample_refactor = init_rq_at 7 (rq_data sample_qcd) rq_zero"
  "sq_ctx sample_refactor = init_sq_at sample_fx 7 (sq_data sample_qcd) sq_zero"
  by (simp_all add: sample_refactor_def init_cq_refactor_def init_rq_refactor_def init_sq_refactor_def)

subsection \<open>Properties\<close>

text \<open>
  C1: the reflector as a whole.  Start from a context whose producer index is zero (the static
  context is zero-initialised), initialise it with any configuration, enter the event
  handler, and let the card and the handler interleave in any way: the completion queue's
  index, entry pointer and owner bit agree at all times, also when the 32-bit index wraps; and
  the packets taken so far were answered one by one, each with its own send entry, a doorbell
  that follows a write-back, and consecutive producer indices.
\<close>

theorem refactor_run:
  assumes "dpa_refactor_device_init fx q (d0, c0) = (r, d1, c1)"
    and "dpa_refactor_device_event_handler fx (d1, c1) = Polling d2 c2"
    and "(rx_step fx (iter_refactor (rq_on_host c1) fx) rqcq_ctx)\<^sup>*\<^sup>* (d2, c2) (d, c)"
    and "sq_pi (sq_ctx c0) = 0" "trace d0 = []"
  shows "answered fx 7 (rqcq_ctx c) (sq_ctx c) d"
  using refactor_init_started[OF assms(1,4,5)] refactor_handler_polling[OF assms(2), of 7]
    refactor_rx.reach_answered[OF assms(3), of 7] by simp

theorem refactor_run_witness:
  "\<exists>d (c :: refactor_ctx). cq_idx (rqcq_ctx c) = 1 \<and> answered sample_fx 7 (rqcq_ctx c) (sq_ctx c) d"
proof -
  obtain r d1 c1 where i: "dpa_refactor_device_init sample_fx sample_qcd (sample_dpa, dev_ctx_refactor) = (r, d1, c1)"
    by (rule prod_cases3)
  define c2 where "c2 = c1\<lparr>host_rq_ctx := (host_rq_ctx c1)\<lparr>dpa_rx_buff := host_rx_buff (host_rq_ctx c1)\<rparr>\<rparr>"
  have c1: "is_initalized c1 = 1" "rq_on_host c1 = 0" "rqcq_ctx c1 = init_cq_at 7 (rq_cq_data sample_qcd) cq_zero"
    using i by (auto simp: dpa_refactor_device_init_def Let_def case_prod_beta init_cq_refactor_def dev_ctx_refactor_def)
  have h: "dpa_refactor_device_event_handler sample_fx (d1, c1) = Polling d1 c2"
    using c1 by (simp add: dpa_refactor_device_event_handler_def c2_def Let_def)
  obtain d c where it: "iter_refactor (rq_on_host c1) sample_fx (d1\<lparr>mem := sample_mem\<rparr>, c2) = Some (d, c)"
    by (simp add: iter_refactor_def case_prod_beta Let_def)
  have "(rx_step sample_fx (iter_refactor (rq_on_host c1) sample_fx) rqcq_ctx)\<^sup>*\<^sup>* (d1, c2) (d, c)"
    using c1 it by (intro sample_reach) (simp_all add: c2_def)
  from refactor_run[OF i h this] have "answered sample_fx 7 (rqcq_ctx c) (sq_ctx c) d"
    by (simp add: dev_ctx_refactor_def)
  moreover have "cq_idx (rqcq_ctx c) = 1"
    using refactor_rx.iter_cq[OF it] c1 by (simp add: c2_def)
  ultimately show ?thesis by blast
qed

text \<open>
  C9: one packet.  The frame at the address the completion names has its Ethernet addresses
  exchanged and EtherType 08 00, with every other byte unchanged; the send entry's data
  segment announces that same buffer and length; one write-back and one doorbell follow.
\<close>

theorem refactor_process_packet:
  assumes "receive_packet fx (mem d) (rqcq_ctx c) (rq_ctx c) = (p, len)"
    and "data_seg_sep fx (fst (get_next_data_sqe fx (sq_ctx c))) p n" "14 \<le> n" "n \<le> 2 ^ 64"
    and "process_packet_refactor fx (d, c) = (d', c')"
  shows "load_bytes (mem d') p n = swapped_frame (load_bytes (mem d) p n) \<and>
         posted fx (fst (get_next_data_sqe fx (sq_ctx c))) p len (mem d') \<and>
         trace d' = trace d @ [Memory_writeback, Ring_db (sq_pi (sq_ctx c) + 1) (sq_number (sq_ctx c))] \<and>
         c' = c\<lparr>sq_ctx := sq_sent (sq_ctx c)\<rparr>"
  using assms(1,5) prepare_send_packet_mem[OF assms(2,4)] load_bytes_swap_mac[OF assms(3,4)]
  by (auto simp: process_packet_refactor_def Let_def case_prod_beta send_simps)

theorem refactor_process_packet_witness:
  "let (d', c') = process_packet_refactor sample_fx (sample_dpa, sample_refactor) in
     load_bytes (mem d') 0x3000 64 = swapped_frame (load_bytes sample_mem 0x3000 64) \<and>
     posted sample_fx 0x28020 0x3000 64 (mem d') \<and> trace d' = [Memory_writeback, Ring_db 1 6]"
proof -
  obtain d' c' where p: "process_packet_refactor sample_fx (sample_dpa, sample_refactor) = (d', c')"
    by (rule prod.exhaust)
  show ?thesis
    using refactor_process_packet[OF _ _ _ _ p, of "0x3000" 64 64] unfolding p by simp
qed

text \<open>
  one packet with the buffers on the host.  The exchange is done through the window, at
  the window address of the buffer, while the send entry announces the host address.
\<close>

lemma refactor_process_packet_host:
  assumes "receive_packet fx (mem d) (rqcq_ctx c) (rq_ctx c) = (host_rx_buff (host_rq_ctx c) + off, len)"
    and "p = dpa_rx_buff (host_rq_ctx c) + off"
    and "data_seg_sep fx (fst (get_next_data_sqe fx (sq_ctx c))) p n" "14 \<le> n" "n \<le> 2 ^ 64"
    and "process_packet_host_refactor fx (d, c) = (d', c')"
  shows "load_bytes (mem d') p n = swapped_frame (load_bytes (mem d) p n) \<and>
         posted fx (fst (get_next_data_sqe fx (sq_ctx c))) (host_rx_buff (host_rq_ctx c) + off) len (mem d') \<and>
         trace d' = trace d @ [Memory_writeback, Window_writeback, Ring_db (sq_pi (sq_ctx c) + 1) (sq_number (sq_ctx c))]"
  using assms(1,2,6) prepare_send_packet_mem[OF assms(3,5)] load_bytes_swap_mac[OF assms(4,5)]
  by (auto simp: process_packet_host_refactor_def Let_def case_prod_beta send_simps host_rq_addr_off)

lemma refactor_init_mem:
  assumes "log_sqe_num_segs fx = 2" "dpa_refactor_device_init fx q (d0, c0) = (r, d1, c1)"
  shows "d1 = upd_mem (fold (send_entry_ref fx (wq_ring_daddr (sq_data q)) (wq_num (sq_data q))
                          (wqd_mkey_id (sq_data q))) [0..<128]) d0"
    and "sq_ctx c1 = init_sq_at fx 7 (sq_data q) (sq_ctx c0)"
proof -
  have sz: "unat (ucast (LOG2VALUE 7) :: u32) = 128" by (simp add: LOG2VALUE_def)
  let ?sq = "init_sq_at fx 7 (sq_data q) (sq_ctx c0)"
  have "init_send_sq fx ?sq (ucast (LOG2VALUE 7)) (wqd_mkey_id (sq_data q)) d0 =
    (upd_mem (fold (send_entry_ref fx (sq_ring ?sq) (sq_number ?sq) (wqd_mkey_id (sq_data q))) [0..<128]) d0, ?sq)"
    using init_send_sq_ref[of ?sq 7 "ucast (LOG2VALUE 7)"] assms(1) unfolding sz by simp
  with assms(2) show "d1 = upd_mem (fold (send_entry_ref fx (wq_ring_daddr (sq_data q)) (wq_num (sq_data q))
                          (wqd_mkey_id (sq_data q))) [0..<128]) d0"
    "sq_ctx c1 = init_sq_at fx 7 (sq_data q) (sq_ctx c0)"
    by (auto simp: dpa_refactor_device_init_def init_sq_refactor_def Let_def)
qed

text \<open>
  C26: initialisation writes the send ring segment by segment: entry \<open>i\<close> of the 128 entries gets
  a control segment with index \<open>i\<close> at slot \<open>4 i\<close>, an Ethernet segment and a data segment with
  the local key at the next two; the segment index is back at zero.
\<close>

theorem refactor_init_ring:
  assumes "log_sqe_num_segs fx = 2" "dpa_refactor_device_init fx q (d0, c0) = (r, d1, c1)"
  shows "mem d1 = fold (send_entry_ref fx (wq_ring_daddr (sq_data q)) (wq_num (sq_data q))
                          (wqd_mkey_id (sq_data q))) [0..<128] (mem d0) \<and>
         sq_wqe_seg_idx (sq_ctx c1) = 0 \<and> is_initalized c1 = 1 \<and> r = 0"
  using refactor_init_mem[OF assms] assms(2) by (auto simp: dpa_refactor_device_init_def Let_def case_prod_beta)

theorem refactor_init_ring_witness:
  "mem (fst (snd (dpa_refactor_device_init sample_fx sample_qcd (sample_dpa, dev_ctx_refactor)))) =
     fold (send_entry_ref sample_fx 0x28000 6 9) [0..<128] sample_mem"
proof -
  obtain r d1 c1 where i: "dpa_refactor_device_init sample_fx sample_qcd (sample_dpa, dev_ctx_refactor) = (r, d1, c1)"
    by (rule prod_cases3)
  show ?thesis using refactor_init_ring[OF _ i] unfolding i by simp
qed

end
