(* ===== verification/Refactor_Mt.thy ===== *)
theory Refactor_Mt
  imports Refactor
begin

text \<open>
  The multi-threaded reflector \<open>flexio/dpa_refactor_mt/device/dpa_refactor_device_mt.c\<close>: an array of
  190 contexts, one per thread, each served by its own copy of the event handler.  Built with
  \<open>ONLY_RECV\<close> 0 and \<open>DISPLAY_COUNT\<close> 1, as in the source.
\<close>

subsection \<open>Contexts and initialisation\<close>

abbreviation MAX_THREADS_mt :: nat where "MAX_THREADS_mt \<equiv> 190"

text \<open>The fields of \<open>struct device_context\<close> are those of the single-threaded program.\<close>

type_synonym refactor_mt_ctx = refactor_ctx

definition dev_ctxs_mt :: "refactor_mt_ctx list" where
  "dev_ctxs_mt = replicate MAX_THREADS_mt dev_ctx_refactor"

definition init_cq_mt :: "app_transfer_cq \<Rightarrow> cq_ctx_t \<Rightarrow> cq_ctx_t" where
  "init_cq_mt = init_cq_at 7"

definition init_rq_mt :: "app_transfer_wq \<Rightarrow> rq_ctx_t \<Rightarrow> rq_ctx_t" where
  "init_rq_mt = init_rq_at 7"

definition init_sq_mt :: "flexio \<Rightarrow> app_transfer_wq \<Rightarrow> sq_ctx_t \<Rightarrow> sq_ctx_t" where
  "init_sq_mt fx = init_sq_at fx 7"

text \<open>The part of \<open>dpa_refactor_mt_device_init\<close> that works on the thread's own context.\<close>

definition init_ctx_mt :: "flexio \<Rightarrow> queue_config_data \<Rightarrow> dpa \<times> refactor_mt_ctx \<Rightarrow> dpa \<times> refactor_mt_ctx" where
  "init_ctx_mt fx shared_data = (\<lambda>(d, c).
     let c = c\<lparr>lkey := wqd_mkey_id (sq_data shared_data),
               host_rq_ctx := (host_rq_ctx c)\<lparr>rq_rkey := wqd_mkey_id (rq_data shared_data),
                                             rq_window_id := new_buffer_mkey_id shared_data,
                                             host_rx_buff := wqd_daddr (rq_data shared_data)\<rparr>,
               rqcq_ctx := init_cq_mt (rq_cq_data shared_data) (rqcq_ctx c),
               rq_ctx := init_rq_mt (rq_data shared_data) (rq_ctx c),
               sqcq_ctx := init_cq_mt (sq_cq_data shared_data) (sqcq_ctx c),
               sq_ctx := init_sq_mt fx (sq_data shared_data) (sq_ctx c)\<rparr>;
         (d, sq) = init_send_sq fx (sq_ctx c) (ucast (LOG2VALUE 7)) (lkey c) d
     in (d, c\<lparr>sq_ctx := sq,
              dt_ctx := (dt_ctx c)\<lparr>sq_tx_buff := wqd_daddr (sq_data shared_data),
                                  tx_buff_idx := 0, data_idx_mask := ring_mask 7\<rparr>,
              rq_on_host := daddr_on_host (rq_data shared_data),
              sq_on_host := daddr_on_host (sq_data shared_data),
              is_initalized := 1\<rparr>))"

text \<open>A failed \<open>Assert\<close> returns \<open>-1\<close>.\<close>

definition dpa_refactor_mt_device_init ::
  "flexio \<Rightarrow> queue_config_data \<Rightarrow> dpa \<times> refactor_mt_ctx list \<Rightarrow> u64 \<times> dpa \<times> refactor_mt_ctx list" where
  "dpa_refactor_mt_device_init fx shared_data = (\<lambda>(d, dev_ctxs).
     let i = unat (thread_index shared_data) in
     if \<not> i < MAX_THREADS_mt then (- 1, d, dev_ctxs)
     else let (d, c) = init_ctx_mt fx shared_data (d, dev_ctxs ! i) in (0, d, dev_ctxs[i := c]))"

subsection \<open>Packets\<close>

definition receive_packet_on_dpa_mt :: "flexio \<Rightarrow> dpa \<times> refactor_mt_ctx \<Rightarrow> dpa \<times> refactor_mt_ctx" where
  "receive_packet_on_dpa_mt fx = (\<lambda>(d, c).
     let (rq_data, data_sz) = receive_packet fx (mem d) (rqcq_ctx c) (rq_ctx c) in (d, c))"

definition receive_packet_on_host_mt :: "flexio \<Rightarrow> dpa \<times> refactor_mt_ctx \<Rightarrow> dpa \<times> refactor_mt_ctx" where
  "receive_packet_on_host_mt fx = (\<lambda>(d, c).
     let (rq_data, data_sz) = receive_packet fx (mem d) (rqcq_ctx c) (rq_ctx c) in (d, c))"

definition process_packet_mt :: "flexio \<Rightarrow> dpa \<times> refactor_mt_ctx \<Rightarrow> dpa \<times> refactor_mt_ctx" where
  "process_packet_mt fx = (\<lambda>(d, c).
     let (rq_data, data_sz) = receive_packet fx (mem d) (rqcq_ctx c) (rq_ctx c);
         d = upd_mem (\<lambda>m. swap_mac m rq_data) d;
         (d, sq) = prepare_send_packet fx (sq_ctx c) rq_data data_sz d;
         (d, sq) = finish_send_packet sq d
     in (d, c\<lparr>sq_ctx := sq\<rparr>))"

definition process_packet_host_mt :: "flexio \<Rightarrow> dpa \<times> refactor_mt_ctx \<Rightarrow> dpa \<times> refactor_mt_ctx" where
  "process_packet_host_mt fx = (\<lambda>(d, c).
     let (rq_data, data_sz) = receive_packet fx (mem d) (rqcq_ctx c) (rq_ctx c);
         rq_data_dpa = host_rq_addr_to_dpa_addr rq_data (host_rq_ctx c);
         d = upd_mem (\<lambda>m. swap_mac m rq_data_dpa) d;
         (d, sq) = prepare_send_packet fx (sq_ctx c) rq_data data_sz d;
         (d, sq) = finish_send_packet_host sq d
     in (d, c\<lparr>sq_ctx := sq\<rparr>))"

subsection \<open>The event handler\<close>

text \<open>
  The body of the inner loop, on the thread's context and the local \<open>pkt_count\<close>: every millionth
  packet adds a million to \<open>packets_count\<close>.
\<close>

definition count_mt :: "refactor_mt_ctx \<times> u64 \<Rightarrow> refactor_mt_ctx \<times> u64" where
  "count_mt = (\<lambda>(c, pkt_count).
     if pkt_count + 1 = 1000000 then (c\<lparr>packets_count := packets_count c + 1000000\<rparr>, 0)
     else (c, pkt_count + 1))"

definition iter_mt ::
  "u8 \<Rightarrow> flexio \<Rightarrow> dpa \<times> refactor_mt_ctx \<times> u64 \<Rightarrow> (dpa \<times> refactor_mt_ctx \<times> u64) option" where
  "iter_mt on_host fx = (\<lambda>(d, c, pkt_count).
     let (d, c) = (if on_host \<noteq> 0 then process_packet_host_mt fx (d, c) else process_packet_mt fx (d, c));
         d = step_rq fx (rq_ctx c) d;
         (d, cq) = step_cq fx (rqcq_ctx c) d
     in Some (d, count_mt (c\<lparr>rqcq_ctx := cq\<rparr>, pkt_count)))"

text \<open>
  The handler's start, for the context \<open>dev_ctxs[index]\<close>.  An index outside the array has no
  defined result.
\<close>

definition dpa_refactor_mt_device_event_handler ::
  "flexio \<Rightarrow> u64 \<Rightarrow> dpa \<times> refactor_mt_ctx list \<Rightarrow> (refactor_mt_ctx \<times> u64) outcome option" where
  "dpa_refactor_mt_device_event_handler fx index = (\<lambda>(d, dev_ctxs).
     if \<not> unat index < length dev_ctxs then None
     else
       let c = dev_ctxs ! unat index; dtctx = snd (get_thread_ctx fx); h = host_rq_ctx c in
       if is_initalized c = 0 then Some (Exited (emit Reschedule d) (c, 0))
       else
         let (buff, d) = (if rq_on_host c \<noteq> 0
                          then get_host_buffer_with_dtctx fx (rq_window_id h) (rq_rkey h) (host_rx_buff h) d
                          else (host_rx_buff h, d));
             c = c\<lparr>host_rq_ctx := h\<lparr>dpa_rx_buff := buff\<rparr>\<rparr>
         in if dtctx \<noteq> 0 then Some (Polling d (c, 0))
            else Some (Exited (emit Reschedule (emit (Cq_arm (cq_idx (rqcq_ctx c)) (cq_number (rqcq_ctx c)))
                   (emit Thread_fence d))) (c, 0)))"

subsection \<open>Lemmas\<close>

lemma count_mt_ctx [simp]:
  "rqcq_ctx (fst (count_mt x)) = rqcq_ctx (fst x)" "sq_ctx (fst (count_mt x)) = sq_ctx (fst x)"
  by (simp_all add: count_mt_def case_prod_beta)

interpretation mt_rx: reflecting_loop "iter_mt b" "rqcq_ctx \<circ> fst" "sq_ctx \<circ> fst" for b
  by unfold_locales
    (auto simp: iter_mt_def process_packet_mt_def process_packet_host_mt_def
       case_prod_beta Let_def send_simps db_ordered_emit split: if_splits)

text \<open>The two counters together count the completions, modulo \<open>2^32\<close>.\<close>

definition counted_mt :: "refactor_mt_ctx \<times> u64 \<Rightarrow> bool" where
  "counted_mt = (\<lambda>(c, pkt_count). unat pkt_count < 1000000 \<and>
     cq_idx (rqcq_ctx c) = packets_count c + ucast pkt_count)"

lemma count_mt_step:
  assumes "counted_mt (c, k)" "cq_idx cq = cq_idx (rqcq_ctx c) + 1"
  shows "counted_mt (count_mt (c\<lparr>sq_ctx := sq, rqcq_ctx := cq\<rparr>, k))"
proof -
  have lt: "unat k < 1000000" using assms by (simp add: counted_mt_def)
  then have u: "unat (k + 1) = unat k + 1" by (simp add: unat_word_ariths)
  have e: "(k + 1 = 1000000) = (unat k = 999999)" 
  proof -
    have "(k + 1 = 1000000) = (unat (k + 1) = unat (1000000 :: u64))" by (simp only: word_unat_eq_iff)
    then show ?thesis by (simp add: u)
  qed
  have k1: "(ucast (k + 1) :: u32) = ucast k + 1"
    using lt by (simp add: word_unat_eq_iff unat_word_ariths unsigned_ucast_eq take_bit_eq_mod mod_simps)
  have m: "(ucast k :: u32) + 1 = 1000000" if "k + 1 = 1000000"
    using k1[unfolded that] by simp
  show ?thesis
    using assms lt u e m k1 by (auto simp: counted_mt_def count_mt_def add.assoc)
qed

lemma iter_mt_counted: "iter_mt b fx s = Some t \<Longrightarrow> counted_mt (snd s) \<Longrightarrow> counted_mt (snd t)"
  by (cases s) (auto simp: iter_mt_def process_packet_mt_def process_packet_host_mt_def case_prod_beta Let_def
      count_mt_step split: if_splits)

lemma init_ctx_mt_started:
  assumes "init_ctx_mt fx q (d0, c0) = (d1, c1)" "sq_pi (sq_ctx c0) = 0" "trace d0 = []" "packets_count c0 = 0"
  shows "rx_started fx 7 (rqcq_ctx c1) (sq_ctx c1) d1 \<and> counted_mt (c1, 0) \<and> is_initalized c1 = 1"
  using assms
  by (auto simp: init_ctx_mt_def Let_def case_prod_beta rx_started_def init_cq_mt_def
      init_sq_mt_def init_cq_at_inv db_ordered_def counted_mt_def)

subsection \<open>Properties\<close>

text \<open>
  initialisation.  A thread index of 190 or more is refused with \<open>-1\<close> and changes nothing; any
  other index initialises that thread's context, with fresh queues and zero counters if it was
  unused, and leaves the contexts of all other threads as they were.
\<close>

lemma mt_init_one_thread:
  assumes "dpa_refactor_mt_device_init fx q (d, cs) = (r, d', cs')" "length cs = 190" "i = unat (thread_index q)"
  shows "(190 \<le> i \<longrightarrow> r = - 1 \<and> d' = d \<and> cs' = cs) \<and>
         (i < 190 \<longrightarrow> r = 0 \<and> length cs' = 190 \<and> is_initalized (cs' ! i) = 1 \<and> (\<forall>j. j \<noteq> i \<longrightarrow> cs' ! j = cs ! j) \<and>
           (cs ! i = dev_ctx_refactor \<and> trace d = [] \<longrightarrow>
             rx_started fx 7 (rqcq_ctx (cs' ! i)) (sq_ctx (cs' ! i)) d' \<and> counted_mt (cs' ! i, 0)))"
proof -
  obtain d1 c1 where c1: "init_ctx_mt fx q (d, cs ! i) = (d1, c1)" by (rule prod.exhaust)
  have "is_initalized c1 = 1"
    using c1 by (auto simp: init_ctx_mt_def Let_def case_prod_beta)
  with c1 init_ctx_mt_started[OF c1] assms show ?thesis
    by (auto simp: dpa_refactor_mt_device_init_def Let_def dev_ctx_refactor_def)
qed

text \<open>
  C7: all threads at once.  In every interleaving of the threads' loops and the card's writes to
  the shared memory, each thread that started from fresh queues has a consistent completion
  queue, has answered exactly the packets it took, one doorbell each and in order, and its two
  packet counters add up to the number of completions it consumed.
\<close>

theorem mt_all_threads:
  assumes "(mt_step fx (\<lambda>j. iter_mt (host j) fx) (rqcq_ctx \<circ> fst))\<^sup>*\<^sup>* (m, ts) (m', ts')"
    and "j < length ts" "ts ! j = (d0, c0, 0)" "rx_started fx 7 (rqcq_ctx c0) (sq_ctx c0) d0" "counted_mt (c0, 0)"
  shows "\<exists>d c pkt_count. ts' ! j = (d, c, pkt_count) \<and> answered fx 7 (rqcq_ctx c) (sq_ctx c) d \<and>
           cq_idx (rqcq_ctx c) = packets_count c + ucast pkt_count \<and> unat pkt_count < 1000000"
proof -
  obtain d c k where t: "ts' ! j = (d, c, k)" by (rule prod_cases3)
  have r: "(rx_step fx (iter_mt (host j) fx) (rqcq_ctx \<circ> fst))\<^sup>*\<^sup>* (d0\<lparr>mem := m\<rparr>, c0, 0) (d\<lparr>mem := m'\<rparr>, c, k)"
    using mt_reach_view[OF assms(1), of j] assms(2,3) t by (simp add: view_def)
  have s: "rx_started fx 7 ((rqcq_ctx \<circ> fst) (c0, 0::u64)) ((sq_ctx \<circ> fst) (c0, 0::u64)) (d0\<lparr>mem := m\<rparr>)"
    using assms(4) by (simp add: rx_started_def)
  have "answered fx 7 (rqcq_ctx c) (sq_ctx c) (d\<lparr>mem := m'\<rparr>)"
    using mt_rx.reach_answered[OF r _ s] by simp
  moreover have "counted_mt (snd (d\<lparr>mem := m'\<rparr>, c, k))"
    by (rule rx_reach_inv[OF r]) (use assms(5) iter_mt_counted in auto)
  ultimately show ?thesis using t by (simp add: answered_def counted_mt_def)
qed

theorem mt_all_threads_witness:
  "\<exists>ts' d (c :: refactor_mt_ctx) k. length ts' = 2 \<and> ts' ! 1 = (d, c, k) \<and> cq_idx (rqcq_ctx c) = 1 \<and>
     answered sample_fx 7 (rqcq_ctx c) (sq_ctx c) d \<and> packets_count c + ucast (k :: u64) = 1"
proof -
  obtain d1 c1 where i: "init_ctx_mt sample_fx sample_qcd (sample_dpa, dev_ctx_refactor) = (d1, c1)" by (rule prod.exhaust)
  have st: "rx_started sample_fx 7 (rqcq_ctx c1) (sq_ctx c1) d1" "counted_mt (c1, 0)"
    using init_ctx_mt_started[OF i] by (simp_all add: dev_ctx_refactor_def)
  have cq: "rqcq_ctx c1 = init_cq_at 7 (rq_cq_data sample_qcd) cq_zero"
    using i by (auto simp: init_ctx_mt_def Let_def case_prod_beta init_cq_mt_def dev_ctx_refactor_def)
  let ?ts = "[(d1, c1, 0), (d1, c1, 0)]" and ?it = "\<lambda>j :: nat. iter_mt 0 sample_fx"
  obtain d c k where it: "iter_mt 0 sample_fx (view 1 (sample_mem, ?ts)) = Some (d, c, k)"
    by (simp add: view_def iter_mt_def Let_def case_prod_beta) (metis prod.exhaust)
  have t1: "mt_step sample_fx ?it (rqcq_ctx \<circ> fst) (mem d1, ?ts) (sample_mem, ?ts)" by (rule mt_card)
  have t2: "mt_step sample_fx ?it (rqcq_ctx \<circ> fst) (sample_mem, ?ts) (mem d, ?ts[1 := (d, c, k)])"
    by (rule mt_turn) (use it cq in \<open>simp_all add: sample_ready\<close>)
  have r: "(mt_step sample_fx ?it (rqcq_ctx \<circ> fst))\<^sup>*\<^sup>* (mem d1, ?ts) (mem d, ?ts[1 := (d, c, k)])"
    using t1 t2 by (meson rtranclp.rtrancl_into_rtrancl rtranclp.rtrancl_refl)
  have "cq_idx (rqcq_ctx c) = 1"
    using mt_rx.iter_cq[OF it] cq by (simp add: view_def)
  with mt_all_threads[OF r _ _ st, of 1] show ?thesis
    by (intro exI[of _ "?ts[1 := (d, c, k)]"]) auto
qed

end
