(* ===== verification/Magic_Scan.thy ===== *)
theory Magic_Scan
  imports Refactor
begin

text \<open>
  The reflectors that read memory while they answer:
  \<open>flexio/dpa_refactor_random_access/device/dpa_refactor_random_access_device.c\<close> uses the 64-bit words of
  a 1024-byte packet, from offset 256 on, as indices into a large array;
  \<open>flexio/dpa_refactor_workingset/device/dpa_refactor_workingset_device.c\<close> adds up the words of the
  packet itself.  Both loops stop at the first word that is \<open>MAGIC_NUMBER\<close> and at nothing else, so
  they are partial: \<open>None\<close> stands for a loop that never stops.
\<close>

subsection \<open>The loop\<close>

abbreviation MAGIC_NUMBER :: u64 where "MAGIC_NUMBER \<equiv> 0xfffffffffffffffe"

text \<open>
  \<^verbatim>\<open>
    for (;;tmp_ptr++) {
        size_t tmp = *tmp_ptr;
        if (tmp == MAGIC_NUMBER) break;
        dummy += <a value that depends on tmp>;
    }
  \<close>
\<close>

partial_function (option) magic_loop :: "(u64 \<Rightarrow> u64) \<Rightarrow> memory \<Rightarrow> ptr \<Rightarrow> u64 \<Rightarrow> u64 option" where
  "magic_loop f m tmp_ptr dummy =
     (let tmp = load64 m tmp_ptr in
      if tmp = MAGIC_NUMBER then Some dummy else magic_loop f m (tmp_ptr + 8) (dummy + f tmp))"

text \<open>The words from \<open>p\<close> on, and the number of them before the first \<open>MAGIC_NUMBER\<close>.\<close>

definition magic_at :: "memory \<Rightarrow> ptr \<Rightarrow> nat \<Rightarrow> bool" where
  "magic_at m p k \<longleftrightarrow> load64 m (p + 8 * of_nat k) = MAGIC_NUMBER \<and>
     list_all (\<lambda>i. load64 m (p + 8 * of_nat i) \<noteq> MAGIC_NUMBER) [0..<k]"

lemma magic_at_0: "magic_at m p 0 \<longleftrightarrow> load64 m p = MAGIC_NUMBER"
  by (simp add: magic_at_def)

lemma magic_at_Suc: "magic_at m p (Suc k) \<longleftrightarrow> load64 m p \<noteq> MAGIC_NUMBER \<and> magic_at m (p + 8) k"
proof -
  have "(\<forall>i<Suc k. load64 m (p + 8 * of_nat i) \<noteq> MAGIC_NUMBER) \<longleftrightarrow>
    load64 m p \<noteq> MAGIC_NUMBER \<and> (\<forall>i<k. load64 m (p + 8 + 8 * of_nat i) \<noteq> MAGIC_NUMBER)"
    by (subst All_less_Suc2) (simp add: distrib_left add.assoc)
  then show ?thesis
    by (auto simp: magic_at_def list_all_iff atLeast0LessThan distrib_left add.assoc simp del: upt_Suc)
qed

lemma magic_loop_returns:
  "magic_at m p k \<Longrightarrow>
     magic_loop f m p dummy = Some (dummy + (\<Sum>i<k. f (load64 m (p + 8 * of_nat i))))"
proof (induction k arbitrary: p dummy)
  case 0
  then show ?case by (subst magic_loop.simps) (simp add: magic_at_0)
next
  case (Suc k)
  then have "load64 m p \<noteq> MAGIC_NUMBER" "magic_at m (p + 8) k" by (simp_all add: magic_at_Suc)
  with Suc.IH show ?case
    by (subst magic_loop.simps) (simp add: sum.lessThan_Suc_shift distrib_left add.assoc del: sum.lessThan_Suc)
qed

lemma magic_loop_found:
  assumes "magic_loop f m p dummy = Some r"
  shows "\<exists>k. magic_at m p k"
proof (rule magic_loop.raw_induct[where P = "\<lambda>f m p dummy r. \<exists>k. magic_at m p k", OF _ assms])
  fix g f m p dummy r
  assume ih: "\<And>f m p dummy r. g f m p dummy = Some r \<Longrightarrow> \<exists>k. magic_at m p k"
    and r: "(let tmp = load64 m p in if tmp = MAGIC_NUMBER then Some dummy else g f m (p + 8) (dummy + f tmp)) = Some r"
  show "\<exists>k. magic_at m p k"
  proof (cases "load64 m p = MAGIC_NUMBER")
    case True
    then show ?thesis using magic_at_0 by blast
  next
    case False
    with r have "g f m (p + 8) (dummy + f (load64 m p)) = Some r" by (simp add: Let_def)
    from ih[OF this] False show ?thesis using magic_at_Suc by blast
  qed
qed

lemma magic_loop_stops_iff: "(\<exists>r. magic_loop f m p dummy = Some r) \<longleftrightarrow> (\<exists>k. magic_at m p k)"
  using magic_loop_found magic_loop_returns by blast

subsection \<open>Random access\<close>

abbreviation TARGET_PKT_SIZE :: u32 where "TARGET_PKT_SIZE \<equiv> 1024"

text \<open>\<open>array_size\<close> is \<open>LOG2VALUE(12 + 11) / sizeof(size_t)\<close>.\<close>

definition array_size_random :: u64 where
  "array_size_random = LOG2VALUE (12 + 11) div 8"

text \<open>The context of the reflector, with the global \<open>total_dummy\<close>.\<close>

record random_ctx = refactor_ctx +
  total_dummy :: u64

definition init_cq_random :: "app_transfer_cq \<Rightarrow> cq_ctx_t \<Rightarrow> cq_ctx_t" where
  "init_cq_random = init_cq_at 12"

definition init_rq_random :: "app_transfer_wq \<Rightarrow> rq_ctx_t \<Rightarrow> rq_ctx_t" where
  "init_rq_random = init_rq_at 12"

definition init_sq_random :: "flexio \<Rightarrow> app_transfer_wq \<Rightarrow> sq_ctx_t \<Rightarrow> sq_ctx_t" where
  "init_sq_random fx = init_sq_at fx 12"

definition random_access_loop :: "memory \<Rightarrow> ptr \<Rightarrow> ptr \<Rightarrow> u64 option" where
  "random_access_loop m random_access_data_ptr tmp_ptr =
     magic_loop (\<lambda>tmp. load64 m (random_access_data_ptr + 8 * (tmp mod array_size_random))) m tmp_ptr 0"

definition process_packet_random :: "flexio \<Rightarrow> dpa \<times> random_ctx \<Rightarrow> (dpa \<times> random_ctx) option" where
  "process_packet_random fx = (\<lambda>(d, c).
     let (rq_data, data_sz) = receive_packet fx (mem d) (rqcq_ctx c) (rq_ctx c) in
     Option.bind
       (if data_sz = TARGET_PKT_SIZE
        then random_access_loop (mem d) (sq_tx_buff (dt_ctx c)) (rq_data + 256) else Some 0)
       (\<lambda>dummy.
         let c = c\<lparr>total_dummy := total_dummy c + dummy\<rparr>;
             d = upd_mem (\<lambda>m. swap_mac m rq_data) d;
             (d, sq) = prepare_send_packet fx (sq_ctx c) rq_data data_sz d;
             (d, sq) = finish_send_packet sq d
         in Some (d, c\<lparr>sq_ctx := sq\<rparr>)))"

definition process_packet_host_random :: "flexio \<Rightarrow> dpa \<times> random_ctx \<Rightarrow> (dpa \<times> random_ctx) option" where
  "process_packet_host_random fx = (\<lambda>(d, c).
     let (rq_data, data_sz) = receive_packet fx (mem d) (rqcq_ctx c) (rq_ctx c);
         rq_data_dpa = host_rq_addr_to_dpa_addr rq_data (host_rq_ctx c) in
     Option.bind
       (if data_sz = TARGET_PKT_SIZE
        then random_access_loop (mem d) (dpa_rx_buff (host_rq_ctx c)) (rq_data_dpa + 256) else Some 0)
       (\<lambda>dummy.
         let c = c\<lparr>total_dummy := total_dummy c + dummy\<rparr>;
             d = upd_mem (\<lambda>m. swap_mac m rq_data_dpa) d;
             (d, sq) = prepare_send_packet fx (sq_ctx c) rq_data data_sz d;
             (d, sq) = finish_send_packet_host sq d
         in Some (d, c\<lparr>sq_ctx := sq\<rparr>)))"

definition dpa_refactor_random_access_device_init ::
  "flexio \<Rightarrow> queue_config_data \<Rightarrow> dpa \<times> random_ctx \<Rightarrow> u64 \<times> dpa \<times> random_ctx" where
  "dpa_refactor_random_access_device_init fx shared_data = (\<lambda>(d, c).
     let c = c\<lparr>lkey := wqd_mkey_id (sq_data shared_data),
               host_rq_ctx := (host_rq_ctx c)\<lparr>rq_rkey := wqd_mkey_id (rq_data shared_data),
                                             rq_window_id := new_buffer_mkey_id shared_data,
                                             host_rx_buff := wqd_daddr (rq_data shared_data)\<rparr>,
               rqcq_ctx := init_cq_random (rq_cq_data shared_data) (rqcq_ctx c),
               rq_ctx := init_rq_random (rq_data shared_data) (rq_ctx c),
               sqcq_ctx := init_cq_random (sq_cq_data shared_data) (sqcq_ctx c),
               sq_ctx := init_sq_random fx (sq_data shared_data) (sq_ctx c)\<rparr>;
         (d, sq) = init_send_sq fx (sq_ctx c) (ucast (LOG2VALUE 12)) (lkey c) d;
         c = c\<lparr>sq_ctx := sq,
               dt_ctx := (dt_ctx c)\<lparr>sq_tx_buff := wqd_daddr (sq_data shared_data),
                                   tx_buff_idx := 0, data_idx_mask := ring_mask 12\<rparr>,
               rq_on_host := daddr_on_host (rq_data shared_data),
               sq_on_host := daddr_on_host (sq_data shared_data),
               is_initalized := 1\<rparr>
     in (0, d, c))"

definition iter_random :: "u8 \<Rightarrow> flexio \<Rightarrow> dpa \<times> random_ctx \<Rightarrow> (dpa \<times> random_ctx) option" where
  "iter_random on_host fx s =
     Option.bind (if on_host \<noteq> 0 then process_packet_host_random fx s else process_packet_random fx s)
       (\<lambda>(d, c).
         let c = c\<lparr>packets_count := packets_count c + 1\<rparr>;
             d = step_rq fx (rq_ctx c) d;
             (d, cq) = step_cq fx (rqcq_ctx c) d
         in Some (d, c\<lparr>rqcq_ctx := cq\<rparr>))"

definition dpa_refactor_random_access_device_event_handler :: "flexio \<Rightarrow> dpa \<times> random_ctx \<Rightarrow> random_ctx outcome" where
  "dpa_refactor_random_access_device_event_handler fx = (\<lambda>(d, c).
     let dtctx = snd (get_thread_ctx fx); h = host_rq_ctx c in
     if is_initalized c = 0 then Exited (emit Reschedule d) c
     else
       let (buff, d) = (if rq_on_host c \<noteq> 0
                        then get_host_buffer_with_dtctx fx (rq_window_id h) (rq_rkey h) (host_rx_buff h) d
                        else (host_rx_buff h, d));
           c = c\<lparr>host_rq_ctx := h\<lparr>dpa_rx_buff := buff\<rparr>\<rparr>
       in if dtctx \<noteq> 0 then Polling d c
          else Exited (emit Reschedule (emit (Cq_arm (cq_idx (rqcq_ctx c)) (cq_number (rqcq_ctx c)))
                 (emit Thread_fence d))) c)"

interpretation random_rx: reflecting_loop "iter_random b" rqcq_ctx sq_ctx for b
  by unfold_locales
    (auto simp: iter_random_def process_packet_random_def process_packet_host_random_def bind_eq_Some_conv
       case_prod_beta Let_def send_simps db_ordered_emit split: if_splits)

lemma array_index_random: "8 * (tmp mod array_size_random) = of_nat (8 * (unat tmp mod 2 ^ 20))"
proof -
  have a: "array_size_random = 0x100000" by (simp add: array_size_random_def LOG2VALUE_def)
  have "tmp mod array_size_random = of_nat (unat (tmp mod array_size_random))" by simp
  also have "unat (tmp mod array_size_random) = unat tmp mod 2 ^ 20"
    unfolding a by (simp only: unat_mod_distrib) simp
  finally show ?thesis by simp
qed

subsection \<open>Working set\<close>

text \<open>Built with \<open>TEST_BANDWIDTH\<close> 0, as in the source.\<close>

definition init_cq_ws :: "app_transfer_cq \<Rightarrow> cq_ctx_t \<Rightarrow> cq_ctx_t" where
  "init_cq_ws = init_cq_at 7"

definition init_rq_ws :: "app_transfer_wq \<Rightarrow> rq_ctx_t \<Rightarrow> rq_ctx_t" where
  "init_rq_ws = init_rq_at 7"

definition init_sq_ws :: "flexio \<Rightarrow> app_transfer_wq \<Rightarrow> sq_ctx_t \<Rightarrow> sq_ctx_t" where
  "init_sq_ws fx = init_sq_at fx 7"

definition process_packet_ws :: "flexio \<Rightarrow> dpa \<times> random_ctx \<Rightarrow> (dpa \<times> random_ctx) option" where
  "process_packet_ws fx = (\<lambda>(d, c).
     let (rq_data, data_sz) = receive_packet fx (mem d) (rqcq_ctx c) (rq_ctx c) in
     Option.bind
       (if data_sz = TARGET_PKT_SIZE then magic_loop (\<lambda>tmp. tmp) (mem d) rq_data 0 else Some 0)
       (\<lambda>dummy.
         let c = c\<lparr>total_dummy := total_dummy c + dummy\<rparr>;
             d = upd_mem (\<lambda>m. swap_mac m rq_data) d;
             (d, sq) = prepare_send_packet fx (sq_ctx c) rq_data data_sz d;
             (d, sq) = finish_send_packet sq d
         in Some (d, c\<lparr>sq_ctx := sq\<rparr>)))"

definition process_packet_host_ws :: "flexio \<Rightarrow> dpa \<times> random_ctx \<Rightarrow> (dpa \<times> random_ctx) option" where
  "process_packet_host_ws fx = (\<lambda>(d, c).
     let (rq_data, data_sz) = receive_packet fx (mem d) (rqcq_ctx c) (rq_ctx c);
         rq_data_dpa = host_rq_addr_to_dpa_addr rq_data (host_rq_ctx c) in
     Option.bind
       (if data_sz = TARGET_PKT_SIZE then magic_loop (\<lambda>tmp. tmp) (mem d) rq_data_dpa 0 else Some 0)
       (\<lambda>dummy.
         let c = c\<lparr>total_dummy := total_dummy c + dummy\<rparr>;
             d = upd_mem (\<lambda>m. swap_mac m rq_data_dpa) d;
             (d, sq) = prepare_send_packet fx (sq_ctx c) rq_data data_sz d;
             (d, sq) = finish_send_packet_host sq d
         in Some (d, c\<lparr>sq_ctx := sq\<rparr>)))"

definition dpa_refactor_workingset_device_init ::
  "flexio \<Rightarrow> queue_config_data \<Rightarrow> dpa \<times> random_ctx \<Rightarrow> u64 \<times> dpa \<times> random_ctx" where
  "dpa_refactor_workingset_device_init fx shared_data = (\<lambda>(d, c).
     let c = c\<lparr>lkey := wqd_mkey_id (sq_data shared_data),
               host_rq_ctx := (host_rq_ctx c)\<lparr>rq_rkey := wqd_mkey_id (rq_data shared_data),
                                             rq_window_id := new_buffer_mkey_id shared_data,
                                             host_rx_buff := wqd_daddr (rq_data shared_data)\<rparr>,
               rqcq_ctx := init_cq_ws (rq_cq_data shared_data) (rqcq_ctx c),
               rq_ctx := init_rq_ws (rq_data shared_data) (rq_ctx c),
               sqcq_ctx := init_cq_ws (sq_cq_data shared_data) (sqcq_ctx c),
               sq_ctx := init_sq_ws fx (sq_data shared_data) (sq_ctx c)\<rparr>;
         (d, sq) = init_send_sq fx (sq_ctx c) (ucast (LOG2VALUE 7)) (lkey c) d;
         c = c\<lparr>sq_ctx := sq,
               dt_ctx := (dt_ctx c)\<lparr>sq_tx_buff := wqd_daddr (sq_data shared_data),
                                   tx_buff_idx := 0, data_idx_mask := ring_mask 7\<rparr>,
               rq_on_host := daddr_on_host (rq_data shared_data),
               sq_on_host := daddr_on_host (sq_data shared_data),
               is_initalized := 1\<rparr>
     in (0, d, c))"

definition iter_ws :: "u8 \<Rightarrow> flexio \<Rightarrow> dpa \<times> random_ctx \<Rightarrow> (dpa \<times> random_ctx) option" where
  "iter_ws on_host fx s =
     Option.bind (if on_host \<noteq> 0 then process_packet_host_ws fx s else process_packet_ws fx s)
       (\<lambda>(d, c).
         let c = c\<lparr>packets_count := packets_count c + 1\<rparr>;
             d = step_rq fx (rq_ctx c) d;
             (d, cq) = step_cq fx (rqcq_ctx c) d
         in Some (d, c\<lparr>rqcq_ctx := cq\<rparr>))"

definition dpa_refactor_workingset_device_event_handler :: "flexio \<Rightarrow> dpa \<times> random_ctx \<Rightarrow> random_ctx outcome" where
  "dpa_refactor_workingset_device_event_handler fx = (\<lambda>(d, c).
     let dtctx = snd (get_thread_ctx fx); h = host_rq_ctx c in
     if is_initalized c = 0 then Exited (emit Reschedule d) c
     else
       let (buff, d) = (if rq_on_host c \<noteq> 0
                        then get_host_buffer_with_dtctx fx (rq_window_id h) (rq_rkey h) (host_rx_buff h) d
                        else (host_rx_buff h, d));
           c = c\<lparr>host_rq_ctx := h\<lparr>dpa_rx_buff := buff\<rparr>\<rparr>
       in if dtctx \<noteq> 0 then Polling d c
          else Exited (emit Reschedule (emit (Cq_arm (cq_idx (rqcq_ctx c)) (cq_number (rqcq_ctx c)))
                 (emit Thread_fence d))) c)"

interpretation ws_rx: reflecting_loop "iter_ws b" rqcq_ctx sq_ctx for b
  by unfold_locales
    (auto simp: iter_ws_def process_packet_ws_def process_packet_host_ws_def bind_eq_Some_conv
       case_prod_beta Let_def send_simps db_ordered_emit split: if_splits)

text \<open>Concrete data: a 1024-byte packet at \<open>0x3000\<close> and the magic number at \<open>q\<close>.\<close>

definition magic_mem :: "ptr \<Rightarrow> memory" where
  "magic_mem q a =
     (if a = q then 0xfe else if a - q < 8 then 0xff else if a = 0x1002e then 4
      else if a = 0x1002f then 0 else sample_mem a)"

definition sample_random :: random_ctx where
  "sample_random = refactor_ctx.extend sample_refactor \<lparr>total_dummy = 5\<rparr>"

lemma sample_random_simps [simp]:
  "rqcq_ctx sample_random = init_cq_at 7 (rq_cq_data sample_qcd) cq_zero"
  "rq_ctx sample_random = init_rq_at 7 (rq_data sample_qcd) rq_zero"
  "sq_ctx sample_random = init_sq_at sample_fx 7 (sq_data sample_qcd) sq_zero"
  "sq_tx_buff (dt_ctx sample_random) = 0" "total_dummy sample_random = 5"
  by (simp_all add: sample_random_def refactor_ctx.defs sample_refactor_def init_cq_refactor_def
      init_rq_refactor_def init_sq_refactor_def dev_ctx_refactor_def)

lemma magic_mem_loads:
  "load16 (magic_mem 0x3110) 0x1003c = 0" "load32 (magic_mem 0x3110) 0x1002c = 0x40000"
  "load64 (magic_mem 0x3110) 0x20008 = 0x30000000000000" "load64 (magic_mem 0x3110) 0x3100 = 0"
  "load64 (magic_mem 0x3110) 0x3108 = 0" "load64 (magic_mem 0x3110) 0x3110 = MAGIC_NUMBER"
  "load16 (magic_mem 0x3008) 0x1003c = 0" "load32 (magic_mem 0x3008) 0x1002c = 0x40000"
  "load64 (magic_mem 0x3008) 0x20008 = 0x30000000000000" "load64 (magic_mem 0x3008) 0x3000 = 0x0706050403020100"
  "load64 (magic_mem 0x3008) 0x3008 = MAGIC_NUMBER"
  by code_simp+

lemma magic_mem_receive:
  assumes "load16 m 0x1003c = 0" "load32 m 0x1002c = 0x40000" "load64 m 0x20008 = 0x30000000000000"
  shows "receive_packet sample_fx m (init_cq_at n (rq_cq_data sample_qcd) cq) (init_rq_at k (rq_data sample_qcd) rq) = (0x3000, 1024)"
  by (simp add: receive_packet_def sample_fx_def init_cq_at_def init_rq_at_def sample_qcd_def assms
      bswap16_def bswap32_def bswap64_def Let_def)

lemma magic_mem_at: "magic_at (magic_mem 0x3110) 0x3100 2" "magic_at (magic_mem 0x3008) 0x3000 1"
  by (simp_all add: magic_at_def magic_mem_loads upt_rec)

subsection \<open>Properties\<close>

text \<open>
  C21: random access.  A 1024-byte packet is answered if and only if some word from offset 256 on
  is the magic number; then the sum of exactly the array entries named by the words before it
  is added to \<open>total_dummy\<close>, each index reduced below \<open>2^20\<close>, so that every access lies in the
  8 MiB of the send area, and the frame goes back with its addresses exchanged.  With no magic
  number ahead in memory the loop never ends, whatever the packet's length.
\<close>

theorem random_access_packet:
  assumes "receive_packet fx (mem d) (rqcq_ctx c) (rq_ctx c) = (p, TARGET_PKT_SIZE)"
    and "data_seg_sep fx (fst (get_next_data_sqe fx (sq_ctx c))) p n" "14 \<le> n" "n \<le> 2 ^ 64"
  shows "(\<forall>k. magic_at (mem d) (p + 256) k \<longrightarrow>
           (\<exists>d' c'. process_packet_random fx (d, c) = Some (d', c') \<and>
              total_dummy c' = total_dummy c + (\<Sum>i<k. load64 (mem d) (sq_tx_buff (dt_ctx c) +
                of_nat (8 * (unat (load64 (mem d) (p + 256 + 8 * of_nat i)) mod 2 ^ 20)))) \<and>
              load_bytes (mem d') p n = swapped_frame (load_bytes (mem d) p n) \<and>
              posted fx (fst (get_next_data_sqe fx (sq_ctx c))) p TARGET_PKT_SIZE (mem d'))) \<and>
         ((\<forall>k. \<not> magic_at (mem d) (p + 256) k) \<longrightarrow> process_packet_random fx (d, c) = None)"
proof -
  have none: "process_packet_random fx (d, c) = None" if "\<forall>k. \<not> magic_at (mem d) (p + 256) k"
    using that magic_loop_found[of _ "mem d" "p + 256" 0] assms(1)
    by (cases "random_access_loop (mem d) (sq_tx_buff (dt_ctx c)) (p + 256)")
      (auto simp: process_packet_random_def random_access_loop_def)
  show ?thesis
    using none assms(1) prepare_send_packet_mem[OF assms(2,4)] load_bytes_swap_mac[OF assms(3,4)]
    by (auto simp: process_packet_random_def random_access_loop_def magic_loop_returns array_index_random
        case_prod_beta Let_def send_simps)
qed

theorem random_access_packet_witness:
  "\<exists>d' c'. process_packet_random sample_fx (sample_dpa\<lparr>mem := magic_mem 0x3110\<rparr>, sample_random) = Some (d', c') \<and>
     total_dummy c' = 5 + 2 * load64 (magic_mem 0x3110) 0 \<and>
     load_bytes (mem d') 0x3000 64 = swapped_frame (load_bytes (magic_mem 0x3110) 0x3000 64)"
proof -
  let ?d = "sample_dpa\<lparr>mem := magic_mem 0x3110\<rparr>"
  have r: "receive_packet sample_fx (mem ?d) (rqcq_ctx sample_random) (rq_ctx sample_random) = (0x3000, TARGET_PKT_SIZE)"
    by (simp add: magic_mem_receive magic_mem_loads)
  have s: "data_seg_sep sample_fx (fst (get_next_data_sqe sample_fx (sq_ctx sample_random))) 0x3000 64"
    by simp
  have "magic_at (mem ?d) (0x3000 + 256) 2" using magic_mem_at by simp
  with random_access_packet[OF r s] show ?thesis
    by (fastforce simp: numeral_2_eq_2 magic_mem_loads)
qed

text \<open>
  working set.  A 1024-byte packet is answered if and only if some word of memory from the
  packet's start on is the magic number; then the sum, modulo \<open>2^64\<close>, of the words before it is
  added to \<open>total_dummy\<close>, and the frame goes back with its addresses exchanged.
\<close>

lemma workingset_packet:
  assumes "receive_packet fx (mem d) (rqcq_ctx c) (rq_ctx c) = (p, TARGET_PKT_SIZE)"
    and "data_seg_sep fx (fst (get_next_data_sqe fx (sq_ctx c))) p n" "14 \<le> n" "n \<le> 2 ^ 64"
  shows "(\<forall>k. magic_at (mem d) p k \<longrightarrow>
           (\<exists>d' c'. process_packet_ws fx (d, c) = Some (d', c') \<and>
              total_dummy c' = total_dummy c + (\<Sum>i<k. load64 (mem d) (p + 8 * of_nat i)) \<and>
              load_bytes (mem d') p n = swapped_frame (load_bytes (mem d) p n) \<and>
              posted fx (fst (get_next_data_sqe fx (sq_ctx c))) p TARGET_PKT_SIZE (mem d'))) \<and>
         ((\<forall>k. \<not> magic_at (mem d) p k) \<longrightarrow> process_packet_ws fx (d, c) = None)"
proof -
  have none: "process_packet_ws fx (d, c) = None" if "\<forall>k. \<not> magic_at (mem d) p k"
    using that magic_loop_found[of "\<lambda>tmp. tmp" "mem d" p 0] assms(1)
    by (cases "magic_loop (\<lambda>tmp. tmp) (mem d) p 0") (auto simp: process_packet_ws_def)
  show ?thesis
    using none assms(1) prepare_send_packet_mem[OF assms(2,4)] load_bytes_swap_mac[OF assms(3,4)]
    by (auto simp: process_packet_ws_def magic_loop_returns case_prod_beta Let_def send_simps)
qed

end
