(* ===== verification/Kv_Aggregation.thy ===== *)
theory Kv_Aggregation
  imports Sample_Device
begin

text \<open>
  The key-value aggregator \<open>flexio/dpa_kv_aggregation/device/dpa_kv_aggregation_device.c\<close>: every packet
  carries a number of (key, value) pairs, and each value is added to the 32-bit counter
  \<open>key mod 65536\<close> of a table in DPA or host memory.  Nothing is sent back.  Thread 0 measures the
  time of its first five million packets.

  Memory is one address space; the keys of the host window decide whether an access through it has a
  result.
\<close>

subsection \<open>Contexts and initialisation\<close>

abbreviation MAX_THREADS_kv :: nat where "MAX_THREADS_kv \<equiv> 190"
abbreviation entry_size :: u64 where "entry_size \<equiv> 65536"
abbreviation STOP_NUMBER :: u64 where "STOP_NUMBER \<equiv> 5000000"
abbreviation MAX_ELEMENT_NUM :: u64 where "MAX_ELEMENT_NUM \<equiv> 1"

record kv_element =
  kv_key :: u64
  kv_value :: u64

record kv_ctx = dev_base +
  kv_elements_mkey :: u32
  host_rq_ctx :: host_rq_ctx_t
  packets_count :: u32
  rq_on_host :: u8
  sq_on_host :: u8
  thread_id :: u64
  kv_elements :: ptr

record kv_globals =
  global_entry_ptr :: ptr
  is_stop :: u64
  begin_time :: u64

definition dev_ctx_kv :: kv_ctx where
  "dev_ctx_kv =
     \<lparr>is_initalized = 0, rqcq_ctx = cq_zero, sqcq_ctx = cq_zero, rq_ctx = rq_zero, sq_ctx = sq_zero, dt_ctx = dt_zero,
      kv_elements_mkey = 0, host_rq_ctx = host_rq_zero, packets_count = 0, rq_on_host = 0, sq_on_host = 0,
      thread_id = 0, kv_elements = 0\<rparr>"

definition init_cq_kv :: "app_transfer_cq \<Rightarrow> cq_ctx_t \<Rightarrow> cq_ctx_t" where
  "init_cq_kv = init_cq_at 7"

definition init_rq_kv :: "app_transfer_wq \<Rightarrow> rq_ctx_t \<Rightarrow> rq_ctx_t" where
  "init_rq_kv = init_rq_at 7"

definition init_sq_kv :: "flexio \<Rightarrow> app_transfer_wq \<Rightarrow> sq_ctx_t \<Rightarrow> sq_ctx_t" where
  "init_sq_kv fx = init_sq_at fx 7"

definition dpa_kv_aggregation_device_init ::
  "flexio \<Rightarrow> queue_config_data \<Rightarrow> kv_ctx list \<times> kv_globals \<Rightarrow> u64 \<times> kv_ctx list \<times> kv_globals" where
  "dpa_kv_aggregation_device_init fx shared_data = (\<lambda>(dev_ctxs, g).
     let i = unat (thread_index shared_data) in
     if \<not> i < MAX_THREADS_kv then (- 1, dev_ctxs, g)
     else
       let g = (if thread_index shared_data = 0
                then g\<lparr>global_entry_ptr := new_buffer_addr shared_data, is_stop := 0, begin_time := 0\<rparr> else g);
           c = dev_ctxs ! i;
           c = c\<lparr>kv_elements_mkey := wqd_mkey_id (sq_data shared_data),
                 host_rq_ctx := (host_rq_ctx c)\<lparr>rq_rkey := wqd_mkey_id (rq_data shared_data),
                                               rq_window_id := new_buffer_mkey_id shared_data,
                                               host_rx_buff := wqd_daddr (rq_data shared_data)\<rparr>,
                 rqcq_ctx := init_cq_kv (rq_cq_data shared_data) (rqcq_ctx c),
                 rq_ctx := init_rq_kv (rq_data shared_data) (rq_ctx c),
                 sqcq_ctx := init_cq_kv (sq_cq_data shared_data) (sqcq_ctx c),
                 sq_ctx := init_sq_kv fx (sq_data shared_data) (sq_ctx c),
                 dt_ctx := (dt_ctx c)\<lparr>sq_tx_buff := wqd_daddr (sq_data shared_data),
                                     tx_buff_idx := 0, data_idx_mask := ring_mask 7\<rparr>,
                 rq_on_host := daddr_on_host (rq_data shared_data),
                 sq_on_host := daddr_on_host (sq_data shared_data),
                 thread_id := ucast (thread_index shared_data),
                 is_initalized := 1\<rparr>
       in (0, dev_ctxs[i := c], g))"

definition dpa_kv_aggregation_device_stop_time :: "kv_globals \<Rightarrow> u64" where
  "dpa_kv_aggregation_device_stop_time g = (if is_stop g \<noteq> 0 then begin_time g else 0)"

subsection \<open>Packets\<close>

definition load_kv :: "memory \<Rightarrow> ptr \<Rightarrow> kv_element" where
  "load_kv m p = \<lparr>kv_key = load64 m p, kv_value = load64 m (p + 8)\<rparr>"

text \<open>\<open>kv_elements[key % entry_size] += (uint32_t)value\<close>\<close>

definition kv_add :: "ptr \<Rightarrow> kv_element \<Rightarrow> memory \<Rightarrow> memory" where
  "kv_add tbl e m =
     (let a = tbl + 4 * (kv_key e mod entry_size)
      in store32 m a (load32 m a + ucast (kv_value e)))"

text \<open>The loop over the elements of a packet, which reads each element when it needs it.\<close>

fun kv_add_loop :: "ptr \<Rightarrow> nat \<Rightarrow> ptr \<Rightarrow> memory \<Rightarrow> memory" where
  "kv_add_loop tbl 0 elements m = m"
| "kv_add_loop tbl (Suc n) elements m = kv_add_loop tbl n (elements + 16) (kv_add tbl (load_kv m elements) m)"

definition process_packet_kv :: "flexio \<Rightarrow> dpa \<times> kv_ctx \<Rightarrow> dpa \<times> kv_ctx" where
  "process_packet_kv fx = (\<lambda>(d, c).
     let (rq_data, data_sz) = receive_packet fx (mem d) (rqcq_ctx c) (rq_ctx c);
         element_num = load64 (mem d) (rq_data + 56)
     in (upd_mem (kv_add_loop (kv_elements c) (unat element_num) (rq_data + 64)) d, c))"

text \<open>
  A thread has one window onto host memory, which uses the key configured last.  The receive
  area is registered under \<open>host_rq_ctx.rkey\<close>, the table on the host under \<open>kv_elements_mkey\<close>; an access
  through the window under another key has no defined result.
\<close>

fun configured_key :: "event \<Rightarrow> u32 option" where
  "configured_key (Window_config w key) = Some key"
| "configured_key (Window_mkey_config key) = Some key"
| "configured_key _ = None"

definition window_key :: "event list \<Rightarrow> u32 option" where
  "window_key tr = fold (\<lambda>e key. case configured_key e of None \<Rightarrow> key | Some k \<Rightarrow> Some k) tr None"

definition through_window :: "u32 \<Rightarrow> dpa \<Rightarrow> 'a option \<Rightarrow> 'a option" where
  "through_window key d x = (if window_key (trace d) = Some key then x else None)"

text \<open>
  The local array \<open>tmp_element\<close>, whose entries are indeterminate (\<open>None\<close>) at first, and the two loops from index
  \<open>i\<close> on, over \<open>n\<close> more elements.  They do not look at the length of the array: an access past
  its end, or to an entry that is not set, has no defined result.
\<close>

fun copy_elements :: "memory \<Rightarrow> ptr \<Rightarrow> nat \<Rightarrow> nat \<Rightarrow> kv_element option list \<Rightarrow> kv_element option list option" where
  "copy_elements m elements i 0 tmp_element = Some tmp_element"
| "copy_elements m elements i (Suc n) tmp_element =
     (if i < length tmp_element
      then copy_elements m elements (Suc i) n (tmp_element[i := Some (load_kv m (elements + 16 * of_nat i))])
      else None)"

fun add_elements :: "ptr \<Rightarrow> kv_element option list \<Rightarrow> nat \<Rightarrow> nat \<Rightarrow> memory \<Rightarrow> memory option" where
  "add_elements tbl tmp_element i 0 m = Some m"
| "add_elements tbl tmp_element i (Suc n) m =
     (if i < length tmp_element
      then Option.bind (tmp_element ! i) (\<lambda>e. add_elements tbl tmp_element (Suc i) n (kv_add tbl e m))
      else None)"

definition process_packet_host_kv :: "flexio \<Rightarrow> dpa \<times> kv_ctx \<Rightarrow> (dpa \<times> kv_ctx) option" where
  "process_packet_host_kv fx = (\<lambda>(d, c).
     let tmp_element = replicate (unat MAX_ELEMENT_NUM) None;
         (rq_data, data_sz) = receive_packet fx (mem d) (rqcq_ctx c) (rq_ctx c);
         rq_data_dpa = host_rq_addr_to_dpa_addr rq_data (host_rq_ctx c);
         rkey = rq_rkey (host_rq_ctx c);
         d = emit (Window_mkey_config rkey) d;
         elements = rq_data_dpa + 64
     in Option.bind (through_window rkey d (Some (load64 (mem d) (rq_data_dpa + 56)))) (\<lambda>element_num.
        if sq_on_host c \<noteq> 0
        then Option.bind (through_window rkey d (copy_elements (mem d) elements 0 (unat element_num) tmp_element)) (\<lambda>tmp_element.
             let d = emit (Window_mkey_config (kv_elements_mkey c)) d
             in Option.bind (through_window (kv_elements_mkey c) d
                  (add_elements (kv_elements c) tmp_element 0 (unat element_num) (mem d))) (\<lambda>m. Some (d\<lparr>mem := m\<rparr>, c)))
        else through_window rkey d (Some (upd_mem (kv_add_loop (kv_elements c) (unat element_num) elements) d, c))))"

subsection \<open>The event handler\<close>

text \<open>The body of the inner loop, on the context, the globals and the local \<open>pkt_count\<close>.\<close>

definition count_kv :: "flexio \<Rightarrow> u64 \<Rightarrow> dpa \<times> kv_globals \<times> u64 \<Rightarrow> dpa \<times> kv_globals \<times> u64" where
  "count_kv fx index = (\<lambda>(d, g, pkt_count).
     let pkt_count = pkt_count + 1 in
     if pkt_count = STOP_NUMBER \<and> index = 0
     then let (t, d) = read_cycles fx d;
              g = g\<lparr>begin_time := t - begin_time g, is_stop := 1\<rparr>
          in (emit Memory_writeback d, g, pkt_count)
     else (d, g, pkt_count))"

definition iter_kv ::
  "u8 \<Rightarrow> u64 \<Rightarrow> flexio \<Rightarrow> dpa \<times> kv_ctx \<times> kv_globals \<times> u64 \<Rightarrow> (dpa \<times> kv_ctx \<times> kv_globals \<times> u64) option" where
  "iter_kv on_host index fx = (\<lambda>(d, c, g, pkt_count).
     Option.bind (if on_host \<noteq> 0 then process_packet_host_kv fx (d, c) else Some (process_packet_kv fx (d, c)))
       (\<lambda>(d, c).
         let d = step_rq fx (rq_ctx c) d;
             (d, cq) = step_cq fx (rqcq_ctx c) d;
             (d, g, pkt_count) = count_kv fx index (d, g, pkt_count)
         in Some (d, c\<lparr>rqcq_ctx := cq\<rparr>, g, pkt_count)))"

definition dpa_kv_aggregation_device_event_handler ::
  "flexio \<Rightarrow> u64 \<Rightarrow> dpa \<times> kv_ctx list \<times> kv_globals \<Rightarrow> (kv_ctx \<times> kv_globals \<times> u64) outcome option" where
  "dpa_kv_aggregation_device_event_handler fx index = (\<lambda>(d, dev_ctxs, g).
     if \<not> unat index < length dev_ctxs then None
     else
       let c = dev_ctxs ! unat index; dtctx = snd (get_thread_ctx fx); h = host_rq_ctx c in
       if is_initalized c = 0 then Some (Exited (emit Reschedule d) (c, g, 0))
       else
         let (buff, d) = (if rq_on_host c \<noteq> 0
                          then get_host_buffer_with_dtctx fx (rq_window_id h) (rq_rkey h) (host_rx_buff h) d
                          else (host_rx_buff h, d));
             (tbl, d) = (if sq_on_host c \<noteq> 0
                         then get_host_buffer_with_dtctx fx (rq_window_id h) (kv_elements_mkey c) (global_entry_ptr g) d
                         else (global_entry_ptr g, d));
             c = c\<lparr>host_rq_ctx := h\<lparr>dpa_rx_buff := buff\<rparr>, kv_elements := tbl\<rparr>;
             (d, g) = (if index = 0
                       then let (t, d) = read_cycles fx d in (d, g\<lparr>begin_time := t\<rparr>) else (d, g))
         in if dtctx \<noteq> 0 then Some (Polling d (c, g, 0))
            else Some (Exited (emit Reschedule (emit (Cq_arm (cq_idx (rqcq_ctx c)) (cq_number (rqcq_ctx c)))
                   (emit Thread_fence d))) (c, g, 0)))"

subsection \<open>Lemmas\<close>

lemma window_key_snoc [simp]: "window_key (tr @ [Window_mkey_config key]) = Some key"
  by (simp add: window_key_def)

lemma window_key_snoc2 [simp]: "window_key (tr @ [Window_mkey_config key', Window_mkey_config key]) = Some key"
  by (simp add: window_key_def)

lemma process_packet_host_kv_fields:
  assumes "process_packet_host_kv fx (d, c) = Some (d', c')"
  shows "c' = c \<and> db_ordered (trace d') = db_ordered (trace d)"
  using assms
  by (auto simp: process_packet_host_kv_def through_window_def bind_eq_Some_conv case_prod_beta Let_def db_ordered_quiet
      split: if_splits)

interpretation kv_rx: receive_loop "iter_kv b index" "rqcq_ctx \<circ> fst" for b index
  by unfold_locales
    (auto dest!: process_packet_host_kv_fields simp: iter_kv_def process_packet_kv_def count_kv_def bind_eq_Some_conv
       case_prod_beta Let_def db_ordered_quiet split: if_splits)

text \<open>The table, and the elements of a packet.\<close>

definition kv_table :: "memory \<Rightarrow> ptr \<Rightarrow> nat \<Rightarrow> u32" where
  "kv_table m tbl k = load32 m (tbl + of_nat (4 * k))"

definition kv_list :: "memory \<Rightarrow> ptr \<Rightarrow> nat \<Rightarrow> kv_element list" where
  "kv_list m p n = map (\<lambda>i. load_kv m (p + of_nat (16 * i))) [0..<n]"

text \<open>What a list of elements contributes to counter \<open>k\<close>.\<close>

definition kv_sum :: "nat \<Rightarrow> kv_element list \<Rightarrow> u32" where
  "kv_sum k es = (\<Sum>e\<leftarrow>es. if unat (kv_key e) mod 65536 = k then ucast (kv_value e) else 0)"

lemma kv_slot: "tbl + 4 * (x mod entry_size) = tbl + of_nat (4 * (unat x mod 65536))"
proof -
  have "x mod entry_size = of_nat (unat (x mod entry_size))" by simp
  also have "unat (x mod entry_size) = unat x mod 65536" by (simp only: unat_mod_distrib) simp
  finally show ?thesis by simp
qed

lemma kv_slot_sep:
  "i < 65536 \<Longrightarrow> j < 65536 \<Longrightarrow> i \<noteq> j \<Longrightarrow> sep (tbl + of_nat (4 * i)) 4 (tbl + of_nat (4 * j)) 4"
  using sep_offs[of "4 * i" 4 "4 * j" 4 tbl] sep_offs[of "4 * j" 4 "4 * i" 4 tbl] sep_sym
  by (cases "i < j") auto

lemma kv_add_table:
  assumes "k < 65536"
  shows "kv_table (kv_add tbl e m) tbl k =
    kv_table m tbl k + (if unat (kv_key e) mod 65536 = k then ucast (kv_value e) else 0)"
  using assms kv_slot_sep[of "unat (kv_key e) mod 65536" k tbl]
  by (auto simp: kv_table_def kv_add_def Let_def kv_slot mem_simps simp del: of_nat_mult)

lemma kv_add_outside:
  assumes "\<not> inside a tbl 262144"
  shows "kv_add tbl e m a = m a"
proof -
  let ?i = "unat (kv_key e) mod 65536"
  have "4 * ?i + 4 \<le> 262144" by simp
  then have "\<not> inside a (tbl + of_nat (4 * ?i)) 4"
    using assms by (subst inside_at) (auto simp: inside_def)
  then show ?thesis by (simp add: kv_add_def Let_def kv_slot store_le_outside del: of_nat_mult)
qed

lemma fold_kv_add_outside: "\<not> inside a tbl 262144 \<Longrightarrow> fold (kv_add tbl) es m a = m a"
  by (induction es arbitrary: m) (simp_all add: kv_add_outside)

lemma fold_kv_add_table:
  "k < 65536 \<Longrightarrow> kv_table (fold (kv_add tbl) es m) tbl k = kv_table m tbl k + kv_sum k es"
  by (induction es arbitrary: m) (simp_all add: kv_add_table kv_sum_def)

lemma load_kv_cong:
  assumes "\<And>i. i < 16 \<Longrightarrow> m (p + of_nat i) = m' (p + of_nat i)"
  shows "load_kv m p = load_kv m' p"
proof -
  have "load64 m p = load64 m' p" using assms by (intro load_le_cong) simp
  moreover have "load64 m (p + 8) = load64 m' (p + 8)"
    using assms[of "8 + i" for i] by (intro load_le_cong) (simp add: add.assoc)
  ultimately show ?thesis by (simp add: load_kv_def)
qed

lemma kv_list_cong:
  assumes "sep tbl 262144 p (16 * n)" "16 * n \<le> 2 ^ 64" "\<And>a. \<not> inside a tbl 262144 \<Longrightarrow> m' a = m a"
  shows "kv_list m' p n = kv_list m p n"
proof -
  have "load_kv m' (p + of_nat (16 * i)) = load_kv m (p + of_nat (16 * i))" if "i < n" for i
  proof (rule load_kv_cong)
    fix j :: nat assume "j < 16"
    with that have "\<not> inside (p + of_nat (16 * i + j)) tbl 262144"
      using assms(1,2) by (intro sep_off[of tbl 262144 p "16 * n"]) auto
    with assms(3) show "m' (p + of_nat (16 * i) + of_nat j) = m (p + of_nat (16 * i) + of_nat j)"
      by (simp add: add.assoc)
  qed
  then show ?thesis by (simp add: kv_list_def)
qed

lemma kv_list_Suc: "kv_list m p (Suc n) = load_kv m p # kv_list m (p + 16) n"
proof -
  have "[0..<Suc n] = 0 # map Suc [0..<n]" by (simp add: map_Suc_upt upt_conv_Cons del: upt_Suc)
  then show ?thesis by (simp add: kv_list_def add.assoc del: upt_Suc)
qed

text \<open>Reading the elements one by one or all beforehand is the same when they lie outside the table.\<close>

lemma kv_add_loop_fold:
  assumes "sep tbl 262144 p (16 * n)" "16 * n \<le> 2 ^ 64"
  shows "kv_add_loop tbl n p m = fold (kv_add tbl) (kv_list m p n) m"
  using assms
proof (induction n arbitrary: p m)
  case 0
  then show ?case by (simp add: kv_list_def)
next
  case (Suc n)
  have s: "n = 0 \<or> sep tbl 262144 (p + 16) (16 * n)"
    using sep_sub2[OF Suc.prems(1), of 16 "16 * n"] Suc.prems(2) by auto
  show ?case
  proof (cases "n = 0")
    case True
    then show ?thesis by (simp add: kv_list_def)
  next
    case False
    with s have s: "sep tbl 262144 (p + 16) (16 * n)" by simp
    have "kv_list (kv_add tbl (load_kv m p) m) (p + 16) n = kv_list m (p + 16) n"
      using s Suc.prems by (intro kv_list_cong kv_add_outside) auto
    with Suc.IH[OF s] Suc.prems show ?thesis by (simp add: kv_list_Suc)
  qed
qed

lemma kv_table_cong:
  assumes "\<And>a. inside a tbl 262144 \<Longrightarrow> m a = m' a" "k < 65536"
  shows "kv_table m tbl k = kv_table m' tbl k"
  unfolding kv_table_def
proof (rule load_le_cong)
  fix i :: nat assume "i < 4"
  with assms(2) have "inside (tbl + of_nat (4 * k + i)) tbl 262144" by (intro inside_off) auto
  with assms(1) show "m (tbl + of_nat (4 * k) + of_nat i) = m' (tbl + of_nat (4 * k) + of_nat i)"
    by (simp add: add.assoc)
qed

text \<open>Copying to the local array and adding from it.\<close>

lemma copy_elements_eq:
  "i \<le> length tmp \<Longrightarrow> copy_elements m p i n tmp =
     (if i + n \<le> length tmp then Some (take i tmp @ map (\<lambda>j. Some (load_kv m (p + 16 * of_nat j))) [i..<i + n] @ drop (i + n) tmp)
      else None)"
proof (induction n arbitrary: i tmp)
  case (Suc n)
  have "take (Suc i) (tmp[i := x]) = take i tmp @ [x]" if "i < length tmp" for x
    using that by (simp add: take_Suc_conv_app_nth)
  moreover have "[i..<Suc (i + n)] = i # [Suc i..<Suc (i + n)]" by (simp add: upt_conv_Cons del: upt_Suc)
  ultimately show ?case using Suc.IH[of "Suc i" "tmp[i := x]" for x] Suc.prems by (simp del: upt_Suc)
qed simp

lemma add_elements_eq:
  "map Some es = take n (drop i tmp) \<Longrightarrow> length es = n \<Longrightarrow> add_elements tbl tmp i n m = Some (fold (kv_add tbl) es m)"
proof (induction n arbitrary: i es m)
  case (Suc n)
  then obtain e es' where es: "es = e # es'" by (cases es) auto
  have i: "i < length tmp" using Suc.prems by (metis drop_eq_Nil2 length_0_conv length_map nat.distinct(1) not_less take_Nil)
  with Suc.prems have "tmp ! i = Some e" "map Some es' = take n (drop (Suc i) tmp)" "length es' = n"
    by (auto simp: es Cons_nth_drop_Suc[OF i, symmetric])
  with Suc.IH[of es' "Suc i"] i show ?case by (simp add: es)
qed simp

lemma copy_add_elements:
  assumes "n \<le> 1"
  shows "\<exists>tmp. copy_elements m p 0 n (replicate (unat MAX_ELEMENT_NUM) None) = Some tmp \<and>
    add_elements tbl tmp 0 n m' = Some (fold (kv_add tbl) (kv_list m p n) m')"
proof -
  let ?tmp = "map (\<lambda>j. Some (load_kv m (p + 16 * of_nat j))) [0..<n] @ drop n (replicate (unat MAX_ELEMENT_NUM) None)"
  have "copy_elements m p 0 n (replicate (unat MAX_ELEMENT_NUM) None) = Some ?tmp" using assms by (simp add: copy_elements_eq)
  moreover have "add_elements tbl ?tmp 0 n m' = Some (fold (kv_add tbl) (kv_list m p n) m')"
    by (rule add_elements_eq) (simp_all add: kv_list_def)
  ultimately show ?thesis by blast
qed

text \<open>One turn of the loop with the packets in DPA memory.\<close>

lemma iter_kv_table:
  assumes "receive_packet fx (mem d) (rqcq_ctx c) (rq_ctx c) = (p, len)" "n = unat (load64 (mem d) (p + 56))"
    and "sep (kv_elements c) 262144 (p + 64) (16 * n)" "16 * n \<le> 2 ^ 64"
    and "dbr_local fx" "sep (kv_elements c) 262144 (rq_dbr (rq_ctx c)) 4" "sep (kv_elements c) 262144 (cq_dbr (rqcq_ctx c)) 4"
    and "iter_kv 0 index fx (d, c, g, k) = Some (d', c', g', k')" "j < 65536"
  shows "kv_table (mem d') (kv_elements c) j =
           kv_table (mem d) (kv_elements c) j + kv_sum j (kv_list (mem d) (p + 64) n)"
proof -
  let ?tbl = "kv_elements c" and ?m = "fold (kv_add (kv_elements c)) (kv_list (mem d) (p + 64) n) (mem d)"
  have "mem d' a = ?m a" if "inside a ?tbl 262144" for a
  proof -
    have o: "\<not> inside a (rq_dbr (rq_ctx c)) 4" "\<not> inside a (cq_dbr (rqcq_ctx c)) 4"
      using sep_outside that assms(6,7) by blast+
    show ?thesis
      using assms(1-4,8) o
      by (auto simp: iter_kv_def process_packet_kv_def count_kv_def case_prod_beta Let_def kv_add_loop_fold
          step_mem_outside[OF assms(5)] split: if_splits)
  qed
  then show ?thesis
    using kv_table_cong[of ?tbl "mem d'" ?m j] assms(9) by (simp add: fold_kv_add_table)
qed

lemma iter_kv_fields:
  assumes "iter_kv b index fx (d, c, g, k) = Some (d', c', g', k')"
  shows "kv_elements c' = kv_elements c" "rq_ctx c' = rq_ctx c" "rqcq_ctx c' = next_cq fx (rqcq_ctx c)"
    "k' = k + 1"
  using assms
  by (auto dest!: process_packet_host_kv_fields simp: iter_kv_def process_packet_kv_def count_kv_def bind_eq_Some_conv
      case_prod_beta Let_def split: if_splits)

text \<open>
  Runs of a thread with its packets in DPA memory, and the elements it has consumed.  The
  card may write anything but the table; a packet's elements lie outside the table.
\<close>

inductive kv_run ::
  "flexio \<Rightarrow> u64 \<Rightarrow> dpa \<times> kv_ctx \<times> kv_globals \<times> u64 \<Rightarrow> kv_element list \<Rightarrow> dpa \<times> kv_ctx \<times> kv_globals \<times> u64 \<Rightarrow> bool"
  for fx index s where
  kv_start: "kv_run fx index s [] s"
| kv_card: "kv_run fx index s es (d, c, x) \<Longrightarrow> (\<And>a. inside a (kv_elements c) 262144 \<Longrightarrow> m a = mem d a) \<Longrightarrow>
     kv_run fx index s es (d\<lparr>mem := m\<rparr>, c, x)"
| kv_turn: "kv_run fx index s es (d, c, x) \<Longrightarrow> cqe_ready fx (mem d) (rqcq_ctx c) \<Longrightarrow>
     receive_packet fx (mem d) (rqcq_ctx c) (rq_ctx c) = (p, len) \<Longrightarrow> n = unat (load64 (mem d) (p + 56)) \<Longrightarrow>
     sep (kv_elements c) 262144 (p + 64) (16 * n) \<Longrightarrow> 16 * n \<le> 2 ^ 64 \<Longrightarrow>
     iter_kv 0 index fx (d, c, x) = Some t \<Longrightarrow> kv_run fx index s (es @ kv_list (mem d) (p + 64) n) t"

lemma kv_sum_append [simp]: "kv_sum k (xs @ ys) = kv_sum k xs + kv_sum k ys"
  by (simp add: kv_sum_def)

lemma kv_run_table:
  assumes "kv_run fx index s es t" "dbr_local fx" "tbl = kv_elements (fst (snd s))"
    and "sep tbl 262144 (rq_dbr (rq_ctx (fst (snd s)))) 4" "sep tbl 262144 (cq_dbr (rqcq_ctx (fst (snd s)))) 4" "j < 65536"
  shows "kv_table (mem (fst t)) tbl j = kv_table (mem (fst s)) tbl j + kv_sum j es \<and>
    kv_elements (fst (snd t)) = tbl \<and> rq_dbr (rq_ctx (fst (snd t))) = rq_dbr (rq_ctx (fst (snd s))) \<and>
    cq_dbr (rqcq_ctx (fst (snd t))) = cq_dbr (rqcq_ctx (fst (snd s)))"
  using assms(1)
proof induction
  case kv_start
  then show ?case using assms(3) by (simp add: kv_sum_def)
next
  case (kv_card es d c x m)
  then have "kv_table m tbl j = kv_table (mem d) tbl j" using assms(6) by (intro kv_table_cong) simp_all
  with kv_card show ?case by simp
next
  case (kv_turn es d c x p len n t)
  obtain g k where x: "x = (g, k)" by (rule prod.exhaust)
  obtain d' c' g' k' where t: "t = (d', c', g', k')" by (metis prod_cases4)
  have it: "iter_kv 0 index fx (d, c, g, k) = Some (d', c', g', k')" using kv_turn.hyps(7) by (simp add: x t)
  have "kv_table (mem d') tbl j = kv_table (mem d) tbl j + kv_sum j (kv_list (mem d) (p + 64) n)"
    using iter_kv_table[OF kv_turn.hyps(3-6) assms(2) _ _ it assms(6)] kv_turn.IH assms(4,5) by simp
  with kv_turn.IH iter_kv_fields[OF it] show ?case by (simp add: t)
qed

lemma count_kv_thread0:
  "snd (snd (count_kv fx 0 (d, g, k))) = k + 1"
  "is_stop (fst (snd (count_kv fx 0 (d, g, k)))) = (if k + 1 = STOP_NUMBER then 1 else is_stop g)"
  "begin_time (fst (snd (count_kv fx 0 (d, g, k)))) =
     (if k + 1 = STOP_NUMBER then thread_cycles fx (clk d) - begin_time g else begin_time g)"
  by (simp_all add: count_kv_def case_prod_beta Let_def)

definition kv_timed :: "flexio \<Rightarrow> u64 \<Rightarrow> nat \<Rightarrow> kv_ctx \<times> kv_globals \<times> u64 \<Rightarrow> bool" where
  "kv_timed fx t0 n = (\<lambda>(c, g, k). n < 2 ^ 64 \<longrightarrow> k = of_nat n \<and>
     (if n < 5000000 then is_stop g = 0 \<and> begin_time g = t0
      else is_stop g = 1 \<and> (\<exists>i. begin_time g = thread_cycles fx i - t0)))"

lemma kv_timed_step:
  assumes "iter_kv b 0 fx (d, c, g, k) = Some (d', c', g', k')" "kv_timed fx t0 n (c, g, k)"
  shows "kv_timed fx t0 (Suc n) (c', g', k')"
proof -
  obtain d1 where cnt: "g' = fst (snd (count_kv fx 0 (d1, g, k)))" "k' = k + 1"
    using assms(1) by (auto simp: iter_kv_def bind_eq_Some_conv case_prod_beta Let_def count_kv_thread0)
  show ?thesis
  proof (cases "Suc n < 2 ^ 64")
    case True
    then have k: "k = of_nat n" using assms(2) by (simp add: kv_timed_def)
    have "unat (of_nat (Suc n) :: u64) = Suc n" using True by (simp only: unat_of_nat) (simp add: take_bit_nat_eq_self)
    moreover have "(k + 1 = STOP_NUMBER) = (unat (of_nat (Suc n) :: u64) = unat STOP_NUMBER)"
      unfolding word_unat_eq_iff k by (simp add: add.commute)
    ultimately have "(k + 1 = STOP_NUMBER) = (Suc n = 5000000)" by simp
    with assms(2) True k show ?thesis
      by (auto simp: kv_timed_def cnt count_kv_thread0 split: if_splits)
  qed (simp add: kv_timed_def)
qed

lemma kv_timed_run:
  assumes "rx_run fx (iter_kv b 0 fx) (rqcq_ctx \<circ> fst) s n t" "kv_timed fx t0 0 (snd s)"
  shows "kv_timed fx t0 n (snd t)"
proof (rule rx_run_inv[OF assms(1), where P = "kv_timed fx t0"])
  fix n s t assume "iter_kv b 0 fx s = Some t" "kv_timed fx t0 n (snd s)"
  then show "kv_timed fx t0 (Suc n) (snd t)"
    by (cases s rule: prod_cases4; cases t rule: prod_cases4) (simp add: kv_timed_step)
qed (rule assms(2))

lemma iter_kv_total: "\<exists>d' c' g' k'. iter_kv 0 index fx s = Some (d', c', g', k')"
  by (cases s rule: prod_cases4) (simp add: iter_kv_def Let_def split: prod.split)

text \<open>Concrete data: one packet at \<open>0x3000\<close> with the single element (3, 7); the table is at \<open>0x100000\<close>.\<close>

definition kv_mem :: memory where
  "kv_mem a = (if a = 0x3038 then 1 else if a = 0x3040 then 3 else if a = 0x3048 then 7
     else if 0x3000 \<le> a \<and> a < 0x3050 then 0 else sample_mem a)"

definition sample_kv :: kv_ctx where
  "sample_kv = dev_ctx_kv
     \<lparr>is_initalized := 1, rqcq_ctx := init_cq_kv (rq_cq_data sample_qcd) cq_zero,
      rq_ctx := init_rq_kv (rq_data sample_qcd) rq_zero, kv_elements := 0x100000,
      host_rq_ctx := \<lparr>rq_rkey = 9, rq_window_id = 1, host_rx_buff = 0x3000, dpa_rx_buff = 0x3000\<rparr>, sq_on_host := 1\<rparr>"

definition sample_kv_globals :: kv_globals where
  "sample_kv_globals = \<lparr>global_entry_ptr = 0x100000, is_stop = 0, begin_time = 0\<rparr>"

lemma sample_kv_simps [simp]:
  "rqcq_ctx sample_kv = init_cq_at 7 (rq_cq_data sample_qcd) cq_zero"
  "rq_ctx sample_kv = init_rq_at 7 (rq_data sample_qcd) rq_zero" "kv_elements sample_kv = 0x100000"
  "host_rx_buff (host_rq_ctx sample_kv) = 0x3000" "dpa_rx_buff (host_rq_ctx sample_kv) = 0x3000" "sq_on_host sample_kv = 1"
  "rq_dbr (init_rq_at 7 (rq_data sample_qcd) rq_zero) = 0x4010" "cq_dbr (init_cq_at 7 (rq_cq_data sample_qcd) cq_zero) = 0x4000"
  by (simp_all add: sample_kv_def init_cq_kv_def init_rq_kv_def init_rq_at_def init_cq_at_def sample_qcd_def)

lemma kv_mem_loads:
  "load16 kv_mem 0x1003c = 0" "load32 kv_mem 0x1002c = 0x40000000" "load64 kv_mem 0x20008 = 0x30000000000000"
  "load64 kv_mem 0x3038 = 1" "load64 kv_mem 0x3040 = 3" "load64 kv_mem 0x3048 = 7" "kv_mem 0x1003f = 0"
  by code_simp+

lemma kv_mem_receive [simp]:
  "receive_packet sample_fx kv_mem (init_cq_at n (rq_cq_data sample_qcd) cq) (init_rq_at k (rq_data sample_qcd) rq) = (0x3000, 64)"
  by (simp add: receive_packet_def sample_fx_def init_cq_at_def init_rq_at_def sample_qcd_def kv_mem_loads
      bswap16_def bswap32_def bswap64_def Let_def)

lemma kv_mem_ready: "cqe_ready sample_fx kv_mem (init_cq_at n (rq_cq_data sample_qcd) cq)"
  by (simp add: cqe_ready_def) (simp add: sample_fx_def kv_mem_loads)

lemma kv_mem_list: "kv_list kv_mem 0x3040 1 = [\<lparr>kv_key = 3, kv_value = 7\<rparr>]"
  by (simp add: kv_list_def load_kv_def kv_mem_loads)

subsection \<open>Properties\<close>

text \<open>
  C5: aggregation.  Over any run of a thread with its packets in DPA memory, in which the card does
  not write the table, each of the 65536 counters has grown by exactly the sum, modulo
  \<open>2^32\<close>, of the values of the elements consumed so far whose key is congruent to its index.
\<close>

theorem kv_run_aggregates:
  assumes "kv_run fx index (d, c, g, k) es (d', c', g', k')" "dbr_local fx"
    and "sep (kv_elements c) 262144 (rq_dbr (rq_ctx c)) 4" "sep (kv_elements c) 262144 (cq_dbr (rqcq_ctx c)) 4"
  shows "\<forall>j < 65536. kv_table (mem d') (kv_elements c) j = kv_table (mem d) (kv_elements c) j + kv_sum j es"
  using kv_run_table[OF assms(1,2) refl] assms(3,4) by simp

theorem kv_run_aggregates_witness:
  "\<exists>d' c' g' k'. kv_run sample_fx 0 (sample_dpa\<lparr>mem := kv_mem\<rparr>, sample_kv, sample_kv_globals, 0)
       [\<lparr>kv_key = 3, kv_value = 7\<rparr>] (d', c', g', k') \<and>
     kv_table (mem d') 0x100000 3 = kv_table kv_mem 0x100000 3 + 7 \<and>
     kv_table (mem d') 0x100000 4 = kv_table kv_mem 0x100000 4"
proof -
  let ?d = "sample_dpa\<lparr>mem := kv_mem\<rparr>" and ?s = "(sample_dpa\<lparr>mem := kv_mem\<rparr>, sample_kv, sample_kv_globals, 0)"
  obtain d' c' g' k' where it: "iter_kv 0 0 sample_fx ?s = Some (d', c', g', k')"
    using iter_kv_total by blast
  have "kv_run sample_fx 0 ?s ([] @ kv_list (mem ?d) (0x3000 + 64) (unat (load64 (mem ?d) (0x3000 + 56)))) (d', c', g', k')"
    by (rule kv_turn[OF kv_start _ _ refl _ _ it])
      (simp_all add: kv_mem_ready kv_mem_loads sep_def)
  then have r: "kv_run sample_fx 0 ?s [\<lparr>kv_key = 3, kv_value = 7\<rparr>] (d', c', g', k')"
    by (simp add: kv_mem_loads kv_mem_list[simplified])
  have "\<forall>j < 65536. kv_table (mem d') 0x100000 j = kv_table kv_mem 0x100000 j + kv_sum j [\<lparr>kv_key = 3, kv_value = 7\<rparr>]"
    using kv_run_aggregates[OF r] by (simp add: sep_def)
  then have "kv_table (mem d') 0x100000 3 = kv_table kv_mem 0x100000 3 + 7"
    "kv_table (mem d') 0x100000 4 = kv_table kv_mem 0x100000 4"
    by (simp_all add: kv_sum_def)
  with r show ?thesis by blast
qed

text \<open>
  time measurement.  In thread 0, after \<open>n\<close> packets the stop-time call returns 0 while \<open>n\<close> is
  below five million, and from the five-millionth packet on the difference between a later
  reading of the cycle counter and the one taken when the handler started.
\<close>

lemma kv_stop_time:
  assumes "rx_run fx (iter_kv b 0 fx) (rqcq_ctx \<circ> fst) (d, c, g, 0) n (d', c', g', k')"
    and "is_stop g = 0" "n < 2 ^ 64"
  shows "(n < 5000000 \<longrightarrow> dpa_kv_aggregation_device_stop_time g' = 0) \<and>
         (5000000 \<le> n \<longrightarrow> (\<exists>i. dpa_kv_aggregation_device_stop_time g' = thread_cycles fx i - begin_time g))"
proof -
  have "kv_timed fx (begin_time g) n (snd (d', c', g', k'))"
    using assms(2) by (intro kv_timed_run[OF assms(1)]) (simp add: kv_timed_def)
  with assms(3) show ?thesis
    by (auto simp: kv_timed_def dpa_kv_aggregation_device_stop_time_def)
qed

text \<open>
  C22: packets on the host.  The element count comes from the packet, and only a table on the host makes
  the code copy the elements first, to a local array of one entry: a packet with more than one
  element then overruns the array.  In every other case (at most one element, or a table in DPA memory, from which the
  elements are apart) the packet is aggregated: each counter grows by the sum, modulo \<open>2^32\<close>, of the
  values of its elements, nothing else in memory changes, and the window is switched to the key of the receive
  area before the packet is read and, for a table on the host, to the key of the table between the last
  read of the packet and the first access to the table.
\<close>

theorem kv_host_copy:
  assumes "receive_packet fx (mem d) (rqcq_ctx c) (rq_ctx c) = (host_rx_buff (host_rq_ctx c) + off, len)"
    and "p = dpa_rx_buff (host_rq_ctx c) + off" "n = unat (load64 (mem d) (p + 56))"
    and "sq_on_host c = 0 \<Longrightarrow> sep (kv_elements c) 262144 (p + 64) (16 * n) \<and> 16 * n \<le> 2 ^ 64"
  shows "if sq_on_host c \<noteq> 0 \<and> 1 < n then process_packet_host_kv fx (d, c) = None
         else \<exists>d'. process_packet_host_kv fx (d, c) = Some (d', c) \<and>
            (\<forall>j < 65536. kv_table (mem d') (kv_elements c) j =
               kv_table (mem d) (kv_elements c) j + kv_sum j (kv_list (mem d) (p + 64) n)) \<and>
            (\<forall>a. \<not> inside a (kv_elements c) 262144 \<longrightarrow> mem d' a = mem d a) \<and>
            trace d' = trace d @ Window_mkey_config (rq_rkey (host_rq_ctx c)) #
              (if sq_on_host c \<noteq> 0 then [Window_mkey_config (kv_elements_mkey c)] else [])"
proof -
  let ?m = "fold (kv_add (kv_elements c)) (kv_list (mem d) (p + 64) n) (mem d)"
  note defs = process_packet_host_kv_def Let_def host_rq_addr_off through_window_def assms(1) assms(2)[symmetric] assms(3)[symmetric]
  consider (over) "sq_on_host c \<noteq> 0" "1 < n" | (host) "sq_on_host c \<noteq> 0" "n \<le> 1" | (dpa) "sq_on_host c = 0" by linarith
  then show ?thesis
  proof cases
    case over
    then show ?thesis by (simp add: defs copy_elements_eq)
  next
    case host
    obtain tmp where "copy_elements (mem d) (p + 64) 0 n (replicate (unat MAX_ELEMENT_NUM) None) = Some tmp"
      "add_elements (kv_elements c) tmp 0 n (mem d) = Some ?m" using copy_add_elements[OF host(2)] by blast
    with host show ?thesis by (simp add: defs fold_kv_add_table fold_kv_add_outside)
  next
    case dpa
    then have "kv_add_loop (kv_elements c) n (p + 64) (mem d) = ?m" using assms(4) by (intro kv_add_loop_fold) simp_all
    with dpa show ?thesis by (simp add: defs fold_kv_add_table fold_kv_add_outside)
  qed
qed

theorem kv_host_copy_witness:
  "\<exists>d'. process_packet_host_kv sample_fx (sample_dpa\<lparr>mem := kv_mem\<rparr>, sample_kv) = Some (d', sample_kv) \<and>
     kv_table (mem d') 0x100000 3 = kv_table kv_mem 0x100000 3 + 7"
proof -
  let ?d = "sample_dpa\<lparr>mem := kv_mem\<rparr>"
  have r: "receive_packet sample_fx (mem ?d) (rqcq_ctx sample_kv) (rq_ctx sample_kv) =
      (host_rx_buff (host_rq_ctx sample_kv) + 0, 64)"
    and p: "0x3000 = dpa_rx_buff (host_rq_ctx sample_kv) + 0"
    and n: "1 = unat (load64 (mem ?d) (0x3000 + 56))"
    by (simp_all add: kv_mem_loads)
  from kv_host_copy[OF r p n] obtain d' where
    d: "process_packet_host_kv sample_fx (?d, sample_kv) = Some (d', sample_kv)"
    "\<forall>j < 65536. kv_table (mem d') (kv_elements sample_kv) j =
       kv_table (mem ?d) (kv_elements sample_kv) j + kv_sum j (kv_list (mem ?d) (0x3000 + 64) 1)" by auto
  from spec[OF d(2), of 3] have "kv_table (mem d') 0x100000 3 = kv_table kv_mem 0x100000 3 + kv_sum 3 (kv_list kv_mem 0x3040 1)"
    by (simp del: One_nat_def)
  then have "kv_table (mem d') 0x100000 3 = kv_table kv_mem 0x100000 3 + 7"
    unfolding kv_mem_list by (simp add: kv_sum_def)
  with d(1) show ?thesis by blast
qed

end
