(* ===== verification/Network_Function.thy ===== *)
theory Network_Function
  imports Refactor_Mt
begin

text \<open>
  The network-function program \<open>flexio/dpa_network_function/device/dpa_network_function_device.c\<close>: a
  multi-threaded reflector, with per-packet functions (hashing, flow classification, address
  rewriting, header checking) that its packet routines can be built with; in the source the
  calls are commented out.

  \<open>char\<close> is unsigned on the DPA (RISC-V), so a byte that enters a hash is zero-extended.
\<close>

subsection \<open>Contexts and initialisation\<close>

abbreviation CLASSIFIC_NUMBER :: u64 where "CLASSIFIC_NUMBER \<equiv> 102400"

record nf_ctx = refactor_ctx +
  total_cycles :: u64
  total_cnt :: u64
  thread_id :: u64

definition init_cq_nf :: "app_transfer_cq \<Rightarrow> cq_ctx_t \<Rightarrow> cq_ctx_t" where
  "init_cq_nf = init_cq_at 7"

definition init_rq_nf :: "app_transfer_wq \<Rightarrow> rq_ctx_t \<Rightarrow> rq_ctx_t" where
  "init_rq_nf = init_rq_at 7"

definition init_sq_nf :: "flexio \<Rightarrow> app_transfer_wq \<Rightarrow> sq_ctx_t \<Rightarrow> sq_ctx_t" where
  "init_sq_nf fx = init_sq_at fx 7"

definition dpa_network_function_device_init ::
  "flexio \<Rightarrow> queue_config_data \<Rightarrow> dpa \<times> nf_ctx list \<Rightarrow> u64 \<times> dpa \<times> nf_ctx list" where
  "dpa_network_function_device_init fx shared_data = (\<lambda>(d, dev_ctxs).
     let i = unat (thread_index shared_data) in
     if \<not> i < MAX_THREADS_mt then (- 1, d, dev_ctxs)
     else
       let c = dev_ctxs ! i;
           c = c\<lparr>lkey := wqd_mkey_id (sq_data shared_data),
                 host_rq_ctx := (host_rq_ctx c)\<lparr>rq_rkey := wqd_mkey_id (rq_data shared_data),
                                               rq_window_id := new_buffer_mkey_id shared_data,
                                               host_rx_buff := wqd_daddr (rq_data shared_data)\<rparr>,
                 rqcq_ctx := init_cq_nf (rq_cq_data shared_data) (rqcq_ctx c),
                 rq_ctx := init_rq_nf (rq_data shared_data) (rq_ctx c),
                 sqcq_ctx := init_cq_nf (sq_cq_data shared_data) (sqcq_ctx c),
                 sq_ctx := init_sq_nf fx (sq_data shared_data) (sq_ctx c)\<rparr>;
           (d, sq) = init_send_sq fx (sq_ctx c) (ucast (LOG2VALUE 7)) (lkey c) d;
           c = c\<lparr>sq_ctx := sq,
                 dt_ctx := (dt_ctx c)\<lparr>sq_tx_buff := wqd_daddr (sq_data shared_data),
                                     tx_buff_idx := 0, data_idx_mask := ring_mask 7\<rparr>,
                 rq_on_host := daddr_on_host (rq_data shared_data),
                 sq_on_host := daddr_on_host (sq_data shared_data),
                 thread_id := ucast (thread_index shared_data),
                 is_initalized := 1\<rparr>
       in (0, d, dev_ctxs[i := c]))"

subsection \<open>Hashes\<close>

fun RSHash_loop :: "memory \<Rightarrow> ptr \<Rightarrow> nat \<Rightarrow> u32 \<Rightarrow> u32 \<Rightarrow> u32" where
  "RSHash_loop m str 0 a hash = hash"
| "RSHash_loop m str (Suc n) a hash = RSHash_loop m (str + 1) n (a * 378551) (hash * a + ucast (m str))"

definition RSHash :: "memory \<Rightarrow> ptr \<Rightarrow> u32 \<Rightarrow> u32" where
  "RSHash m str len = RSHash_loop m str (unat len) 63689 0"

fun JSHash_loop :: "memory \<Rightarrow> ptr \<Rightarrow> nat \<Rightarrow> u32 \<Rightarrow> u32" where
  "JSHash_loop m str 0 hash = hash"
| "JSHash_loop m str (Suc n) hash =
     JSHash_loop m (str + 1) n (hash XOR (push_bit 5 hash + ucast (m str) + drop_bit 2 hash))"

definition JSHash :: "memory \<Rightarrow> ptr \<Rightarrow> u32 \<Rightarrow> u32" where
  "JSHash m str len = JSHash_loop m str (unat len) 1315423911"

subsection \<open>Per-packet functions\<close>

text \<open>
  \<open>classific_counter[10][102400]\<close> is a function of the thread index and the class.  The local
  \<open>total_tuple_number\<close> is hashed through its address: it is the four bytes at \<open>tuple_ptr\<close>, the
  address the compiler gave it.  A thread index outside the array has no defined result.
\<close>

definition tuple_number :: "memory \<Rightarrow> ptr \<Rightarrow> u32" where
  "tuple_number m data =
     0 + load32 m (data + off_ip_dst) + load32 m (data + off_ip_src) +
     ucast (load16 m (data + off_dst_port)) + ucast (load16 m (data + off_src_port))"

definition classific_hash ::
  "ptr \<Rightarrow> ptr \<Rightarrow> u64 \<Rightarrow> memory \<times> (nat \<Rightarrow> nat \<Rightarrow> u64) \<Rightarrow> (memory \<times> (nat \<Rightarrow> nat \<Rightarrow> u64)) option" where
  "classific_hash tuple_ptr data thread_idx = (\<lambda>(m, classific_counter).
     if \<not> unat thread_idx < 10 then None
     else
       let m = store32 m tuple_ptr (tuple_number m data);
           hash_value = ucast (JSHash m tuple_ptr 4) :: u64;
           t = unat thread_idx; k = unat (hash_value mod CLASSIFIC_NUMBER)
       in Some (m, classific_counter(t := (classific_counter t)(k := classific_counter t k + 1))))"

definition udp_shift_updating :: "ptr \<Rightarrow> memory \<Rightarrow> memory" where
  "udp_shift_updating data m =
     (let m = store32 m (data + off_ip_dst) (load32 m (data + off_ip_dst) + 1);
          m = store32 m (data + off_ip_src) (load32 m (data + off_ip_src) + 1);
          m = store16 m (data + off_dst_port) (load16 m (data + off_dst_port) + 1)
      in store16 m (data + off_src_port) (load16 m (data + off_src_port) + 1))"

definition check_ipheader :: "flexio \<Rightarrow> ptr \<Rightarrow> memory \<Rightarrow> u64 \<times> memory" where
  "check_ipheader fx data m =
     (let m = (if m (data + off_version_ihl) \<noteq> 0x45 then m(data + off_version_ihl := 0x45) else m);
          m = (if m (data + off_type_of_service) \<noteq> 0 then m(data + off_type_of_service := 0) else m);
          m = (if load16 m (data + off_total_length) = cpu_to_be16 fx 0
               then store16 m (data + off_total_length) (cpu_to_be16 fx 1024) else m);
          m = (if m (data + off_time_to_live) \<noteq> 64 then m(data + off_time_to_live := 64) else m);
          m = (if m (data + off_next_proto_id) \<noteq> 17 then m(data + off_next_proto_id := 17) else m)
      in if load16 m (data + off_packet_id) = 0 then (0, m)
         else if load32 m (data + off_ip_src) = 0 then (0, m)
         else if load32 m (data + off_ip_dst) = 0 then (0, m)
         else if load16 m (data + off_src_port) = 0 then (0, m)
         else if load16 m (data + off_dst_port) = 0 then (0, m)
         else if load16 m (data + off_dgram_len) = 0 then (0, m)
         else if load16 m (data + off_dgram_len) = 0 then (0, m)
         else (1, m))"

subsection \<open>Packets and the event handler\<close>

definition process_packet_nf :: "flexio \<Rightarrow> dpa \<times> nf_ctx \<Rightarrow> dpa \<times> nf_ctx" where
  "process_packet_nf fx = (\<lambda>(d, c).
     let (rq_data, data_sz) = receive_packet fx (mem d) (rqcq_ctx c) (rq_ctx c);
         d = upd_mem (\<lambda>m. swap_mac m rq_data) d;
         (d, sq) = prepare_send_packet fx (sq_ctx c) rq_data data_sz d;
         (d, sq) = finish_send_packet sq d
     in (d, c\<lparr>sq_ctx := sq\<rparr>))"

definition process_packet_host_nf :: "flexio \<Rightarrow> dpa \<times> nf_ctx \<Rightarrow> dpa \<times> nf_ctx" where
  "process_packet_host_nf fx = (\<lambda>(d, c).
     let (rq_data, data_sz) = receive_packet fx (mem d) (rqcq_ctx c) (rq_ctx c);
         rq_data_dpa = host_rq_addr_to_dpa_addr rq_data (host_rq_ctx c);
         d = upd_mem (\<lambda>m. swap_mac m rq_data_dpa) d;
         (d, sq) = prepare_send_packet fx (sq_ctx c) rq_data data_sz d;
         (d, sq) = finish_send_packet_host sq d
     in (d, c\<lparr>sq_ctx := sq\<rparr>))"

definition count_nf :: "nf_ctx \<times> u64 \<Rightarrow> nf_ctx \<times> u64" where
  "count_nf = (\<lambda>(c, pkt_count).
     if pkt_count + 1 = 1000000 then (c\<lparr>packets_count := packets_count c + 1000000\<rparr>, 0)
     else (c, pkt_count + 1))"

definition iter_nf :: "u8 \<Rightarrow> flexio \<Rightarrow> dpa \<times> nf_ctx \<times> u64 \<Rightarrow> (dpa \<times> nf_ctx \<times> u64) option" where
  "iter_nf on_host fx = (\<lambda>(d, c, pkt_count).
     let (d, c) = (if on_host \<noteq> 0 then process_packet_host_nf fx (d, c) else process_packet_nf fx (d, c));
         d = step_rq fx (rq_ctx c) d;
         (d, cq) = step_cq fx (rqcq_ctx c) d
     in Some (d, count_nf (c\<lparr>rqcq_ctx := cq\<rparr>, pkt_count)))"

definition dpa_network_function_device_event_handler ::
  "flexio \<Rightarrow> u64 \<Rightarrow> dpa \<times> nf_ctx list \<Rightarrow> (nf_ctx \<times> u64) outcome option" where
  "dpa_network_function_device_event_handler fx index = (\<lambda>(d, dev_ctxs).
     if \<not> unat index < length dev_ctxs then None
     else
       let c = dev_ctxs ! unat index; dtctx = snd (get_thread_ctx fx); h = host_rq_ctx c in
       if is_initalized c = 0 then Some (Exited (emit Reschedule d) (c, 0))
       else
         let (buff, d) = (if rq_on_host c \<noteq> 0
                          then get_host_buffer_with_dtctx fx (rq_window_id h) (rq_rkey h) (host_rx_buff h) d
                          else (host_rx_buff h, d));
             c = c\<lparr>host_rq_ctx := h\<lparr>dpa_rx_buff := buff\<rparr>\<rparr>
         in if dtctx \<noteq> 0 then Some (Polling d (c, 0))
            else Some (Exited (emit Reschedule (emit (Cq_arm (cq_idx (rqcq_ctx c)) (cq_number (rqcq_ctx c)))
                   (emit Thread_fence d))) (c, 0)))"

subsection \<open>Lemmas\<close>

lemma count_nf_ctx [simp]:
  "rqcq_ctx (fst (count_nf x)) = rqcq_ctx (fst x)" "sq_ctx (fst (count_nf x)) = sq_ctx (fst x)"
  by (simp_all add: count_nf_def case_prod_beta)

interpretation nf_rx: reflecting_loop "iter_nf b" "rqcq_ctx \<circ> fst" "sq_ctx \<circ> fst" for b
  by unfold_locales
    (auto simp: iter_nf_def process_packet_nf_def process_packet_host_nf_def
       case_prod_beta Let_def send_simps db_ordered_emit split: if_splits)

text \<open>The hashes as folds over the bytes.\<close>

definition js_step :: "u32 \<Rightarrow> u8 \<Rightarrow> u32" where
  "js_step hash b = hash XOR (push_bit 5 hash + ucast b + drop_bit 2 hash)"

lemma load_bytes_Suc: "load_bytes m p (Suc n) = m p # load_bytes m (p + 1) n"
  by (rule nth_equalityI) (auto simp: nth_Cons' add.assoc of_nat_diff)

lemma JSHash_loop_fold: "JSHash_loop m p n h = foldl js_step h (load_bytes m p n)"
  by (induction n arbitrary: p h) (simp_all add: load_bytes_Suc js_step_def load_bytes_def[of _ _ 0])

text \<open>The polynomial that \<open>RSHash\<close> evaluates: byte \<open>i\<close> of \<open>n\<close> is weighted by the multipliers of the
  rounds after its own, and the multiplier of round \<open>j\<close> is \<open>63689 * 378551^j\<close>.\<close>

definition rs_poly :: "u32 \<Rightarrow> u8 list \<Rightarrow> u32" where
  "rs_poly a bs = (\<Sum>i<length bs. ucast (bs ! i) * (\<Prod>j\<in>{Suc i..<length bs}. a * 378551 ^ j))"

lemma rs_poly_Cons:
  "rs_poly a (b # bs) = ucast b * (\<Prod>j<length bs. a * 378551 * 378551 ^ j) + rs_poly (a * 378551) bs"
proof -
  have s: "(\<Prod>j\<in>{Suc (Suc i)..<Suc n}. a * 378551 ^ j) = (\<Prod>j\<in>{Suc i..<n}. a * 378551 * 378551 ^ j)" for i n
    by (simp only: prod.shift_bounds_Suc_ivl) (simp add: mult.assoc)
  have "(\<Prod>j\<in>{Suc 0..<Suc (length bs)}. a * 378551 ^ j) = (\<Prod>j<length bs. a * 378551 * 378551 ^ j)"
    by (simp only: prod.shift_bounds_Suc_ivl atLeast0LessThan) (simp add: mult.assoc)
  with s show ?thesis
    by (simp add: rs_poly_def sum.lessThan_Suc_shift del: sum.lessThan_Suc)
qed

lemma RSHash_loop_poly:
  "RSHash_loop m p n a h = h * (\<Prod>j<n. a * 378551 ^ j) + rs_poly a (load_bytes m p n)"
proof (induction n arbitrary: p a h)
  case 0
  show ?case by (simp add: rs_poly_def load_bytes_def)
next
  case (Suc n)
  have "(\<Prod>j<Suc n. a * 378551 ^ j) = a * (\<Prod>j<n. a * 378551 * 378551 ^ j)"
    by (simp add: prod.lessThan_Suc_shift mult.assoc del: prod.lessThan_Suc)
  then show ?case
    by (simp add: Suc load_bytes_Suc rs_poly_Cons algebra_simps del: prod.lessThan_Suc)
qed

lemma sum_count_one: "k < n \<Longrightarrow> (\<Sum>j<n. (f(k := f k + 1)) j) = (\<Sum>j<n. f j) + (1 :: u64)"
  for k n :: nat
proof -
  assume k: "k < n"
  have "(\<Sum>j<n. (f(k := f k + 1)) j) = (\<Sum>j<n. f j + (if j = k then 1 else 0))"
    by (rule sum.cong) auto
  also have "\<dots> = (\<Sum>j<n. f j) + (\<Sum>j<n. if j = k then 1 else 0)" by (rule sum.distrib)
  also have "(\<Sum>j<n. if j = k then 1 else 0) = (1 :: u64)"
    using sum.delta[of "{..<n}" k "\<lambda>_. 1 :: u64"] k by simp
  finally show ?thesis .
qed

lemma set_if_different: "(if m a \<noteq> v then m(a := v) else m) = m(a := v)"
  by auto

subsection \<open>Properties\<close>

text \<open>
  C23: \<open>RSHash\<close> computes, modulo \<open>2^32\<close>, the polynomial in which byte \<open>i\<close> is weighted by the product
  of the multipliers \<open>63689 * 378551^j\<close> of all later rounds \<open>j\<close>.
\<close>

theorem RSHash_polynomial: "RSHash m str len = rs_poly 63689 (load_bytes m str (unat len))"
  by (simp add: RSHash_def RSHash_loop_poly)

text \<open>
  C24: flow classification.  For a thread index below 10 exactly one of the thread's 102400 counters
  grows, by one: the one named by the \<open>JSHash\<close> of the four bytes of the wrapped sum of the
  packet's addresses and ports; so the counters of a thread add up to the packets it has
  classified.  Another thread index is outside the array.
\<close>

theorem classific_hash_counts:
  "(10 \<le> unat t \<longrightarrow> classific_hash q p t (m, cnt) = None) \<and>
   (unat t < 10 \<longrightarrow>
     (\<exists>m' cnt' k. classific_hash q p t (m, cnt) = Some (m', cnt') \<and> k < 102400 \<and>
        k = unat (foldl js_step 1315423911 (word_bytes 4 (tuple_number m p))) mod 102400 \<and>
        cnt' = cnt(unat t := (cnt (unat t))(k := cnt (unat t) k + 1)) \<and>
        (\<Sum>j<102400. cnt' (unat t) j) = (\<Sum>j<102400. cnt (unat t) j) + 1))"
proof -
  let ?w = "tuple_number m p"
  let ?h = "foldl js_step 1315423911 (word_bytes 4 ?w)"
  have h: "JSHash (store32 m q ?w) q 4 = ?h"
    by (simp add: JSHash_def JSHash_loop_fold load_bytes_store_word)
  have k: "unat ((ucast ?h :: u64) mod CLASSIFIC_NUMBER) = unat ?h mod 102400"
    by (simp only: unat_mod_distrib) simp
  have "unat ?h mod 102400 < 102400" by simp
  from sum_count_one[OF this] show ?thesis
    by (simp add: classific_hash_def Let_def h k)
qed

theorem classific_hash_counts_witness:
  "classific_hash 0x5000 0x3000 10 (sample_mem, \<lambda>_ _. 0) = None \<and>
   (\<exists>m' cnt'. classific_hash 0x5000 0x3000 3 (sample_mem, \<lambda>_ _. 0) = Some (m', cnt') \<and> (\<Sum>j<102400. cnt' 3 j) = 1)"
  using classific_hash_counts[of 10 "0x5000" "0x3000" sample_mem "\<lambda>_ _. 0"]
    classific_hash_counts[of 3 "0x5000" "0x3000" sample_mem "\<lambda>_ _. 0"]
  by fastforce

text \<open>
  address rewriting.  \<open>udp_shift_updating\<close> adds one, at their widths, to both addresses and both
  ports of the packet, and changes nothing else.
\<close>

lemma udp_shift_fields:
  "read_udp_packet (udp_shift_updating p m) p =
     (let pkt = read_udp_packet m p in
      pkt\<lparr>pkt_ip := (pkt_ip pkt)\<lparr>ip_src_addr := ip_src_addr (pkt_ip pkt) + 1, ip_dst_addr := ip_dst_addr (pkt_ip pkt) + 1\<rparr>,
          pkt_udp := (pkt_udp pkt)\<lparr>src_port := src_port (pkt_udp pkt) + 1, dst_port := dst_port (pkt_udp pkt) + 1\<rparr>\<rparr>) \<and>
   (inside a p 42 \<or> udp_shift_updating p m a = m a)"
proof -
  have o: "\<not> inside a (p + 26) 4" "\<not> inside a (p + 30) 4" "\<not> inside a (p + 34) 2" "\<not> inside a (p + 36) 2" if "\<not> inside a p 42"
    using that inside_sub[of a p 26 4 42] inside_sub[of a p 30 4 42] inside_sub[of a p 34 2 42] inside_sub[of a p 36 2 42]
    by auto
  show ?thesis
    using o by (cases "inside a p 42") (simp_all add: udp_shift_updating_def Let_def header_simps store_le_outside)
qed

text \<open>
  header check.  \<open>check_ipheader\<close> sets version, type of service, time to live and protocol to
  0x45, 0, 64 and 17, replaces a zero length by 1024, keeps every other field, and returns 1
  iff the identification, both addresses, both ports and the UDP length are all non-zero.
\<close>

lemma check_ipheader_fields:
  assumes "check_ipheader fx p m = (r, m')"
  shows "read_udp_packet m' p =
     (let pkt = read_udp_packet m p; ip = pkt_ip pkt in
      pkt\<lparr>pkt_ip := ip\<lparr>version_ihl := 0x45, type_of_service := 0, time_to_live := 64, next_proto_id := 17,
                      total_length := (if total_length ip = cpu_to_be16 fx 0 then cpu_to_be16 fx 1024 else total_length ip)\<rparr>\<rparr>) \<and>
   r = (let pkt = read_udp_packet m p; ip = pkt_ip pkt; udp = pkt_udp pkt in
        of_bool (packet_id ip \<noteq> 0 \<and> ip_src_addr ip \<noteq> 0 \<and> ip_dst_addr ip \<noteq> 0 \<and>
                 src_port udp \<noteq> 0 \<and> dst_port udp \<noteq> 0 \<and> dgram_len udp \<noteq> 0))"
  using assms unfolding check_ipheader_def set_if_different Let_def
  by (auto simp: header_simps split: if_splits)

end
