(* ===== verification/Ddio.thy ===== *)
theory Ddio
  imports Refactor
begin

text \<open>
  The cache-placement experiment \<open>flexio/dpa_refactor_ddio/device/dpa_refactor_device.c\<close>: the handler
  answers 64 packets, and for each measures how long the loads of one 1024-byte receive entry
  take.  The entry that is probed advances by one per packet, through the whole receive area
  over 16 runs of the handler.  Packets of 73 bytes are dropped; packets that arrive while one
  is handled are dropped too.  Before each answer is announced the 32 MiB send area is read.
\<close>

subsection \<open>Context and initialisation\<close>

text \<open>The context of the source, with its file-scope and function-scope static variables.\<close>

record ddio_ctx = refactor_ctx +
  rq_buff :: ptr
  dummy :: u64
  total_loop_pos :: u64

definition init_cq_ddio :: "app_transfer_cq \<Rightarrow> cq_ctx_t \<Rightarrow> cq_ctx_t" where
  "init_cq_ddio = init_cq_at 10"

definition init_rq_ddio :: "app_transfer_wq \<Rightarrow> rq_ctx_t \<Rightarrow> rq_ctx_t" where
  "init_rq_ddio = init_rq_at 10"

definition init_sq_ddio :: "flexio \<Rightarrow> app_transfer_wq \<Rightarrow> sq_ctx_t \<Rightarrow> sq_ctx_t" where
  "init_sq_ddio fx = init_sq_at fx 10"

text \<open>Adding up \<open>n\<close> consecutive 64-bit words.\<close>

fun sum_words :: "memory \<Rightarrow> ptr \<Rightarrow> nat \<Rightarrow> u64 \<Rightarrow> u64" where
  "sum_words m tmp_ptr 0 acc = acc"
| "sum_words m tmp_ptr (Suc n) acc = sum_words m (tmp_ptr + 8) n (acc + load64 m tmp_ptr)"

text \<open>The two nested loops over the send area: \<open>2^13\<close> times \<open>2^12 / 8\<close> words.\<close>

fun sum_area :: "memory \<Rightarrow> ptr \<Rightarrow> nat \<Rightarrow> nat \<Rightarrow> u64 \<Rightarrow> u64" where
  "sum_area m tmp_ptr 0 k acc = acc"
| "sum_area m tmp_ptr (Suc n) k acc = sum_area m (tmp_ptr + of_nat (8 * k)) n k (sum_words m tmp_ptr k acc)"

text \<open>The sum that initialisation computes is only printed; it is the second component of the result.\<close>

definition dpa_ddio_device_init ::
  "flexio \<Rightarrow> queue_config_data \<Rightarrow> dpa \<times> ddio_ctx \<Rightarrow> u64 \<times> u64 \<times> dpa \<times> ddio_ctx" where
  "dpa_ddio_device_init fx shared_data = (\<lambda>(d, c).
     let c = c\<lparr>lkey := wqd_mkey_id (sq_data shared_data),
               host_rq_ctx := (host_rq_ctx c)\<lparr>rq_rkey := wqd_mkey_id (rq_data shared_data),
                                             rq_window_id := new_buffer_mkey_id shared_data,
                                             host_rx_buff := wqd_daddr (rq_data shared_data)\<rparr>,
               rqcq_ctx := init_cq_ddio (rq_cq_data shared_data) (rqcq_ctx c),
               rq_ctx := init_rq_ddio (rq_data shared_data) (rq_ctx c),
               sqcq_ctx := init_cq_ddio (sq_cq_data shared_data) (sqcq_ctx c),
               sq_ctx := init_sq_ddio fx (sq_data shared_data) (sq_ctx c)\<rparr>;
         (d, sq) = init_send_sq fx (sq_ctx c) (ucast (LOG2VALUE 10)) (lkey c) d;
         c = c\<lparr>sq_ctx := sq,
               dt_ctx := (dt_ctx c)\<lparr>sq_tx_buff := wqd_daddr (sq_data shared_data),
                                   tx_buff_idx := 0, data_idx_mask := ring_mask 10\<rparr>,
               rq_on_host := daddr_on_host (rq_data shared_data),
               sq_on_host := 0,
               rq_buff := wqd_daddr (rq_data shared_data)\<rparr>;
         sum = sum_area (mem d) (sq_tx_buff (dt_ctx c)) (unat (LOG2VALUE 13)) (unat (LOG2VALUE 12) div 8) 0
     in (0, sum, d, c\<lparr>is_initalized := 1\<rparr>))"

subsection \<open>One packet\<close>

text \<open>
  The measuring loop: the time of the load of each cache line goes to the line's last word.
\<close>

fun probe_lines :: "flexio \<Rightarrow> nat \<Rightarrow> ptr \<Rightarrow> dpa \<times> u64 \<Rightarrow> dpa \<times> u64" where
  "probe_lines fx 0 tmp_ptr s = s"
| "probe_lines fx (Suc n) tmp_ptr (d, load_num) =
     (let d = emit Memory_fence d;
          (t0, d) = read_cycles fx d;
          load_num = load_num + load64 (mem d) tmp_ptr;
          (t1, d) = read_cycles fx d;
          d = emit Memory_fence d;
          d = upd_mem (\<lambda>m. store64 m (tmp_ptr + 56) (t1 - t0)) d
      in probe_lines fx n (tmp_ptr + 64) (d, load_num))"

text \<open>Exchanging the addresses byte by byte, from byte \<open>i\<close> on.\<close>

fun swap_bytes :: "nat \<Rightarrow> nat \<Rightarrow> ptr \<Rightarrow> memory \<Rightarrow> memory" where
  "swap_bytes i 0 p m = m"
| "swap_bytes i (Suc n) p m =
     (let tmp = m (p + of_nat i);
          m = m(p + of_nat i := m (p + of_nat (i + 6)));
          m = m(p + of_nat (i + 6) := tmp)
      in swap_bytes (Suc i) n p m)"

definition copy_header :: "ptr \<Rightarrow> ptr \<Rightarrow> memory \<Rightarrow> memory" where
  "copy_header to from m = swap_bytes 0 6 to (store_bytes m to (load_bytes m from 14))"

definition process_ddio ::
  "flexio \<Rightarrow> u8 \<Rightarrow> u64 \<Rightarrow> ptr \<Rightarrow> u32 \<Rightarrow> dpa \<times> ddio_ctx \<times> u64 \<times> u64 \<Rightarrow> dpa \<times> ddio_ctx \<times> u64 \<times> u64 \<times> ptr" where
  "process_ddio fx on_host now_loop_batch_pos data data_sz = (\<lambda>(d, c, pos, load_num).
     let data = (if on_host \<noteq> 0 then host_rq_addr_to_dpa_addr data (host_rq_ctx c) else data);
         tmp_ptr = data + (pos + now_loop_batch_pos) * LOG2VALUE 10;
         (d, load_num) = probe_lines fx 16 tmp_ptr (d, load_num);
         c = c\<lparr>dummy := dummy c + load_num\<rparr>;
         pos = pos + 1;
         (buf, dt) = get_next_send_buf (dt_ctx c) 10;
         d = upd_mem (copy_header buf data) d;
         (d, sq) = prepare_send_packet fx (sq_ctx c) buf data_sz d;
         d = step_rq fx (rq_ctx c) d;
         (d, cq) = step_cq fx (rqcq_ctx c) d
     in (d, c\<lparr>dt_ctx := dt, sq_ctx := sq, rqcq_ctx := cq\<rparr>, pos, load_num, buf))"

subsection \<open>One turn of the outer loop\<close>

definition skip_entry :: "flexio \<Rightarrow> dpa \<Rightarrow> ddio_ctx \<Rightarrow> dpa \<times> ddio_ctx" where
  "skip_entry fx d c =
     (let d = step_rq fx (rq_ctx c) d; (d, cq) = step_cq fx (rqcq_ctx c) d in (d, c\<lparr>rqcq_ctx := cq\<rparr>))"

text \<open>
  The inner loop: packets of 73 bytes are skipped, any other ends the loop.  The result's last
  component is \<open>sq_data\<close>, \<open>NULL\<close> when no packet was there.
\<close>

partial_function (option) ddio_recv ::
  "flexio \<Rightarrow> u8 \<Rightarrow> u64 \<Rightarrow> u64 \<Rightarrow> u64 \<Rightarrow> dpa \<Rightarrow> ddio_ctx \<Rightarrow> (dpa \<times> ddio_ctx \<times> u64 \<times> u64 \<times> ptr) option" where
  "ddio_recv fx on_host now pos load_num d c =
     (if \<not> cqe_ready fx (mem d) (rqcq_ctx c) then Some (d, c, pos, load_num, 0)
      else if snd (receive_packet fx (mem d) (rqcq_ctx c) (rq_ctx c)) = 73
           then ddio_recv fx on_host now pos load_num (fst (skip_entry fx d c)) (snd (skip_entry fx d c))
           else Some (process_ddio fx on_host now (fst (receive_packet fx (mem d) (rqcq_ctx c) (rq_ctx c)))
                   (snd (receive_packet fx (mem d) (rqcq_ctx c) (rq_ctx c))) (d, c, pos, load_num)))"

partial_function (option) ddio_skip :: "flexio \<Rightarrow> dpa \<Rightarrow> ddio_ctx \<Rightarrow> (dpa \<times> ddio_ctx) option" where
  "ddio_skip fx d c =
     (if cqe_ready fx (mem d) (rqcq_ctx c)
      then ddio_skip fx (fst (skip_entry fx d c)) (snd (skip_entry fx d c)) else Some (d, c))"

definition ddio_turn ::
  "flexio \<Rightarrow> u8 \<Rightarrow> u64 \<Rightarrow> dpa \<times> ddio_ctx \<times> u64 \<times> u64 \<Rightarrow> (dpa \<times> ddio_ctx \<times> u64 \<times> u64) option" where
  "ddio_turn fx on_host now = (\<lambda>(d, c, pos, load_num).
     Option.bind (ddio_recv fx on_host now pos load_num d c) (\<lambda>(d, c, pos, load_num, buf).
       if buf = 0 then Some (d, c, pos, load_num)
       else Option.bind (ddio_skip fx d c) (\<lambda>(d, c).
         let d = emit Memory_fence d;
             load_num = sum_area (mem d) (sq_tx_buff (dt_ctx c)) (unat (LOG2VALUE 13)) (unat (LOG2VALUE 12) div 8) load_num;
             d = emit Memory_fence d;
             load_num = sum_area (mem d) (rq_buff c) 0 (unat (LOG2VALUE 10) div 8) load_num;
             d = emit Memory_fence d;
             (d, sq) = finish_send_packet (sq_ctx c) d
         in Some (d, c\<lparr>sq_ctx := sq\<rparr>, pos, load_num))))"

subsection \<open>The event handler\<close>

abbreviation batch_pkg_num :: u64 where "batch_pkg_num \<equiv> 64"
abbreviation total_pkg_num :: u64 where "total_pkg_num \<equiv> 1024"

text \<open>The start of the handler, up to its loop, and what follows the loop.\<close>

definition dpa_ddio_device_event_handler :: "flexio \<Rightarrow> dpa \<times> ddio_ctx \<Rightarrow> (ddio_ctx \<times> u64 \<times> u64) outcome" where
  "dpa_ddio_device_event_handler fx = (\<lambda>(d, c).
     let h = host_rq_ctx c in
     if is_initalized c = 0 then Exited (emit Reschedule d) (c, 0, 0)
     else
       let (buff, d) = (if rq_on_host c \<noteq> 0
                        then get_host_buffer_with_dtctx fx (rq_window_id h) (rq_rkey h) (host_rx_buff h) d
                        else (host_rx_buff h, d))
       in Polling d (c\<lparr>host_rq_ctx := h\<lparr>dpa_rx_buff := buff\<rparr>\<rparr>, 0, 0))"

definition ddio_leave :: "dpa \<times> ddio_ctx \<times> u64 \<times> u64 \<Rightarrow> dpa \<times> ddio_ctx" where
  "ddio_leave = (\<lambda>(d, c, pos, load_num).
     let c = c\<lparr>total_loop_pos := (total_loop_pos c + pos) mod total_pkg_num\<rparr>
     in (emit Reschedule (emit (Cq_arm (cq_idx (rqcq_ctx c)) (cq_number (rqcq_ctx c))) (emit Thread_fence d)), c))"

text \<open>The polling loop \<open>while (pos < batch_pkg_num)\<close>, with the card writing memory between turns.\<close>

inductive ddio_step ::
  "flexio \<Rightarrow> u8 \<Rightarrow> u64 \<Rightarrow> dpa \<times> ddio_ctx \<times> u64 \<times> u64 \<Rightarrow> dpa \<times> ddio_ctx \<times> u64 \<times> u64 \<Rightarrow> bool"
  for fx on_host now where
  ddio_card: "ddio_step fx on_host now (d, s) (d\<lparr>mem := m\<rparr>, s)"
| ddio_one: "pos < batch_pkg_num \<Longrightarrow> ddio_turn fx on_host now (d, c, pos, ln) = Some t \<Longrightarrow>
     ddio_step fx on_host now (d, c, pos, ln) t"

subsection \<open>Lemmas\<close>

lemma skip_entry_fields [simp]:
  "trace (fst (skip_entry fx d c)) = trace d"
  "rqcq_ctx (snd (skip_entry fx d c)) = next_cq fx (rqcq_ctx c)"
  "sq_ctx (snd (skip_entry fx d c)) = sq_ctx c" "dt_ctx (snd (skip_entry fx d c)) = dt_ctx c"
  "total_loop_pos (snd (skip_entry fx d c)) = total_loop_pos c"
  by (simp_all add: skip_entry_def Let_def case_prod_beta)

lemma probe_lines_trace [simp]:
  "doorbells (trace (fst (probe_lines fx n p s))) = doorbells (trace (fst s)) \<and>
   db_ordered (trace (fst (probe_lines fx n p s))) = db_ordered (trace (fst s))"
proof (induction n arbitrary: p s)
  case (Suc n)
  then show ?case by (cases s) (simp add: Let_def case_prod_beta db_ordered_quiet)
qed simp

text \<open>What receiving changes: some entries are consumed, and if a packet is taken one send buffer
  and one send entry are used.\<close>

definition ddio_took :: "dpa \<times> ddio_ctx \<times> u64 \<Rightarrow> dpa \<times> ddio_ctx \<times> u64 \<times> ptr \<Rightarrow> bool" where
  "ddio_took = (\<lambda>(d, c, pos) (d', c', pos', buf).
     doorbells (trace d') = doorbells (trace d) \<and> db_ordered (trace d') = db_ordered (trace d) \<and>
     total_loop_pos c' = total_loop_pos c \<and>
     (if pos' = pos then sq_ctx c' = sq_ctx c \<and> dt_ctx c' = dt_ctx c \<and> buf = 0
      else pos' = pos + 1 \<and> sq_ctx c' = (sq_ctx c)\<lparr>sq_wqe_seg_idx := sq_wqe_seg_idx (sq_ctx c) + 4\<rparr> \<and>
           get_next_send_buf (dt_ctx c) 10 = (buf, dt_ctx c')))"

lemma process_ddio_took:
  "process_ddio fx h now p len (d, c, pos, ln) = (d', c', pos', ln', buf) \<Longrightarrow>
     ddio_took (d, c, pos) (d', c', pos', buf) \<and> rqcq_ctx c' = next_cq fx (rqcq_ctx c)"
  by (auto simp: process_ddio_def ddio_took_def Let_def case_prod_beta send_simps)

lemma ddio_recv_took:
  assumes "ddio_recv fx h now pos ln d c = Some (d', c', pos', ln', buf)" "n \<le> 31" "cq_inv fx n (rqcq_ctx c)"
  shows "ddio_took (d, c, pos) (d', c', pos', buf) \<and> cq_inv fx n (rqcq_ctx c')"
proof -
  define Q where "Q = (\<lambda>fx (h::u8) (now::u64) pos (ln::u64) d c (d', c', pos', ln'::u64, buf).
    cq_inv fx n (rqcq_ctx c) \<longrightarrow> ddio_took (d, c, pos) (d', c', pos', buf) \<and> cq_inv fx n (rqcq_ctx c'))"
  have "Q fx h now pos ln d c (d', c', pos', ln', buf)"
  proof (rule ddio_recv.raw_induct[where P = Q, OF _ assms(1)])
    fix g fx h now pos ln d c r
    assume ih: "\<And>fx h now pos ln d c r. g fx h now pos ln d c = Some r \<Longrightarrow> Q fx h now pos ln d c r"
      and r: "(if \<not> cqe_ready fx (mem d) (rqcq_ctx c) then Some (d, c, pos, ln, 0)
        else if snd (receive_packet fx (mem d) (rqcq_ctx c) (rq_ctx c)) = 73
             then g fx h now pos ln (fst (skip_entry fx d c)) (snd (skip_entry fx d c))
             else Some (process_ddio fx h now (fst (receive_packet fx (mem d) (rqcq_ctx c) (rq_ctx c)))
                     (snd (receive_packet fx (mem d) (rqcq_ctx c) (rq_ctx c))) (d, c, pos, ln))) = Some r"
    obtain d' c' pos' ln' buf where t: "r = (d', c', pos', ln', buf)" by (rule prod_cases5)
    show "Q fx h now pos ln d c r"
    proof (cases "cqe_ready fx (mem d) (rqcq_ctx c) \<and> snd (receive_packet fx (mem d) (rqcq_ctx c) (rq_ctx c)) = 73")
      case True
      with r have "g fx h now pos ln (fst (skip_entry fx d c)) (snd (skip_entry fx d c)) = Some r" by simp
      from ih[OF this] next_cq_inv[OF assms(2), of fx "rqcq_ctx c"] show ?thesis
        by (auto simp: t Q_def ddio_took_def split: if_splits)
    next
      case False
      with r have "r = (d, c, pos, ln, 0) \<or> process_ddio fx h now (fst (receive_packet fx (mem d) (rqcq_ctx c) (rq_ctx c)))
          (snd (receive_packet fx (mem d) (rqcq_ctx c) (rq_ctx c))) (d, c, pos, ln) = r"
        by (auto split: if_splits)
      moreover have "ddio_took (d, c, pos) (d, c, pos, 0)" by (simp add: ddio_took_def)
      ultimately show ?thesis
        using next_cq_inv[OF assms(2), of fx "rqcq_ctx c"] process_ddio_took by (auto simp: t Q_def)
    qed
  qed
  with assms(3) show ?thesis by (simp add: Q_def)
qed

lemma ddio_skip_keeps:
  assumes "ddio_skip fx d c = Some (d', c')" "n \<le> 31" "cq_inv fx n (rqcq_ctx c)"
  shows "trace d' = trace d \<and> sq_ctx c' = sq_ctx c \<and> dt_ctx c' = dt_ctx c \<and> total_loop_pos c' = total_loop_pos c \<and>
    cq_inv fx n (rqcq_ctx c')"
proof -
  define Q where "Q = (\<lambda>fx (d :: dpa) c (d' :: dpa, c'). cq_inv fx n (rqcq_ctx c) \<longrightarrow> trace d' = trace d \<and>
    sq_ctx c' = sq_ctx c \<and> dt_ctx c' = dt_ctx c \<and> total_loop_pos c' = total_loop_pos (c :: ddio_ctx) \<and>
    cq_inv fx n (rqcq_ctx (c' :: ddio_ctx)))"
  have "Q fx d c (d', c')"
  proof (rule ddio_skip.raw_induct[where P = Q, OF _ assms(1)])
    fix g fx d c r
    assume ih: "\<And>fx d c r. g fx d c = Some r \<Longrightarrow> Q fx d c r"
      and r: "(if cqe_ready fx (mem d) (rqcq_ctx c)
        then g fx (fst (skip_entry fx d c)) (snd (skip_entry fx d c)) else Some (d, c)) = Some r"
    show "Q fx d c r"
    proof (cases "cqe_ready fx (mem d) (rqcq_ctx c)")
      case True
      with r have "g fx (fst (skip_entry fx d c)) (snd (skip_entry fx d c)) = Some r" by simp
      from ih[OF this] next_cq_inv[OF assms(2)] show ?thesis by (auto simp: Q_def)
    next
      case False
      with r show ?thesis by (auto simp: Q_def)
    qed
  qed
  with assms(3) show ?thesis by (simp add: Q_def)
qed

text \<open>The send area does not contain address 0.\<close>

definition send_area_ok :: "dt_ctx_t \<Rightarrow> bool" where
  "send_area_ok dt \<longleftrightarrow> data_idx_mask dt = ring_mask 10 \<and> sq_tx_buff dt \<noteq> 0 \<and> unat (sq_tx_buff dt) + 2 ^ 20 \<le> 2 ^ 64"

lemma send_area_buf:
  assumes "send_area_ok dt" "get_next_send_buf dt 10 = (buf, dt')"
  shows "buf \<noteq> 0 \<and> send_area_ok dt'"
proof -
  let ?k = "(unat (tx_buff_idx dt) mod 2 ^ 10) * 2 ^ 10"
  have b: "buf = sq_tx_buff dt + of_nat ?k"
    using get_next_send_buf_addr[of dt 10 10] assms by (simp add: send_area_ok_def)
  have "unat (tx_buff_idx dt) mod 2 ^ 10 < 2 ^ 10" by simp
  then have k: "?k < 2 ^ 20" by (simp add: power_add[of 2 10 10, simplified])
  have "0 < unat (sq_tx_buff dt)" using assms(1) by (simp add: send_area_ok_def unat_gt_0)
  moreover have "unat (of_nat ?k :: u64) = ?k" using k by (simp only: unat_of_nat) (simp add: take_bit_nat_eq_self)
  moreover have "unat (sq_tx_buff dt) + ?k < 2 ^ 64" using k assms(1) unfolding send_area_ok_def by linarith
  ultimately have "unat buf \<noteq> 0"
    unfolding b unat_add_u64 by (simp only: mod_less)
  then have "buf \<noteq> 0" by auto
  with assms show ?thesis by (auto simp: send_area_ok_def get_next_send_buf_def Let_def)
qed

text \<open>One turn of the outer loop sends one packet or none.\<close>

lemma ddio_turn_effect:
  assumes "ddio_turn fx h now (d, c, pos, ln) = Some (d', c', pos', ln')" "n \<le> 31" "cq_inv fx n (rqcq_ctx c)"
    and "send_area_ok (dt_ctx c)"
  shows "cq_inv fx n (rqcq_ctx c') \<and> send_area_ok (dt_ctx c') \<and> total_loop_pos c' = total_loop_pos c \<and>
    (db_ordered (trace d) \<longrightarrow> db_ordered (trace d')) \<and>
    (if pos' = pos then sq_ctx c' = sq_ctx c \<and> doorbells (trace d') = doorbells (trace d)
     else pos' = pos + 1 \<and> sq_ctx c' = sq_sent (sq_ctx c) \<and>
          doorbells (trace d') = doorbells (trace d) @ [(sq_pi (sq_ctx c) + 1, sq_number (sq_ctx c))])"
proof -
  from assms(1) obtain d1 c1 pos1 ln1 buf where
    rv: "ddio_recv fx h now pos ln d c = Some (d1, c1, pos1, ln1, buf)"
    by (auto simp: ddio_turn_def bind_eq_Some_conv)
  note took = ddio_recv_took[OF rv assms(2,3)]
  show ?thesis
  proof (cases "buf = 0")
    case True
    have "pos1 = pos"
      using took True send_area_buf[OF assms(4), of buf "dt_ctx c1"] by (auto simp: ddio_took_def split: if_splits)
    with assms(1,4) rv True took show ?thesis by (auto simp: ddio_turn_def ddio_took_def)
  next
    case False
    from assms(1) rv False obtain d2 c2 where sk: "ddio_skip fx d1 c1 = Some (d2, c2)"
      by (auto simp: ddio_turn_def bind_eq_Some_conv)
    have pos: "pos1 \<noteq> pos" using took False by (auto simp: ddio_took_def)
    then have "send_area_ok (dt_ctx c1)" using took send_area_buf[OF assms(4), of buf "dt_ctx c1"] by (auto simp: ddio_took_def)
    moreover have "pos' = pos1" "c' = c2\<lparr>sq_ctx := (sq_ctx c2)\<lparr>sq_pi := sq_pi (sq_ctx c2) + 1\<rparr>\<rparr>"
      "trace d' = (trace d2 @ [Memory_fence, Memory_fence, Memory_fence]) @
         [Memory_writeback, Ring_db (sq_pi (sq_ctx c2) + 1) (sq_number (sq_ctx c2))]"
      using assms(1) rv False sk by (auto simp: ddio_turn_def Let_def case_prod_beta send_simps simp del: sum_area.simps)
    moreover have "cq_inv fx n (rqcq_ctx c1)" using took by simp
    ultimately show ?thesis
      using ddio_skip_keeps[OF sk assms(2)] took pos
      by (simp add: ddio_took_def db_ordered_emit(2)[of "xs @ [a, b, c]" for xs a b c, simplified] db_ordered_quiet sq_sent_def)
  qed
qed

text \<open>The position counts the packets sent since the handler started.\<close>

definition ddio_sent :: "flexio \<Rightarrow> dpa \<times> ddio_ctx \<Rightarrow> dpa \<times> ddio_ctx \<times> u64 \<times> u64 \<Rightarrow> bool" where
  "ddio_sent fx = (\<lambda>(d0, c0) (d, c, pos, ln).
     cq_inv fx 10 (rqcq_ctx c) \<and> send_area_ok (dt_ctx c) \<and> db_ordered (trace d) \<and> unat pos \<le> 64 \<and>
     total_loop_pos c = total_loop_pos c0 \<and>
     sq_number (sq_ctx c) = sq_number (sq_ctx c0) \<and> sq_pi (sq_ctx c) = sq_pi (sq_ctx c0) + ucast pos \<and>
     doorbells (trace d) = doorbells (trace d0) @
       map (\<lambda>i. (sq_pi (sq_ctx c0) + of_nat (Suc i), sq_number (sq_ctx c0))) [0..<unat pos])"

lemma ddio_sent_step:
  assumes "ddio_step fx h now s t" "ddio_sent fx s0 s"
  shows "ddio_sent fx s0 t"
  using assms(1)
proof cases
  case (ddio_card d x m)
  with assms(2) show ?thesis by (simp add: ddio_sent_def case_prod_beta)
next
  case (ddio_one pos d c ln)
  obtain d' c' pos' ln' where t: "t = (d', c', pos', ln')" by (rule prod_cases4)
  obtain d0 c0 where s0: "s0 = (d0, c0)" by (rule prod.exhaust)
  have e: "ddio_turn fx h now (d, c, pos, ln) = Some (d', c', pos', ln')" using ddio_one t by simp
  have inv: "cq_inv fx 10 (rqcq_ctx c)" "send_area_ok (dt_ctx c)" using assms(2) ddio_one by (simp_all add: ddio_sent_def s0)
  note eff = ddio_turn_effect[OF e _ inv]
  show ?thesis
  proof (cases "pos' = pos")
    case True
    with eff assms(2) ddio_one show ?thesis by (simp add: ddio_sent_def t s0)
  next
    case False
    have lt: "unat pos < 64" using ddio_one by (simp add: word_less_nat_alt)
    then have u: "unat (pos + 1) = Suc (unat pos)" by (simp add: unat_word_ariths)
    have w: "(ucast (pos + 1) :: u32) = ucast pos + 1"
      using lt by (simp add: word_unat_eq_iff unat_word_ariths unsigned_ucast_eq take_bit_eq_mod mod_simps)
    have o: "(of_nat (unat pos) :: u32) = ucast pos" by (simp add: of_nat_unat)
    from False eff assms(2) ddio_one lt u w o show ?thesis by (simp add: ddio_sent_def t s0 add.assoc)
  qed
qed

lemma ddio_sent_reach:
  "(ddio_step fx h now)\<^sup>*\<^sup>* s t \<Longrightarrow> ddio_sent fx s0 s \<Longrightarrow> ddio_sent fx s0 t"
  by (induction rule: rtranclp_induct) (auto dest: ddio_sent_step)

text \<open>The header that is sent back.\<close>

lemma swap_bytes_numeral:
  "swap_bytes i (numeral n) p m =
     swap_bytes (Suc i) (pred_numeral n) p
       ((m(p + of_nat i := m (p + of_nat (i + 6))))(p + of_nat (i + 6) := m (p + of_nat i)))"
  by (simp add: numeral_eq_Suc Let_def)

lemma swap_bytes_header:
  "load_bytes (swap_bytes 0 6 p m) p 14 =
     (let bs = load_bytes m p 14 in take 6 (drop 6 bs) @ take 6 bs @ drop 12 bs)"
proof -
  have u: "[0..<14] = [0, 1, 2, 3, 4, 5, 6, 7, 8, 9, 10, 11, 12, 13 :: nat]" by code_simp
  show ?thesis by (simp add: swap_bytes_numeral load_bytes_def u)
qed

lemma copy_header_bytes:
  "load_bytes (copy_header to from m) to 14 =
     (let bs = load_bytes m from 14 in take 6 (drop 6 bs) @ take 6 bs @ drop 12 bs)"
  using load_bytes_store_bytes[of "load_bytes m from 14" m to]
  by (simp add: copy_header_def swap_bytes_header)

lemma probe_lines_outside:
  assumes "\<And>k. k < n \<Longrightarrow> \<not> inside a (p + of_nat (64 * k + 56)) 8"
  shows "mem (fst (probe_lines fx n p (d, ln))) a = mem d a"
  using assms
proof (induction n arbitrary: p d ln)
  case (Suc n)
  have 0: "\<not> inside a (p + 56) 8" using Suc.prems[of 0] by simp
  have "\<not> inside a (p + 64 + of_nat (64 * k + 56)) 8" if "k < n" for k
    using Suc.prems[of "Suc k"] that by (simp add: add.assoc)
  from Suc.IH[OF this] 0 show ?case by (simp add: Let_def case_prod_beta store_le_outside)
qed simp

text \<open>The probed lines never meet the header of the packet.\<close>

lemma probe_off_header:
  assumes "b + 1024 \<le> 2 ^ 63" "1024 dvd b" "k < 16" "i < 14"
  shows "\<not> inside (q + of_nat i) (q + of_nat b + of_nat (64 * k + 56)) 8"
proof -
  have "\<not> inside (q + of_nat i) (q + of_nat (b + (64 * k + 56))) 8"
    using assms by (subst inside_at) (auto simp: unat_of_nat)
  then show ?thesis by (simp add: add.assoc)
qed

text \<open>Concrete data.\<close>

definition sample_ddio :: ddio_ctx where
  "sample_ddio = refactor_ctx.extend
     (dev_ctx_refactor\<lparr>is_initalized := 1, rqcq_ctx := init_cq_ddio (rq_cq_data sample_qcd) cq_zero,
        rq_ctx := init_rq_ddio (rq_data sample_qcd) rq_zero, sq_ctx := init_sq_ddio sample_fx (sq_data sample_qcd) sq_zero,
        dt_ctx := \<lparr>sq_tx_buff = 0x50000, tx_buff_idx = 0, data_idx_mask = ring_mask 10\<rparr>\<rparr>)
     \<lparr>rq_buff = 0x3000, dummy = 0, total_loop_pos = 960\<rparr>"

lemma sample_ddio_simps [simp]:
  "rqcq_ctx sample_ddio = init_cq_at 10 (rq_cq_data sample_qcd) cq_zero"
  "rq_ctx sample_ddio = init_rq_at 10 (rq_data sample_qcd) rq_zero"
  "sq_ctx sample_ddio = init_sq_at sample_fx 10 (sq_data sample_qcd) sq_zero"
  "dt_ctx sample_ddio = \<lparr>sq_tx_buff = 0x50000, tx_buff_idx = 0, data_idx_mask = ring_mask 10\<rparr>"
  "total_loop_pos sample_ddio = 960"
  by (simp_all add: sample_ddio_def refactor_ctx.defs init_cq_ddio_def init_rq_ddio_def init_sq_ddio_def)

lemma sample_ddio_turn:
  "\<exists>d c ln. ddio_turn one_shot_fx 0 0 (sample_dpa, sample_ddio, 0, 0) = Some (d, c, 1, ln)"
proof -
  obtain d c pos ln buf where p: "process_ddio one_shot_fx 0 0 0x3000 64 (sample_dpa, sample_ddio, 0, 0) = (d, c, pos, ln, buf)"
    by (rule prod_cases5)
  have rv: "ddio_recv one_shot_fx 0 0 0 0 sample_dpa sample_ddio = Some (d, c, pos, ln, buf)"
    by (subst ddio_recv.simps) (simp add: p)
  have pos: "pos = 1" and cq: "rqcq_ctx c = next_cq one_shot_fx (init_cq_at 10 (rq_cq_data sample_qcd) cq_zero)"
    using p process_ddio_took[OF p] by (auto simp: process_ddio_def Let_def case_prod_beta)
  have "ddio_skip one_shot_fx d c = Some (d, c)"
    by (subst ddio_skip.simps) (simp add: cq next_cq_def step_cq_def init_cq_at_def sample_qcd_def ring_mask_def)
  with rv pos show ?thesis
    by (cases "buf = 0") (simp_all add: ddio_turn_def Let_def case_prod_beta del: sum_area.simps)
qed

subsection \<open>Properties\<close>

text \<open>
  C20: the handler's loop.  Under every interleaving with the card, the position is the number of
  packets answered since the handler started, never more than 64; each was announced by one
  doorbell after a write-back, with consecutive producer indices; and when the loop ends,
  exactly 64 packets have been answered, and the static position has moved on by 64 modulo
  1024.
\<close>

theorem ddio_answers_64:
  assumes "(ddio_step fx h now)\<^sup>*\<^sup>* (d0, c0, 0, 0) (d, c, pos, ln)"
    and "cq_inv fx 10 (rqcq_ctx c0)" "send_area_ok (dt_ctx c0)" "db_ordered (trace d0)"
  shows "unat pos \<le> 64 \<and> cq_inv fx 10 (rqcq_ctx c) \<and> db_ordered (trace d) \<and>
         doorbells (trace d) = doorbells (trace d0) @
           map (\<lambda>i. (sq_pi (sq_ctx c0) + of_nat (Suc i), sq_number (sq_ctx c0))) [0..<unat pos] \<and>
         (\<not> pos < batch_pkg_num \<longrightarrow>
            unat pos = 64 \<and> total_loop_pos (snd (ddio_leave (d, c, pos, ln))) = (total_loop_pos c0 + 64) mod 1024)"
proof -
  have "ddio_sent fx (d0, c0) (d0, c0, 0, 0)" using assms(2-4) by (simp add: ddio_sent_def)
  from ddio_sent_reach[OF assms(1) this] have s: "ddio_sent fx (d0, c0) (d, c, pos, ln)" .
  have "unat pos = 64 \<Longrightarrow> pos = 64" by (simp add: word_unat_eq_iff)
  with s show ?thesis by (auto simp: ddio_sent_def ddio_leave_def word_less_nat_alt)
qed

theorem ddio_answers_64_witness:
  "\<exists>d c ln. (ddio_step one_shot_fx 0 0)\<^sup>*\<^sup>* (sample_dpa, sample_ddio, 0, 0) (d, c, 1, ln) \<and>
     doorbells (trace d) = [(1, 6)] \<and> cq_inv one_shot_fx 10 (rqcq_ctx c)"
proof -
  obtain d c ln where t: "ddio_turn one_shot_fx 0 0 (sample_dpa, sample_ddio, 0, 0) = Some (d, c, 1, ln)"
    using sample_ddio_turn by blast
  have r: "(ddio_step one_shot_fx 0 0)\<^sup>*\<^sup>* (sample_dpa, sample_ddio, 0, 0) (d, c, 1, ln)"
    by (intro r_into_rtranclp ddio_one) (simp_all add: t)
  have "doorbells (trace d) = [(1, 6)] \<and> cq_inv one_shot_fx 10 (rqcq_ctx c)"
    using ddio_answers_64[OF r] by (simp add: init_cq_at_inv send_area_ok_def db_ordered_def)
  with r show ?thesis by blast
qed

text \<open>
  the probe.  As long as the static position is a multiple of 64 below 1024, which each run of
  the handler preserves, every probe of the run reads and writes inside the 1 MiB receive area.
\<close>

lemma ddio_probe_in_area:
  assumes "64 dvd unat (total_loop_pos c)" "total_loop_pos c < total_pkg_num" "pos < batch_pkg_num"
  shows "unat ((pos + total_loop_pos c) * LOG2VALUE 10) + 1024 \<le> 2 ^ 20 \<and>
         (let c' = snd (ddio_leave (d, c, batch_pkg_num, ln))
          in 64 dvd unat (total_loop_pos c') \<and> total_loop_pos c' < total_pkg_num)"
proof -
  let ?t = "unat (total_loop_pos c)" and ?p = "unat pos"
  from assms have b: "?t < 1024" "?p < 64" by (simp_all add: word_less_nat_alt)
  from assms(1) obtain k where k: "?t = 64 * k" by (rule dvdE)
  with b have t: "?t \<le> 960" by simp
  have "unat ((pos + total_loop_pos c) * LOG2VALUE 10) = (?p + ?t) * 1024"
    using b by (simp add: LOG2VALUE_def unat_word_ariths)
  moreover have "unat ((total_loop_pos c + batch_pkg_num) mod total_pkg_num) = (?t + 64) mod 1024"
    using b by (simp only: unat_mod_distrib) (simp add: unat_word_ariths)
  moreover have "(?t + 64) mod 1024 = 64 * (Suc k mod 16)"
    using mod_mult_mult1[of 64 "Suc k" 16] k by (simp add: add.commute)
  ultimately show ?thesis
    using b t by (simp add: ddio_leave_def Let_def word_less_nat_alt)
qed

text \<open>
  the answer.  The fourteen header bytes in the send buffer are those of the received packet
  with the two addresses exchanged and the type kept, although probing writes into the receive
  area in between.
\<close>

lemma ddio_answer_header:
  assumes "process_ddio fx 0 now p len (d, c, pos, ln) = (d', c', pos', ln', buf)" "unat pos + unat now < 1024"
    and "data_seg_sep fx (fst (get_next_data_sqe fx (sq_ctx c))) buf 14" "dbr_local fx"
    and "sep buf 14 (rq_dbr (rq_ctx c)) 4" "sep buf 14 (cq_dbr (rqcq_ctx c)) 4"
  shows "load_bytes (mem d') buf 14 =
           (let bs = load_bytes (mem d) p 14 in take 6 (drop 6 bs) @ take 6 bs @ drop 12 bs)"
proof -
  let ?b = "p + (pos + now) * LOG2VALUE 10"
  let ?d1 = "fst (probe_lines fx 16 ?b (d, ln))"
  have b: "?b = p + of_nat ((unat pos + unat now) * 1024)" by (simp add: LOG2VALUE_def)
  have "mem ?d1 (p + of_nat i) = mem d (p + of_nat i)" if "i < 14" for i
    unfolding b using assms(2) that by (intro probe_lines_outside probe_off_header) auto
  then have h: "load_bytes (mem ?d1) p 14 = load_bytes (mem d) p 14" by (intro load_bytes_cong) simp
  let ?d2 = "fst (prepare_send_packet fx (sq_ctx c) buf len (upd_mem (copy_header buf p) ?d1))"
  have "load_bytes (mem ?d2) buf 14 = load_bytes (copy_header buf p (mem ?d1)) buf 14"
    using prepare_send_packet_mem(2)[OF assms(3)] by simp
  moreover have "mem d' (buf + of_nat i) = mem ?d2 (buf + of_nat i)" if "i < 14" for i
  proof -
    have "inside (buf + of_nat i) buf 14" using that by (intro inside_off) auto
    then have "\<not> inside (buf + of_nat i) (rq_dbr (rq_ctx c)) 4" "\<not> inside (buf + of_nat i) (cq_dbr (rqcq_ctx c)) 4"
      using sep_outside assms(5,6) by blast+
    then show ?thesis
      using assms(1) step_mem_outside[OF assms(4)] by (auto simp: process_ddio_def Let_def case_prod_beta)
  qed
  then have "load_bytes (mem d') buf 14 = load_bytes (mem ?d2) buf 14" by (intro load_bytes_cong) simp
  ultimately show ?thesis by (simp add: copy_header_bytes h)
qed

end
