(* ===== verification/Hostrq.thy ===== *)
theory Hostrq
  imports Ddio
begin

text \<open>
  The host-receive-queue experiment \<open>flexio/dpa_refactor_test_hostrq/device/dpa_refactor_device.c\<close>: like
  the cache-placement reflector, with the receive area on the host, 2048 entries and a position
  that runs to 4096.  Two more routines rewrite the receive ring so that even entries point
  to host memory and odd ones to DPA memory (\<open>init_rq_ring\<close>), and measure a pointer chase around
  a ring of 49152 cache lines (\<open>begin_dpa_rq_loop\<close>).
\<close>

subsection \<open>Context and initialisation\<close>

record hostrq_ctx = dev_base +
  lkey :: u32
  packets_count :: u32
  host_rq_addr :: ptr
  dpa_rq_addr :: ptr
  host_rq_lkey :: u32
  dpa_rq_lkey :: u32
  rq_buff :: ptr
  dummy :: u64
  now_pos :: u64

definition init_cq_hostrq :: "app_transfer_cq \<Rightarrow> cq_ctx_t \<Rightarrow> cq_ctx_t" where
  "init_cq_hostrq = init_cq_at 11"

definition init_rq_hostrq :: "app_transfer_wq \<Rightarrow> rq_ctx_t \<Rightarrow> rq_ctx_t" where
  "init_rq_hostrq = init_rq_at 11"

definition init_sq_hostrq :: "flexio \<Rightarrow> app_transfer_wq \<Rightarrow> sq_ctx_t \<Rightarrow> sq_ctx_t" where
  "init_sq_hostrq fx = init_sq_at fx 11"

text \<open>As in the cache-placement program, the sum is only printed.\<close>

definition dpa_hostrq_device_init ::
  "flexio \<Rightarrow> queue_config_data \<Rightarrow> dpa \<times> hostrq_ctx \<Rightarrow> u64 \<times> u64 \<times> dpa \<times> hostrq_ctx" where
  "dpa_hostrq_device_init fx shared_data = (\<lambda>(d, c).
     let c = c\<lparr>lkey := wqd_mkey_id (sq_data shared_data),
               rqcq_ctx := init_cq_hostrq (rq_cq_data shared_data) (rqcq_ctx c),
               rq_ctx := init_rq_hostrq (rq_data shared_data) (rq_ctx c),
               sqcq_ctx := init_cq_hostrq (sq_cq_data shared_data) (sqcq_ctx c),
               sq_ctx := init_sq_hostrq fx (sq_data shared_data) (sq_ctx c)\<rparr>;
         (d, sq) = init_send_sq fx (sq_ctx c) (ucast (LOG2VALUE 11)) (lkey c) d;
         c = c\<lparr>sq_ctx := sq,
               dt_ctx := (dt_ctx c)\<lparr>sq_tx_buff := wqd_daddr (sq_data shared_data),
                                   tx_buff_idx := 0, data_idx_mask := ring_mask 11\<rparr>,
               is_initalized := 1,
               rq_buff := wqd_daddr (rq_data shared_data)\<rparr>;
         sum = sum_area (mem d) (sq_tx_buff (dt_ctx c)) (unat (LOG2VALUE 13)) (unat (LOG2VALUE 12) div 8) 0
     in (0, sum, d, c\<lparr>dpa_rq_addr := new_buffer_addr shared_data,
                      dpa_rq_lkey := new_buffer_mkey_id shared_data,
                      host_rq_addr := wqd_daddr (rq_data shared_data),
                      host_rq_lkey := wqd_mkey_id (rq_data shared_data)\<rparr>))"

subsection \<open>Rewriting the receive ring\<close>

text \<open>A \<open>struct wqe_data_seg\<close>: byte count, key and address, 16 bytes.\<close>

record wqe_data_seg =
  byte_count :: u32
  seg_lkey :: u32
  seg_addr :: u64

definition load_seg :: "memory \<Rightarrow> ptr \<Rightarrow> wqe_data_seg" where
  "load_seg m p = \<lparr>byte_count = load32 m p, seg_lkey = load32 m (p + 4), seg_addr = load64 m (p + 8)\<rparr>"

definition store_seg :: "ptr \<Rightarrow> wqe_data_seg \<Rightarrow> memory \<Rightarrow> memory" where
  "store_seg p s m = store64 (store32 (store32 m p (byte_count s)) (p + 4) (seg_lkey s)) (p + 8) (seg_addr s)"

text \<open>The segment that the body of the loop writes for entry \<open>i\<close>.\<close>

definition rq_ring_seg :: "flexio \<Rightarrow> hostrq_ctx \<Rightarrow> nat \<Rightarrow> ptr \<Rightarrow> ptr \<Rightarrow> wqe_data_seg" where
  "rq_ring_seg fx c i host_addr dpa_addr =
     (if i mod 2 = 0
      then \<lparr>byte_count = cpu_to_be32 fx (ucast (LOG2VALUE 10)), seg_lkey = cpu_to_be32 fx (host_rq_lkey c),
            seg_addr = cpu_to_be64 fx host_addr\<rparr>
      else \<lparr>byte_count = cpu_to_be32 fx (ucast (LOG2VALUE 10)), seg_lkey = cpu_to_be32 fx (dpa_rq_lkey c),
            seg_addr = cpu_to_be64 fx dpa_addr\<rparr>)"

fun rq_ring_loop :: "flexio \<Rightarrow> hostrq_ctx \<Rightarrow> nat \<Rightarrow> nat \<Rightarrow> ptr \<Rightarrow> ptr \<Rightarrow> ptr \<Rightarrow> memory \<Rightarrow> memory" where
  "rq_ring_loop fx c i 0 dseg host_addr dpa_addr m = m"
| "rq_ring_loop fx c i (Suc n) dseg host_addr dpa_addr m =
     rq_ring_loop fx c (Suc i) n (dseg + 16) (host_addr + LOG2VALUE 10) (dpa_addr + LOG2VALUE 10)
       (store_seg dseg (rq_ring_seg fx c i host_addr dpa_addr) m)"

definition init_rq_ring :: "flexio \<Rightarrow> dpa \<times> hostrq_ctx \<Rightarrow> dpa" where
  "init_rq_ring fx = (\<lambda>(d, c).
     emit Memory_writeback (emit System_fence
       (upd_mem (rq_ring_loop fx c 0 (unat (LOG2VALUE 11)) (rq_ring (rq_ctx c)) (host_rq_addr c) (dpa_rq_addr c)) d)))"

subsection \<open>The pointer chase\<close>

text \<open>\<open>struct element\<close> is a pointer and seven words of padding.\<close>

fun zero_padding :: "nat \<Rightarrow> ptr \<Rightarrow> memory \<Rightarrow> memory" where
  "zero_padding 0 p m = m"
| "zero_padding (Suc j) p m = zero_padding j (p + 8) (store64 m p 0)"

fun link_loop :: "nat \<Rightarrow> ptr \<Rightarrow> nat \<Rightarrow> nat \<Rightarrow> memory \<Rightarrow> memory" where
  "link_loop num_elem data i 0 m = m"
| "link_loop num_elem data i (Suc n) m =
     link_loop num_elem data (Suc i) n
       (zero_padding 7 (data + of_nat (64 * i) + 8)
         (store64 m (data + of_nat (64 * i)) (data + of_nat (64 * ((i + 1) mod num_elem)))))"

fun chase :: "memory \<Rightarrow> nat \<Rightarrow> ptr \<Rightarrow> ptr" where
  "chase m 0 p = p"
| "chase m (Suc n) p = chase m n (load64 m p)"

text \<open>The two lines it prints: elapsed cycles, number of steps, final pointer.\<close>

definition begin_dpa_rq_loop ::
  "flexio \<Rightarrow> dpa \<times> hostrq_ctx \<Rightarrow> dpa \<times> (u64 \<times> nat \<times> ptr) \<times> (u64 \<times> nat \<times> ptr)" where
  "begin_dpa_rq_loop fx = (\<lambda>(d, c).
     let num_elem = 49152; data = dpa_rq_addr c;
         d = upd_mem (link_loop num_elem data 0 num_elem) d;
         (t1, d) = read_cycles fx d;
         p = chase (mem d) 20000000 data;
         (t2, d) = read_cycles fx d;
         (u1, d) = read_cycles fx d;
         q = chase (mem d) num_elem data;
         (u2, d) = read_cycles fx d
     in (d, (t2 - t1, 20000000, p), (u2 - u1, num_elem, q)))"

subsection \<open>The event handler\<close>

definition process_hostrq ::
  "flexio \<Rightarrow> u64 \<Rightarrow> ptr \<Rightarrow> u32 \<Rightarrow> dpa \<times> hostrq_ctx \<times> u64 \<times> u64 \<Rightarrow> dpa \<times> hostrq_ctx \<times> u64 \<times> u64 \<times> ptr" where
  "process_hostrq fx now_pos_loop data data_sz = (\<lambda>(d, c, pos, load_num).
     let tmp_ptr = data + (pos + now_pos_loop) * LOG2VALUE 10;
         (d, load_num) = probe_lines fx 16 tmp_ptr (d, load_num);
         c = c\<lparr>dummy := dummy c + load_num\<rparr>;
         pos = pos + 1;
         (buf, dt) = get_next_send_buf (dt_ctx c) 10;
         d = upd_mem (copy_header buf data) d;
         (d, sq) = prepare_send_packet fx (sq_ctx c) buf data_sz d;
         d = step_rq fx (rq_ctx c) d;
         (d, cq) = step_cq fx (rqcq_ctx c) d
     in (d, c\<lparr>dt_ctx := dt, sq_ctx := sq, rqcq_ctx := cq\<rparr>, pos, load_num, buf))"

definition skip_entry_hostrq :: "flexio \<Rightarrow> dpa \<Rightarrow> hostrq_ctx \<Rightarrow> dpa \<times> hostrq_ctx" where
  "skip_entry_hostrq fx d c =
     (let d = step_rq fx (rq_ctx c) d; (d, cq) = step_cq fx (rqcq_ctx c) d in (d, c\<lparr>rqcq_ctx := cq\<rparr>))"

partial_function (option) hostrq_recv ::
  "flexio \<Rightarrow> u64 \<Rightarrow> u64 \<Rightarrow> u64 \<Rightarrow> dpa \<Rightarrow> hostrq_ctx \<Rightarrow> (dpa \<times> hostrq_ctx \<times> u64 \<times> u64 \<times> ptr) option" where
  "hostrq_recv fx now pos load_num d c =
     (if \<not> cqe_ready fx (mem d) (rqcq_ctx c) then Some (d, c, pos, load_num, 0)
      else if snd (receive_packet fx (mem d) (rqcq_ctx c) (rq_ctx c)) = 73
           then hostrq_recv fx now pos load_num (fst (skip_entry_hostrq fx d c)) (snd (skip_entry_hostrq fx d c))
           else Some (process_hostrq fx now (fst (receive_packet fx (mem d) (rqcq_ctx c) (rq_ctx c)))
                   (snd (receive_packet fx (mem d) (rqcq_ctx c) (rq_ctx c))) (d, c, pos, load_num)))"

partial_function (option) hostrq_skip :: "flexio \<Rightarrow> dpa \<Rightarrow> hostrq_ctx \<Rightarrow> (dpa \<times> hostrq_ctx) option" where
  "hostrq_skip fx d c =
     (if cqe_ready fx (mem d) (rqcq_ctx c)
      then hostrq_skip fx (fst (skip_entry_hostrq fx d c)) (snd (skip_entry_hostrq fx d c)) else Some (d, c))"

text \<open>One turn of the loop \<open>while (pos < batch_size / 64)\<close>.\<close>

definition hostrq_turn ::
  "flexio \<Rightarrow> u64 \<Rightarrow> dpa \<times> hostrq_ctx \<times> u64 \<times> u64 \<Rightarrow> (dpa \<times> hostrq_ctx \<times> u64 \<times> u64) option" where
  "hostrq_turn fx now = (\<lambda>(d, c, pos, load_num).
     Option.bind (hostrq_recv fx now pos load_num d c) (\<lambda>(d, c, pos, load_num, buf).
       if buf = 0 then Some (d, c, pos, load_num)
       else Option.bind (hostrq_skip fx d c) (\<lambda>(d, c).
         let d = emit Memory_fence d;
             load_num = sum_area (mem d) (sq_tx_buff (dt_ctx c)) (unat (LOG2VALUE 13)) (unat (LOG2VALUE 12) div 8) load_num;
             d = emit Memory_fence d;
             load_num = sum_area (mem d) (rq_buff c) 0 (unat (LOG2VALUE 10) div 8) load_num;
             d = emit Memory_fence d;
             (d, sq) = finish_send_packet (sq_ctx c) d
         in Some (d, c\<lparr>sq_ctx := sq\<rparr>, pos, load_num))))"

abbreviation batch_size_hostrq :: u64 where "batch_size_hostrq \<equiv> 4096"

definition dpa_hostrq_device_event_handler :: "flexio \<Rightarrow> dpa \<times> hostrq_ctx \<Rightarrow> (hostrq_ctx \<times> u64 \<times> u64) outcome" where
  "dpa_hostrq_device_event_handler fx = (\<lambda>(d, c).
     if is_initalized c = 0 then Exited (emit Reschedule d) (c, 0, 0) else Polling d (c, 0, 0))"

definition hostrq_leave :: "dpa \<times> hostrq_ctx \<times> u64 \<times> u64 \<Rightarrow> dpa \<times> hostrq_ctx" where
  "hostrq_leave = (\<lambda>(d, c, pos, load_num).
     let c = c\<lparr>now_pos := (now_pos c + pos) mod batch_size_hostrq\<rparr>
     in (emit Reschedule (emit (Cq_arm (cq_idx (rqcq_ctx c)) (cq_number (rqcq_ctx c))) (emit Thread_fence d)), c))"

inductive hostrq_step ::
  "flexio \<Rightarrow> u64 \<Rightarrow> dpa \<times> hostrq_ctx \<times> u64 \<times> u64 \<Rightarrow> dpa \<times> hostrq_ctx \<times> u64 \<times> u64 \<Rightarrow> bool"
  for fx now where
  hostrq_card: "hostrq_step fx now (d, s) (d\<lparr>mem := m\<rparr>, s)"
| hostrq_one: "pos < batch_size_hostrq div 64 \<Longrightarrow> hostrq_turn fx now (d, c, pos, ln) = Some t \<Longrightarrow>
     hostrq_step fx now (d, c, pos, ln) t"

subsection \<open>Lemmas on the receive ring\<close>

lemma store_seg_outside: "\<not> inside a p 16 \<Longrightarrow> store_seg p s m a = m a"
proof -
  assume "\<not> inside a p 16"
  then have "\<not> inside a (p + of_nat k) l" if "k + l \<le> 16" for k l using inside_sub[of a p k l 16] that by auto
  from this[of 0 4] this[of 4 4] this[of 8 8] show ?thesis by (simp add: store_seg_def store_le_outside)
qed

lemma load_seg_store_seg: "load_seg (store_seg p s m) p = s"
  using sep_offs[of 4 4 8 8 p] sep_offs[of 0 4 4 4 p] sep_offs[of 0 4 8 8 p]
  by (simp add: load_seg_def store_seg_def mem_simps sep_sym)

lemma load_seg_cong:
  assumes "\<And>i. i < 16 \<Longrightarrow> m (p + of_nat i) = m' (p + of_nat i)"
  shows "load_seg m p = load_seg m' p"
proof -
  have "m (p + of_nat k + of_nat i) = m' (p + of_nat k + of_nat i)" if "k + i < 16" for k i
    using assms[OF that] by (simp add: add.assoc)
  from this[of 0] this[of 4] this[of 8] show ?thesis
    by (auto simp: load_seg_def intro!: load_le_cong)
qed

text \<open>The turn of the loop for entry \<open>i\<close>, by its index.\<close>

definition rq_ring_wr :: "flexio \<Rightarrow> hostrq_ctx \<Rightarrow> nat \<Rightarrow> memory \<Rightarrow> memory" where
  "rq_ring_wr fx c i = store_seg (rq_ring (rq_ctx c) + of_nat (16 * i))
     (rq_ring_seg fx c i (host_rq_addr c + of_nat (1024 * i)) (dpa_rq_addr c + of_nat (1024 * i)))"

interpretation rq_table: table_fill "rq_ring_wr fx c" "rq_ring (rq_ctx c)" 16 for fx c
  by unfold_locales (simp add: rq_ring_wr_def store_seg_outside del: of_nat_mult)

lemma rq_ring_loop_fold:
  "rq_ring_loop fx c i n (rq_ring (rq_ctx c) + of_nat (16 * i)) (host_rq_addr c + of_nat (1024 * i))
     (dpa_rq_addr c + of_nat (1024 * i)) m = fold (rq_ring_wr fx c) [i..<i + n] m"
proof (induction n arbitrary: i m)
  case (Suc n)
  have "p + of_nat (16 * i) + 16 = p + of_nat (16 * Suc i)"
    "p + of_nat (1024 * i) + LOG2VALUE 10 = p + of_nat (1024 * Suc i)" for p :: ptr
    by (simp_all add: LOG2VALUE_def)
  moreover have "[i..<i + Suc n] = i # [Suc i..<Suc i + n]" by (simp add: upt_conv_Cons del: upt_Suc)
  ultimately show ?case
    by (simp only: rq_ring_loop.simps Suc.IH[of "Suc i"] fold.simps comp_apply rq_ring_wr_def[of fx c i])
qed simp

lemma init_rq_ring_mem:
  "mem (init_rq_ring fx (d, c)) = fold (rq_ring_wr fx c) [0..<2048] (mem d)"
  using rq_ring_loop_fold[of fx c 0 2048] by (simp add: init_rq_ring_def LOG2VALUE_def)

subsection \<open>Lemmas on the pointer chase\<close>

lemma zero_padding_outside: "8 * n \<le> 2 ^ 64 \<Longrightarrow> \<not> inside a p (8 * n) \<Longrightarrow> zero_padding n p m a = m a"
proof (induction n arbitrary: p m)
  case (Suc n)
  have "\<not> inside a (p + of_nat 8) (8 * n)" "\<not> inside a (p + of_nat 0) 8"
    using Suc.prems inside_sub[of a p 8 "8 * n" "8 * Suc n"] inside_sub[of a p 0 8 "8 * Suc n"] by auto
  with Suc show ?case by (simp add: store_le_outside)
qed simp

definition link_wr :: "nat \<Rightarrow> ptr \<Rightarrow> nat \<Rightarrow> memory \<Rightarrow> memory" where
  "link_wr num_elem data i m = zero_padding 7 (data + of_nat (64 * i) + 8)
     (store64 m (data + of_nat (64 * i)) (data + of_nat (64 * ((i + 1) mod num_elem))))"

interpretation link_table: table_fill "link_wr num_elem data" data 64 for num_elem data
proof unfold_locales
  fix a i and m :: memory
  assume "\<not> inside a (data + of_nat (64 * i)) 64"
  then have "\<not> inside a (data + of_nat (64 * i) + of_nat 8) 56" "\<not> inside a (data + of_nat (64 * i) + of_nat 0) 8"
    using inside_sub[of a _ 8 56 64] inside_sub[of a _ 0 8 64] by (auto simp del: of_nat_mult)
  then show "link_wr num_elem data i m a = m a"
    by (simp add: link_wr_def zero_padding_outside[of 7] store_le_outside)
qed

lemma link_loop_fold: "link_loop num_elem data i n m = fold (link_wr num_elem data) [i..<i + n] m"
  by (induction n arbitrary: i m) (simp_all add: upt_conv_Cons link_wr_def del: upt_Suc)

lemma link_wr_next:
  "load64 (link_wr num_elem data i m) (data + of_nat (64 * i)) = data + of_nat (64 * ((i + 1) mod num_elem))"
proof -
  let ?p = "data + of_nat (64 * i)"
  have "sep (?p + of_nat 8) (8 * 7) (?p + of_nat 0) 8" using sep_offs[of 0 8 8 56 ?p] by (simp add: sep_sym)
  then have "load64 (zero_padding 7 (?p + 8) m') ?p = load64 m' ?p" for m' :: memory
    by (intro load_le_cong) (simp add: zero_padding_outside sep_off del: of_nat_mult)
  then show ?thesis by (simp add: link_wr_def mem_simps del: of_nat_mult)
qed

lemma link_loop_next:
  assumes "i < num_elem" "64 * num_elem \<le> 2 ^ 64"
  shows "load64 (link_loop num_elem data 0 num_elem m) (data + of_nat (64 * i))
    = data + of_nat (64 * ((i + 1) mod num_elem))"
proof -
  have "load64 (fold (link_wr num_elem data) [0..<num_elem] m) (data + of_nat (64 * i))
    = load64 (link_wr num_elem data i (fold (link_wr num_elem data) [0..<i] m)) (data + of_nat (64 * i))"
    using assms by (intro link_table.fill_read load_le_cong) auto
  then show ?thesis by (simp only: link_loop_fold link_wr_next add_0)
qed

lemma chase_cycle:
  assumes "\<And>i. i < N \<Longrightarrow> load64 m (p + of_nat (64 * i)) = p + of_nat (64 * ((i + 1) mod N))" "i < N"
  shows "chase m n (p + of_nat (64 * i)) = p + of_nat (64 * ((i + n) mod N))"
  using assms(2)
proof (induction n arbitrary: i)
  case (Suc n)
  from Suc.IH[of "(i + 1) mod N"] Suc.prems assms(1)[OF Suc.prems] show ?case
    by (simp add: mod_add_left_eq del: of_nat_mult)
qed simp

subsection \<open>The probed position\<close>

text \<open>
  The static position after \<open>k\<close> runs of the handler, and where the first probe of the next run
  falls: in half of the runs it is beyond the \<open>2^11\<close> entries of \<open>2^10\<close> bytes that the receive queue has.
\<close>

lemma hostrq_leave_pos:
  "now_pos c = 0 \<Longrightarrow> now_pos (((\<lambda>c. snd (hostrq_leave (d, c, 64, ln))) ^^ k) c) = of_nat (64 * (k mod 64))"
proof (induction k)
  case (Suc k)
  let ?n = "64 * (k mod 64)"
  have "(of_nat ?n + 64) mod 4096 = (of_nat (64 * (Suc k mod 64)) :: u64)"
  proof (rule word_unat_eq_iff[THEN iffD2])
    have k: "k mod 64 < 64" by simp
    then have "unat (of_nat ?n + 64 :: u64) = ?n + 64"
      by (simp add: unat_word_ariths unat_of_nat take_bit_nat_eq_self del: of_nat_mult)
    moreover have "(?n + 64) mod 4096 = 64 * (Suc k mod 64)"
      using mod_mult_mult1[of 64 "Suc (k mod 64)" 64] by (simp add: mod_Suc_eq add.commute)
    moreover have "64 * (Suc k mod 64) < 2 ^ 64" using mod_less_divisor[of 64 "Suc k"] by simp
    ultimately show "unat ((of_nat ?n + 64) mod 4096 :: u64) = unat (of_nat (64 * (Suc k mod 64)) :: u64)"
      by (simp only: unat_mod_distrib) (simp add: unat_of_nat take_bit_nat_eq_self del: of_nat_mult)
  qed
  with Suc show ?case by (simp add: hostrq_leave_def Let_def del: of_nat_mult)
qed simp

lemma hostrq_probe_overruns:
  assumes "now_pos c = 0" "((\<lambda>c. snd (hostrq_leave (d, c, 64, ln))) ^^ k) c = c'"
  shows "inside (data + now_pos c' * LOG2VALUE 10) data (2 ^ 11 * 2 ^ 10) \<longleftrightarrow> k mod 64 < 32"
proof -
  have "now_pos c' * LOG2VALUE 10 = of_nat (65536 * (k mod 64))"
    using hostrq_leave_pos[OF assms(1), of k d ln] assms(2) by (simp add: LOG2VALUE_def)
  moreover have "k mod 64 < 64" by simp
  ultimately show ?thesis by (auto simp: inside_def unat_of_nat take_bit_nat_eq_self simp del: of_nat_mult)
qed

subsection \<open>A concrete context\<close>

definition sample_hostrq :: hostrq_ctx where
  "sample_hostrq = \<lparr>is_initalized = 1, rqcq_ctx = cq_zero, sqcq_ctx = cq_zero,
     rq_ctx = init_rq_hostrq (rq_data sample_qcd) rq_zero, sq_ctx = sq_zero, dt_ctx = dt_zero, lkey = 0, packets_count = 0,
     host_rq_addr = 0x300000, dpa_rq_addr = 0x700000, host_rq_lkey = 8, dpa_rq_lkey = 9,
     rq_buff = 0x300000, dummy = 0, now_pos = 0\<rparr>"

lemma sample_hostrq_simps [simp]:
  "host_rq_addr sample_hostrq = 0x300000" "dpa_rq_addr sample_hostrq = 0x700000"
  "host_rq_lkey sample_hostrq = 8" "dpa_rq_lkey sample_hostrq = 9" "rq_ring (rq_ctx sample_hostrq) = 0x20000"
  by (simp_all add: sample_hostrq_def init_rq_hostrq_def init_rq_at_def sample_qcd_def)

subsection \<open>Properties\<close>

text \<open>
  C19: after \<open>init_rq_ring\<close> every entry of the receive ring describes a buffer of 1024 bytes: the even
  entries the buffer of their index in the host area, the odd ones that in the DPA area, each
  with the key of its area, in the card's byte order.  Nothing outside the ring changes.
\<close>

theorem init_rq_ring_entries:
  "(k < 2048 \<longrightarrow> load_seg (mem (init_rq_ring fx (d, c))) (rq_ring (rq_ctx c) + of_nat (16 * k))
      = \<lparr>byte_count = cpu_to_be32 fx 1024,
         seg_lkey = cpu_to_be32 fx (if even k then host_rq_lkey c else dpa_rq_lkey c),
         seg_addr = cpu_to_be64 fx ((if even k then host_rq_addr c else dpa_rq_addr c) + of_nat (1024 * k))\<rparr>) \<and>
   (\<not> inside a (rq_ring (rq_ctx c)) (16 * 2048) \<longrightarrow> mem (init_rq_ring fx (d, c)) a = mem d a)"
proof (intro conjI impI)
  assume "k < 2048"
  then have "load_seg (fold (rq_ring_wr fx c) [0..<2048] (mem d)) (rq_ring (rq_ctx c) + of_nat (16 * k))
    = rq_ring_seg fx c k (host_rq_addr c + of_nat (1024 * k)) (dpa_rq_addr c + of_nat (1024 * k))"
    by (subst rq_table.fill_read[of k 2048])
      (auto simp: rq_ring_wr_def load_seg_store_seg simp del: of_nat_mult intro: load_seg_cong)
  then show "load_seg (mem (init_rq_ring fx (d, c))) (rq_ring (rq_ctx c) + of_nat (16 * k))
      = \<lparr>byte_count = cpu_to_be32 fx 1024,
         seg_lkey = cpu_to_be32 fx (if even k then host_rq_lkey c else dpa_rq_lkey c),
         seg_addr = cpu_to_be64 fx ((if even k then host_rq_addr c else dpa_rq_addr c) + of_nat (1024 * k))\<rparr>"
    by (simp add: init_rq_ring_mem rq_ring_seg_def LOG2VALUE_def even_iff_mod_2_eq_zero del: of_nat_mult)
next
  assume "\<not> inside a (rq_ring (rq_ctx c)) (16 * 2048)"
  then show "mem (init_rq_ring fx (d, c)) a = mem d a"
    using rq_table.fill_beyond[of 2048] by (simp add: init_rq_ring_mem)
qed

theorem init_rq_ring_entries_witness:
  "load_seg (mem (init_rq_ring sample_fx (sample_dpa, sample_hostrq))) 0x20030
     = \<lparr>byte_count = bswap32 1024, seg_lkey = bswap32 9, seg_addr = bswap64 0x700C00\<rparr>"
  using init_rq_ring_entries[of 3 sample_fx sample_dpa sample_hostrq 0] by simp

text \<open>
  C30: the pointer chase runs around one cycle through all 49152 lines: the second measurement
  visits every line exactly once and ends where it began, the first ends at line 44288.
\<close>

theorem begin_dpa_rq_loop_cycle:
  assumes "begin_dpa_rq_loop fx (d, c) = (d', (t, n, p), (t', n', q))"
  shows "n = 20000000 \<and> p = dpa_rq_addr c + of_nat (64 * 44288) \<and> n' = 49152 \<and> q = dpa_rq_addr c \<and>
    bij_betw (\<lambda>j. chase (mem d') j (dpa_rq_addr c)) {..<n'} ((\<lambda>i. dpa_rq_addr c + of_nat (64 * i)) ` {..<n'})"
proof -
  let ?m = "link_loop 49152 (dpa_rq_addr c) 0 49152 (mem d)"
  have ch: "chase ?m j (dpa_rq_addr c) = dpa_rq_addr c + of_nat (64 * (j mod 49152))" for j
    using chase_cycle[of 49152 ?m "dpa_rq_addr c" 0 j] link_loop_next[of _ 49152 "dpa_rq_addr c" "mem d"] by simp
  have r: "n = 20000000" "p = chase ?m 20000000 (dpa_rq_addr c)" "n' = 49152" "q = chase ?m 49152 (dpa_rq_addr c)"
    "mem d' = ?m"
    using assms by (auto simp: begin_dpa_rq_loop_def Let_def case_prod_beta simp del: link_loop.simps chase.simps)
  have "inj_on (\<lambda>i. dpa_rq_addr c + of_nat (64 * i)) {..<49152}"
  proof (rule inj_onI)
    fix i j assume "i \<in> {..<49152}" "j \<in> {..<49152}" "dpa_rq_addr c + of_nat (64 * i) = dpa_rq_addr c + of_nat (64 * j)"
    then have "unat (of_nat (64 * i) :: u64) = unat (of_nat (64 * j) :: u64)" "i < 49152" "j < 49152"
      by (simp_all del: of_nat_mult)
    then show "i = j" by (simp add: unat_of_nat take_bit_nat_eq_self del: of_nat_mult)
  qed
  then show ?thesis unfolding r ch bij_betw_def by (auto simp: inj_on_def simp del: of_nat_mult)
qed

theorem begin_dpa_rq_loop_cycle_witness:
  "\<exists>d' t t'. begin_dpa_rq_loop sample_fx (sample_dpa, sample_hostrq)
       = (d', (t, 20000000, 0x700000 + 64 * 44288), (t', 49152, 0x700000))"
proof -
  obtain d' t n p t' n' q where
    r: "begin_dpa_rq_loop sample_fx (sample_dpa, sample_hostrq) = (d', (t, n, p), (t', n', q))"
    by (metis prod_cases3)
  with begin_dpa_rq_loop_cycle[OF r] show ?thesis by auto
qed

end
