(* ===== verification/Send.thy ===== *)
theory Send
  imports Refactor
begin

text \<open>
  The latency generators \<open>flexio/dpa_send/device/dpa_send_device.c\<close> and
  \<open>flexio/dpa_send_ntp/device/dpa_send_ntp_device.c\<close>.  The host asks for a first packet; each packet
  of the right size that comes back is timed and answered by a fresh packet with the next
  index and the current time.  Packets of another size are dropped.  The two programs have the
  same text except for the payload: two words in the first, a \<open>struct ntp_header\<close> in the second.
\<close>

subsection \<open>Payloads and contexts\<close>

text \<open>
  \<open>pkt_size\<close>, and the offsets in the packet of the time stamp and of the packet index.
\<close>

record payload =
  pkt_size :: u32
  ts_off :: ptr
  index_off :: ptr

definition send_payload :: payload where
  "send_payload = \<lparr>pkt_size = 42 + 22, ts_off = 42, index_off = 42 + 8\<rparr>"

text \<open>\<open>timestamp1.n_sec\<close> is the second word of a \<open>struct ntp_header\<close> of nine words, \<open>send_index\<close> the last.\<close>

definition ntp_payload :: payload where
  "ntp_payload = \<lparr>pkt_size = 42 + 72, ts_off = 42 + 8, index_off = 42 + 64\<rparr>"

abbreviation batch_size_send :: u32 where "batch_size_send \<equiv> 100000"

record send_ctx = refactor_ctx +
  host_sq_ctx :: host_sq_ctx_t
  total_cycles :: u64
  send_index :: u64

definition SRC_ADDR_send :: "u8 list" where "SRC_ADDR_send = [0x02, 0x01, 0x01, 0x01, 0x01, 0x01]"
definition DST_ADDR_send :: "u8 list" where "DST_ADDR_send = [0x01, 0x01, 0x01, 0x01, 0x01, 0x01]"

definition init_cq_send :: "app_transfer_cq \<Rightarrow> cq_ctx_t \<Rightarrow> cq_ctx_t" where
  "init_cq_send = init_cq_at 7"

definition init_rq_send :: "app_transfer_wq \<Rightarrow> rq_ctx_t \<Rightarrow> rq_ctx_t" where
  "init_rq_send = init_rq_at 7"

definition init_sq_send :: "flexio \<Rightarrow> app_transfer_wq \<Rightarrow> sq_ctx_t \<Rightarrow> sq_ctx_t" where
  "init_sq_send fx = init_sq_at fx 7"

definition init_cq_ntp :: "app_transfer_cq \<Rightarrow> cq_ctx_t \<Rightarrow> cq_ctx_t" where
  "init_cq_ntp = init_cq_at 7"

definition init_rq_ntp :: "app_transfer_wq \<Rightarrow> rq_ctx_t \<Rightarrow> rq_ctx_t" where
  "init_rq_ntp = init_rq_at 7"

definition init_sq_ntp :: "flexio \<Rightarrow> app_transfer_wq \<Rightarrow> sq_ctx_t \<Rightarrow> sq_ctx_t" where
  "init_sq_ntp fx = init_sq_at fx 7"

subsection \<open>Building a packet\<close>

text \<open>
  The IP and UDP headers, as all programs that build packets write them: packet identifier
  \<open>ident\<close>, and \<open>ends\<close> as addresses and ports.  \<open>cpu_to_be16\<close> is applied to the 32-bit
  addresses too.  The two checksums are not written.
\<close>

definition write_ip_udp :: "flexio \<Rightarrow> u16 \<Rightarrow> u16 \<Rightarrow> ptr \<Rightarrow> memory \<Rightarrow> memory" where
  "write_ip_udp fx ident ends p m =
     (let m = m(p + off_version_ihl := 0x45);
          m = m(p + off_type_of_service := 0);
          m = store16 m (p + off_total_length) (cpu_to_be16 fx (8 * 2 + 8 + 20));
          m = store16 m (p + off_packet_id) (cpu_to_be16 fx ident);
          m = store16 m (p + off_fragment_offset) (cpu_to_be16 fx 0);
          m = m(p + off_time_to_live := 64);
          m = m(p + off_next_proto_id := 17);
          m = store32 m (p + off_ip_src) (ucast (cpu_to_be16 fx ends));
          m = store32 m (p + off_ip_dst) (ucast (cpu_to_be16 fx ends));
          m = store16 m (p + off_dgram_len) (cpu_to_be16 fx (8 * 2 + 8));
          m = store16 m (p + off_src_port) (cpu_to_be16 fx ends);
          m = store16 m (p + off_dst_port) (cpu_to_be16 fx ends)
      in m)"

definition prepare_packet_send :: "flexio \<Rightarrow> send_ctx \<Rightarrow> ptr \<Rightarrow> memory \<Rightarrow> memory" where
  "prepare_packet_send fx c buf m =
     (let m = store_bytes m (buf + off_eth_src) SRC_ADDR_send;
          m = store_bytes m buf DST_ADDR_send;
          m = store16 m (buf + off_ether_type) (cpu_to_be16 fx 0x0800)
      in write_ip_udp fx (ucast (send_index c)) 1 buf m)"

text \<open>
  The packet as a local structure, whose checksums are indeterminate (\<open>ck\<close>), copied through the
  window.
\<close>

definition make_udp_packet :: "flexio \<Rightarrow> u8 list \<Rightarrow> u8 list \<Rightarrow> u16 \<Rightarrow> u16 \<Rightarrow> u16 \<times> u16 \<Rightarrow> udp_packet" where
  "make_udp_packet fx src dst ident ends ck =
     \<lparr>pkt_eth = \<lparr>eth_dst_addr = dst, eth_src_addr = src, ether_type = cpu_to_be16 fx 0x0800\<rparr>,
      pkt_ip = \<lparr>version_ihl = 0x45, type_of_service = 0, total_length = cpu_to_be16 fx (8 * 2 + 8 + 20),
                packet_id = cpu_to_be16 fx ident, fragment_offset = cpu_to_be16 fx 0,
                time_to_live = 64, next_proto_id = 17, hdr_checksum = fst ck,
                ip_src_addr = ucast (cpu_to_be16 fx ends), ip_dst_addr = ucast (cpu_to_be16 fx ends)\<rparr>,
      pkt_udp = \<lparr>src_port = cpu_to_be16 fx ends, dst_port = cpu_to_be16 fx ends,
                 dgram_len = cpu_to_be16 fx (8 * 2 + 8), dgram_cksum = snd ck\<rparr>\<rparr>"

definition copy_to_host :: "flexio \<Rightarrow> ptr \<Rightarrow> u8 list \<Rightarrow> dpa \<Rightarrow> dpa" where
  "copy_to_host fx a bs d = emit (Copy_to_host a bs) (upd_mem (window_copy_to_host fx (trace d) a bs) d)"

definition prepare_packet_host_send :: "flexio \<Rightarrow> u16 \<times> u16 \<Rightarrow> send_ctx \<Rightarrow> ptr \<Rightarrow> dpa \<Rightarrow> dpa" where
  "prepare_packet_host_send fx ck c buf =
     copy_to_host fx buf (udp_packet_bytes (make_udp_packet fx SRC_ADDR_send DST_ADDR_send (ucast (send_index c)) 1 ck))"

text \<open>The last part of every sending function: index, time stamp, in this order.\<close>

definition stamp :: "payload \<Rightarrow> flexio \<Rightarrow> send_ctx \<Rightarrow> ptr \<Rightarrow> dpa \<Rightarrow> dpa" where
  "stamp L fx c p d =
     (let d = upd_mem (\<lambda>m. store64 m (p + index_off L) (send_index c)) d;
          (t, d) = read_cycles fx d
      in upd_mem (\<lambda>m. store64 m (p + ts_off L) t) d)"

subsection \<open>One packet\<close>

text \<open>Counting a packet; a full batch resets the counters, after printing them.\<close>

definition count_send :: "u64 \<Rightarrow> send_ctx \<Rightarrow> send_ctx" where
  "count_send cycle c =
     (let c = c\<lparr>send_index := send_index c + 1, packets_count := packets_count c + 1,
                total_cycles := total_cycles c + cycle\<rparr>
      in if packets_count c = batch_size_send then c\<lparr>total_cycles := 0, packets_count := 0\<rparr> else c)"

definition process_packet_at :: "payload \<Rightarrow> flexio \<Rightarrow> dpa \<times> send_ctx \<Rightarrow> dpa \<times> send_ctx" where
  "process_packet_at L fx = (\<lambda>(d, c).
     let (cycle, d) = read_cycles fx d;
         (rq_data, data_sz) = receive_packet fx (mem d) (rqcq_ctx c) (rq_ctx c);
         cycle = cycle - load64 (mem d) (rq_data + ts_off L)
     in if data_sz \<noteq> pkt_size L then (d, c)
        else
          let c = count_send cycle c;
              (buf, dt) = get_next_send_buf (dt_ctx c) 10;
              c = c\<lparr>dt_ctx := dt\<rparr>;
              d = upd_mem (prepare_packet_send fx c buf) d;
              (d, sq) = prepare_send_packet fx (sq_ctx c) buf data_sz d;
              d = stamp L fx c buf d;
              (d, sq) = finish_send_packet sq d
          in (d, c\<lparr>sq_ctx := sq\<rparr>))"

definition process_packet_host_at :: "payload \<Rightarrow> u16 \<times> u16 \<Rightarrow> flexio \<Rightarrow> dpa \<times> send_ctx \<Rightarrow> dpa \<times> send_ctx" where
  "process_packet_host_at L ck fx = (\<lambda>(d, c).
     let (cycle, d) = read_cycles fx d;
         (rq_data, data_sz) = receive_packet fx (mem d) (rqcq_ctx c) (rq_ctx c)
     in if data_sz \<noteq> pkt_size L then (d, c)
        else
          let rq_data_dpa = host_rq_addr_to_dpa_addr rq_data (host_rq_ctx c);
              cycle = cycle - load64 (mem d) (rq_data_dpa + ts_off L);
              c = count_send cycle c;
              (buf, dt) = get_next_send_buf (dt_ctx c) 10;
              c = c\<lparr>dt_ctx := dt\<rparr>;
              buf_dpa = host_sq_addr_to_dpa_addr buf (host_sq_ctx c);
              d = prepare_packet_host_send fx ck c buf d;
              (d, sq) = prepare_send_packet fx (sq_ctx c) buf data_sz d;
              d = stamp L fx c buf_dpa d;
              (d, sq) = finish_send_packet_host sq d
          in (d, c\<lparr>sq_ctx := sq\<rparr>))"

definition process_packet_send :: "flexio \<Rightarrow> dpa \<times> send_ctx \<Rightarrow> dpa \<times> send_ctx" where
  "process_packet_send = process_packet_at send_payload"

definition process_packet_host_send :: "u16 \<times> u16 \<Rightarrow> flexio \<Rightarrow> dpa \<times> send_ctx \<Rightarrow> dpa \<times> send_ctx" where
  "process_packet_host_send = process_packet_host_at send_payload"

definition process_packet_ntp :: "flexio \<Rightarrow> dpa \<times> send_ctx \<Rightarrow> dpa \<times> send_ctx" where
  "process_packet_ntp = process_packet_at ntp_payload"

definition process_packet_host_ntp :: "u16 \<times> u16 \<Rightarrow> flexio \<Rightarrow> dpa \<times> send_ctx \<Rightarrow> dpa \<times> send_ctx" where
  "process_packet_host_ntp = process_packet_host_at ntp_payload"

subsection \<open>Initialisation\<close>

definition device_init_at ::
  "(app_transfer_cq \<Rightarrow> cq_ctx_t \<Rightarrow> cq_ctx_t) \<Rightarrow> (app_transfer_wq \<Rightarrow> rq_ctx_t \<Rightarrow> rq_ctx_t) \<Rightarrow>
   (app_transfer_wq \<Rightarrow> sq_ctx_t \<Rightarrow> sq_ctx_t) \<Rightarrow>
   flexio \<Rightarrow> queue_config_data \<Rightarrow> dpa \<times> send_ctx \<Rightarrow> u64 \<times> dpa \<times> send_ctx" where
  "device_init_at init_cq init_rq init_sq fx shared_data = (\<lambda>(d, c).
     let c = c\<lparr>lkey := wqd_mkey_id (sq_data shared_data),
               host_rq_ctx := (host_rq_ctx c)\<lparr>rq_rkey := wqd_mkey_id (rq_data shared_data),
                                             rq_window_id := new_buffer_mkey_id shared_data,
                                             host_rx_buff := wqd_daddr (rq_data shared_data)\<rparr>,
               host_sq_ctx := (host_sq_ctx c)\<lparr>sq_rkey := wqd_mkey_id (sq_data shared_data),
                                             sq_window_id := new_buffer_mkey_id shared_data,
                                             host_tx_buff := wqd_daddr (sq_data shared_data)\<rparr>,
               rqcq_ctx := init_cq (rq_cq_data shared_data) (rqcq_ctx c),
               rq_ctx := init_rq (rq_data shared_data) (rq_ctx c),
               sqcq_ctx := init_cq (sq_cq_data shared_data) (sqcq_ctx c),
               sq_ctx := init_sq (sq_data shared_data) (sq_ctx c)\<rparr>;
         (d, sq) = init_send_sq fx (sq_ctx c) (ucast (LOG2VALUE 7)) (lkey c) d;
         c = c\<lparr>sq_ctx := sq,
               dt_ctx := (dt_ctx c)\<lparr>sq_tx_buff := wqd_daddr (sq_data shared_data),
                                   tx_buff_idx := 0, data_idx_mask := ring_mask 7\<rparr>,
               rq_on_host := daddr_on_host (rq_data shared_data),
               sq_on_host := daddr_on_host (sq_data shared_data),
               packets_count := 0, total_cycles := 0, send_index := 1, is_initalized := 1\<rparr>
     in (0, emit Memory_writeback d, c))"

definition dpa_send_device_init :: "flexio \<Rightarrow> queue_config_data \<Rightarrow> dpa \<times> send_ctx \<Rightarrow> u64 \<times> dpa \<times> send_ctx" where
  "dpa_send_device_init fx = device_init_at init_cq_send init_rq_send (init_sq_send fx) fx"

definition dpa_send_ntp_device_init :: "flexio \<Rightarrow> queue_config_data \<Rightarrow> dpa \<times> send_ctx \<Rightarrow> u64 \<times> dpa \<times> send_ctx" where
  "dpa_send_ntp_device_init fx = device_init_at init_cq_ntp init_rq_ntp (init_sq_ntp fx) fx"

text \<open>The window onto the host's send area, as the first-packet call and the handler set it up.\<close>

definition map_tx_window :: "flexio \<Rightarrow> dpa \<times> send_ctx \<Rightarrow> dpa \<times> send_ctx" where
  "map_tx_window fx = (\<lambda>(d, c).
     let h = host_sq_ctx c;
         (buff, d) = get_host_buffer_with_dtctx fx (sq_window_id h) (sq_rkey h) (host_tx_buff h) d
     in (d, c\<lparr>host_sq_ctx := h\<lparr>dpa_tx_buff := buff\<rparr>\<rparr>))"

definition first_packet_at :: "payload \<Rightarrow> u16 \<times> u16 \<Rightarrow> flexio \<Rightarrow> dpa \<times> send_ctx \<Rightarrow> u64 \<times> dpa \<times> send_ctx" where
  "first_packet_at L ck fx = (\<lambda>(d, c).
     let (buf, dt) = get_next_send_buf (dt_ctx c) 10;
         c = c\<lparr>dt_ctx := dt\<rparr>
     in if sq_on_host c \<noteq> 0
        then
          let (d, c) = map_tx_window fx (d, c);
              d = prepare_packet_host_send fx ck c buf d;
              (d, sq) = prepare_send_packet fx (sq_ctx c) buf (pkt_size L) d;
              d = stamp L fx c (host_sq_addr_to_dpa_addr buf (host_sq_ctx c)) d;
              (d, sq) = finish_send_packet_host sq d
          in (0, d, c\<lparr>sq_ctx := sq\<rparr>)
        else
          let d = upd_mem (prepare_packet_send fx c buf) d;
              (d, sq) = prepare_send_packet fx (sq_ctx c) buf (pkt_size L) d;
              d = stamp L fx c buf d;
              (d, sq) = finish_send_packet sq d
          in (0, d, c\<lparr>sq_ctx := sq\<rparr>))"

definition dpa_send_deivce_first_packet :: "u16 \<times> u16 \<Rightarrow> flexio \<Rightarrow> dpa \<times> send_ctx \<Rightarrow> u64 \<times> dpa \<times> send_ctx" where
  "dpa_send_deivce_first_packet = first_packet_at send_payload"

definition dpa_send_ntp_deivce_first_packet :: "u16 \<times> u16 \<Rightarrow> flexio \<Rightarrow> dpa \<times> send_ctx \<Rightarrow> u64 \<times> dpa \<times> send_ctx" where
  "dpa_send_ntp_deivce_first_packet = first_packet_at ntp_payload"

subsection \<open>The event handler\<close>

definition iter_send_at ::
  "payload \<Rightarrow> u16 \<times> u16 \<Rightarrow> u8 \<Rightarrow> flexio \<Rightarrow> dpa \<times> send_ctx \<Rightarrow> (dpa \<times> send_ctx) option" where
  "iter_send_at L ck on_host fx s =
     (let (d, c) = (if on_host \<noteq> 0 then process_packet_host_at L ck fx s else process_packet_at L fx s);
          d = step_rq fx (rq_ctx c) d;
          (d, cq) = step_cq fx (rqcq_ctx c) d
      in Some (d, c\<lparr>rqcq_ctx := cq\<rparr>))"

definition iter_send :: "u16 \<times> u16 \<Rightarrow> u8 \<Rightarrow> flexio \<Rightarrow> dpa \<times> send_ctx \<Rightarrow> (dpa \<times> send_ctx) option" where
  "iter_send = iter_send_at send_payload"

definition iter_ntp :: "u16 \<times> u16 \<Rightarrow> u8 \<Rightarrow> flexio \<Rightarrow> dpa \<times> send_ctx \<Rightarrow> (dpa \<times> send_ctx) option" where
  "iter_ntp = iter_send_at ntp_payload"

text \<open>The handlers of the two programs are the same up to their loop's body.\<close>

definition dpa_send_device_event_handler :: "flexio \<Rightarrow> dpa \<times> send_ctx \<Rightarrow> send_ctx outcome" where
  "dpa_send_device_event_handler fx = (\<lambda>(d, c).
     let dtctx = snd (get_thread_ctx fx); h = host_rq_ctx c in
     if is_initalized c = 0 then Exited (emit Reschedule d) c
     else
       let (buff, d) = (if rq_on_host c \<noteq> 0
                        then get_host_buffer_with_dtctx fx (rq_window_id h) (rq_rkey h) (host_rx_buff h) d
                        else (host_rx_buff h, d));
           c = c\<lparr>host_rq_ctx := h\<lparr>dpa_rx_buff := buff\<rparr>\<rparr>;
           (d, c) = (if sq_on_host c \<noteq> 0 then map_tx_window fx (d, c)
                     else (d, c\<lparr>host_sq_ctx := (host_sq_ctx c)\<lparr>dpa_tx_buff := host_tx_buff (host_sq_ctx c)\<rparr>\<rparr>))
       in if dtctx \<noteq> 0 then Polling d c
          else Exited (emit Reschedule (emit (Cq_arm (cq_idx (rqcq_ctx c)) (cq_number (rqcq_ctx c)))
                 (emit Thread_fence d))) c)"

definition dpa_send_ntp_device_event_handler :: "flexio \<Rightarrow> dpa \<times> send_ctx \<Rightarrow> send_ctx outcome" where
  "dpa_send_ntp_device_event_handler = dpa_send_device_event_handler"

subsection \<open>Lemmas\<close>

lemma copy_to_host_fields [simp]:
  "trace (copy_to_host fx a bs d) = trace d @ [Copy_to_host a bs]" "clk (copy_to_host fx a bs d) = clk d"
  by (simp_all add: copy_to_host_def)

lemma db_ordered_copy:
  "db_ordered (tr @ [Copy_to_host a bs, Memory_writeback, Window_writeback, Ring_db p n]) = db_ordered tr"
  by (simp add: db_ordered_def db_ordered_from_snoc)

lemma stamp_fields [simp]:
  "trace (stamp L fx c p d) = trace d" "clk (stamp L fx c p d) = clk d + 1"
  "mem (stamp L fx c p d) = store64 (store64 (mem d) (p + index_off L) (send_index c)) (p + ts_off L) (thread_cycles fx (clk d))"
  by (simp_all add: stamp_def Let_def case_prod_beta)

lemma count_send_fields [simp]:
  "send_index (count_send cyc c) = send_index c + 1" "rqcq_ctx (count_send cyc c) = rqcq_ctx c"
  "rq_ctx (count_send cyc c) = rq_ctx c" "sq_ctx (count_send cyc c) = sq_ctx c" "dt_ctx (count_send cyc c) = dt_ctx c"
  "host_sq_ctx (count_send cyc c) = host_sq_ctx c"
  "packets_count (count_send cyc c) = (if packets_count c + 1 = batch_size_send then 0 else packets_count c + 1)"
  by (simp_all add: count_send_def Let_def)

text \<open>The counters after \<open>k\<close> answers, counting from initialisation.\<close>

definition send_tally :: "nat \<Rightarrow> send_ctx \<Rightarrow> bool" where
  "send_tally k c \<longleftrightarrow> send_index c = 1 + of_nat k \<and> packets_count c = of_nat (k mod 100000)"

lemma send_tally_fields [simp]:
  "send_tally k (c\<lparr>rqcq_ctx := cq\<rparr>) = send_tally k c" "send_tally k (c\<lparr>sq_ctx := sq\<rparr>) = send_tally k c"
  "send_tally k (c\<lparr>dt_ctx := dt\<rparr>) = send_tally k c" "send_tally k (c\<lparr>host_rq_ctx := h\<rparr>) = send_tally k c"
  "send_tally k (c\<lparr>host_sq_ctx := g\<rparr>) = send_tally k c"
  by (simp_all add: send_tally_def)

lemma send_tally_count: "send_tally k c \<Longrightarrow> send_tally (Suc k) (count_send cyc c)"
proof -
  assume t: "send_tally k c"
  have "k mod 100000 < 100000" by simp
  then have "unat (of_nat (k mod 100000) + 1 :: u32) = Suc (k mod 100000)"
    by (simp add: unat_word_ariths unat_of_nat take_bit_nat_eq_self)
  then have "(of_nat (k mod 100000) + 1 = (100000 :: u32)) = (Suc (k mod 100000) = 100000)"
    by (simp add: word_unat_eq_iff)
  with t show ?thesis by (simp add: send_tally_def mod_Suc)
qed

text \<open>The size of the packet that a turn takes.\<close>

definition packet_size :: "flexio \<Rightarrow> dpa \<times> send_ctx \<Rightarrow> u32" where
  "packet_size fx = (\<lambda>(d, c). snd (receive_packet fx (mem d) (rqcq_ctx c) (rq_ctx c)))"

lemma process_packet_at_cases:
  assumes "r = (if h then process_packet_host_at L ck fx (d, c) else process_packet_at L fx (d, c))"
  shows "rqcq_ctx (snd r) = rqcq_ctx c \<and> (db_ordered (trace d) \<longrightarrow> db_ordered (trace (fst r))) \<and>
    (if packet_size fx (d, c) = pkt_size L
     then sq_ctx (snd r) = sq_sent (sq_ctx c) \<and>
       doorbells (trace (fst r)) = doorbells (trace d) @ [(sq_pi (sq_ctx c) + 1, sq_number (sq_ctx c))] \<and>
       (\<forall>k. send_tally k c \<longrightarrow> send_tally (Suc k) (snd r))
     else snd r = c \<and> trace (fst r) = trace d)"
  using assms send_tally_count
  by (auto simp: process_packet_at_def process_packet_host_at_def prepare_packet_host_send_def packet_size_def Let_def case_prod_beta
      send_simps db_ordered_emit db_ordered_copy split: if_splits)

interpretation send_rx: selecting_loop "iter_send_at L ck h" rqcq_ctx sq_ctx send_tally "\<lambda>fx s. packet_size fx s = pkt_size L" for L ck h
proof unfold_locales
  fix fx :: flexio and s t assume it: "iter_send_at L ck h fx s = Some t"
  obtain d c where s: "s = (d, c)" by (cases s)
  define r where "r = (if h \<noteq> 0 then process_packet_host_at L ck fx (d, c) else process_packet_at L fx (d, c))"
  have t: "trace (fst t) = trace (fst r)" "snd t = (snd r)\<lparr>rqcq_ctx := next_cq fx (rqcq_ctx (snd r))\<rparr>"
    using it by (auto simp: iter_send_at_def s r_def[symmetric] Let_def case_prod_beta)
  note r = process_packet_at_cases[OF r_def]
  show "rqcq_ctx (snd t) = next_cq fx (rqcq_ctx (snd s))" using r by (simp add: s t)
  show "db_ordered (trace (fst t))" if "db_ordered (trace (fst s))" using r that by (simp add: s t)
  show "sq_ctx (snd t) = sq_ctx (snd s) \<and> doorbells (trace (fst t)) = doorbells (trace (fst s)) \<and>
        (\<forall>k. send_tally k (snd s) \<longrightarrow> send_tally k (snd t))" if "packet_size fx s \<noteq> pkt_size L"
    using r that by (simp add: s t)
  show "sq_ctx (snd t) = sq_sent (sq_ctx (snd s)) \<and>
        doorbells (trace (fst t)) = doorbells (trace (fst s)) @ [(sq_pi (sq_ctx (snd s)) + 1, sq_number (sq_ctx (snd s)))] \<and>
        (\<forall>k. send_tally k (snd s) \<longrightarrow> send_tally (Suc k) (snd t))" if "packet_size fx s = pkt_size L"
    using r that by (simp add: s t)
qed

lemma map_tx_window_fields [simp]:
  "rqcq_ctx (snd (map_tx_window fx (d, c))) = rqcq_ctx c" "sq_ctx (snd (map_tx_window fx (d, c))) = sq_ctx c"
  "doorbells (trace (fst (map_tx_window fx (d, c)))) = doorbells (trace d)"
  "db_ordered (trace (fst (map_tx_window fx (d, c)))) = db_ordered (trace d)"
  "send_tally k (snd (map_tx_window fx (d, c))) = send_tally k c"
  by (simp_all add: map_tx_window_def case_prod_beta Let_def send_tally_def)

text \<open>
  From initialisation through the first packet to any moment of the loop, for either payload:
  \<open>taken\<close> packets consumed, \<open>k\<close> of them answered, \<open>sent\<close> packets announced.
\<close>

definition send_progress :: "flexio \<Rightarrow> nat \<Rightarrow> nat \<Rightarrow> nat \<Rightarrow> dpa \<times> send_ctx \<Rightarrow> bool" where
  "send_progress fx taken sent k = (\<lambda>(d, c).
     send_tally k c \<and> cq_inv fx 7 (rqcq_ctx c) \<and> cq_idx (rqcq_ctx c) = of_nat taken \<and> sq_balanced (sq_ctx c) \<and>
     db_ordered (trace d) \<and> sq_pi (sq_ctx c) = of_nat sent \<and>
     doorbells (trace d) = map (\<lambda>i. (of_nat (Suc i), sq_number (sq_ctx c))) [0..<sent])"

lemma send_init_progress:
  assumes "device_init_at (init_cq_at 7) (init_rq_at 7) (init_sq_at fx 7) fx q (d0, c0) = (r, d1, c1)"
    and "sq_pi (sq_ctx c0) = 0" "trace d0 = []"
  shows "send_progress fx 0 0 0 (d1, c1)"
  using assms
  by (auto simp: device_init_at_def Let_def case_prod_beta send_progress_def send_tally_def sq_balanced_def
      init_cq_at_inv db_ordered_def)

lemma send_first_progress:
  assumes "send_progress fx 0 0 0 (d1, c1)" "first_packet_at L ck fx (d1, c1) = (r, d2, c2)"
  shows "send_progress fx 0 1 0 (d2, c2)"
  using assms
  by (auto simp: first_packet_at_def Let_def case_prod_beta send_progress_def send_simps prepare_packet_host_send_def
      db_ordered_emit db_ordered_copy sq_balanced_def split: if_splits)

lemma send_handler_progress:
  assumes "send_progress fx j n k (d2, c2)" "dpa_send_device_event_handler fx (d2, c2) = Polling d3 c3"
  shows "send_progress fx j n k (d3, c3)"
  using assms
  by (auto simp: dpa_send_device_event_handler_def Let_def case_prod_beta send_progress_def split: if_splits)

lemma send_seen_progress:
  assumes "send_progress fx 0 1 0 (d3, c3)"
    and "rx_seen fx (iter_send_at L ck h fx) rqcq_ctx (packet_size fx) (d3, c3) sizes (d, c)"
    and "k = length (filter (\<lambda>z. z = pkt_size L) sizes)"
  shows "send_progress fx (length sizes) (Suc k) k (d, c)"
proof -
  from assms(1) have p: "sq_balanced (sq_ctx c3)" "send_tally 0 c3" "cq_inv fx 7 (rqcq_ctx c3)" "db_ordered (trace d3)"
    "cq_idx (rqcq_ctx c3) = 0" "sq_pi (sq_ctx c3) = 1" "doorbells (trace d3) = [(1, sq_number (sq_ctx c3))]"
    by (simp_all add: send_progress_def)
  have k: "send_tally k c" "sq_balanced (sq_ctx c)" "cq_idx (rqcq_ctx c) = of_nat (length sizes)"
    "sq_pi (sq_ctx c) = 1 + of_nat k" "sq_number (sq_ctx c) = sq_number (sq_ctx c3)"
    "doorbells (trace d) = [(1, sq_number (sq_ctx c3))] @ map (\<lambda>i. (1 + of_nat (Suc i), sq_number (sq_ctx c3))) [0..<k]"
    using send_rx.seen_tally[OF assms(2), of "\<lambda>z. z = pkt_size L"] p unfolding assms(3) by simp_all
  have "[0..<Suc k] = 0 # map Suc [0..<k]" by (simp add: upt_conv_Cons map_Suc_upt del: upt_Suc)
  then show ?thesis
    using k send_rx.reach_cq_inv[OF rx_seen_reach[OF assms(2)], of 7] send_rx.reach_db[OF rx_seen_reach[OF assms(2)]] p
    by (simp add: send_progress_def del: upt_Suc)
qed

text \<open>The packet that is written in place is the one that the host version builds and copies.\<close>

lemma length_addrs [simp]: "length SRC_ADDR_send = 6" "length DST_ADDR_send = 6"
  by (simp_all add: SRC_ADDR_send_def DST_ADDR_send_def)

lemma read_write_ip_udp:
  assumes "pkt_eth (read_udp_packet m p) = \<lparr>eth_dst_addr = dst, eth_src_addr = src, ether_type = cpu_to_be16 fx 0x0800\<rparr>"
  shows "read_udp_packet (write_ip_udp fx ident ends p m) p = make_udp_packet fx src dst ident ends
     (hdr_checksum (pkt_ip (read_udp_packet m p)), dgram_cksum (pkt_udp (read_udp_packet m p)))"
  using assms by (simp add: write_ip_udp_def make_udp_packet_def header_simps Let_def)

lemma read_prepare_packet:
  "read_udp_packet (prepare_packet_send fx c buf m) buf =
     make_udp_packet fx SRC_ADDR_send DST_ADDR_send (ucast (send_index c)) 1
       (hdr_checksum (pkt_ip (read_udp_packet m buf)), dgram_cksum (pkt_udp (read_udp_packet m buf)))"
  unfolding prepare_packet_send_def Let_def
  by (subst read_write_ip_udp[where src = SRC_ADDR_send and dst = DST_ADDR_send]) (simp_all add: header_simps)

lemma write_ip_udp_outside:
  assumes "\<not> inside a p 42"
  shows "write_ip_udp fx ident ends p m a = m a"
proof -
  have o: "\<not> inside a (p + of_nat k) l" if "k + l \<le> 42" for k l using outside_sub[OF assms that] by simp
  have "a \<noteq> p + of_nat k" if "k + 1 \<le> 42" for k using o[OF that] by (auto simp: inside_def)
  from this[of 14] this[of 15] this[of 22] this[of 23]
    o[of 16 2] o[of 18 2] o[of 20 2] o[of 26 4] o[of 30 4] o[of 34 2] o[of 36 2] o[of 38 2]
  show ?thesis by (simp add: write_ip_udp_def Let_def store_le_outside)
qed

lemma prepare_packet_outside:
  assumes "\<not> inside a buf 42"
  shows "prepare_packet_send fx c buf m a = m a"
  using assms outside_sub[of a buf 42 12 2] outside_sub[of a buf 42 6 6] outside_sub[of a buf 42 0 6]
  by (simp add: prepare_packet_send_def Let_def write_ip_udp_outside store_le_outside store_bytes_apply)

text \<open>The bytes of a packet in memory.\<close>

lemma word_bytes_load:
  assumes "LENGTH('a::len) = 8 * k"
  shows "word_bytes k (load_le k m p :: 'a word) = load_bytes m p k"
proof (rule nth_equalityI)
  fix i assume "i < length (word_bytes k (load_le k m p :: 'a word))"
  then have i: "i < k" by simp
  have "ucast (drop_bit (8 * i) (load_le k m p :: 'a word)) = m (p + of_nat i)"
  proof (rule bit_word_eqI)
    fix n assume n: "n < LENGTH(8)"
    have "8 * i + 8 \<le> 8 * k" using i by simp
    then have "8 * i + n < LENGTH('a)" using n assms by simp
    with n i show "bit (ucast (drop_bit (8 * i) (load_le k m p :: 'a word)) :: u8) n = bit (m (p + of_nat i)) n"
      by (simp add: bit_simps bit_load_le)
  qed
  then show "word_bytes k (load_le k m p :: 'a word) ! i = load_bytes m p k ! i" using i by simp
qed simp

lemma load_bytes_append: "load_bytes m p (k + l) = load_bytes m p k @ load_bytes m (p + of_nat k) l"
  by (rule nth_equalityI) (auto simp: nth_append add.assoc simp flip: of_nat_add)

lemma udp_packet_bytes_read: "udp_packet_bytes (read_udp_packet m p) = load_bytes m p 42"
proof -
  have two: "[m (p + 14), m (p + 15)] = load_bytes m (p + 14) 2" "[m (p + 22), m (p + 23)] = load_bytes m (p + 22) 2"
    by (simp_all add: load_bytes_def numeral_2_eq_2 ac_simps)
  have w: "word_bytes 2 (load16 m q) = load_bytes m q 2" "word_bytes 4 (load32 m q) = load_bytes m q 4" for q
    by (simp_all add: word_bytes_load)
  have "load_bytes m p 42 = load_bytes m p (6 + (6 + (2 + (2 + (2 + (2 + (2 + (2 + (2 + (4 + (4 + (2 + (2 + (2 + 2))))))))))))))" by simp
  also have "\<dots> = udp_packet_bytes (read_udp_packet m p)"
    unfolding load_bytes_append by (simp add: udp_packet_bytes_def read_udp_packet_def Let_def w two add.assoc)
  finally show ?thesis ..
qed

text \<open>The payload lies behind the headers and its two words are apart.\<close>

definition payload_ok :: "payload \<Rightarrow> bool" where
  "payload_ok L \<longleftrightarrow> 42 \<le> unat (ts_off L) \<and> unat (ts_off L) + 8 \<le> unat (pkt_size L) \<and>
     42 \<le> unat (index_off L) \<and> unat (index_off L) + 8 \<le> unat (pkt_size L) \<and>
     (unat (ts_off L) + 8 \<le> unat (index_off L) \<or> unat (index_off L) + 8 \<le> unat (ts_off L))"

lemma payloads_ok: "payload_ok send_payload" "payload_ok ntp_payload"
  by (simp_all add: payload_ok_def send_payload_def ntp_payload_def)

lemma unat_pkt_size: "unat (pkt_size L) \<le> 2 ^ 64"
proof -
  have "unat (pkt_size L) < 2 ^ 32" using unsigned_less[of "pkt_size L"] by simp
  then show ?thesis by simp
qed

lemma stamp_header:
  assumes "payload_ok L"
  shows "read_udp_packet (mem (stamp L fx c p d)) p = read_udp_packet (mem d) p"
proof -
  have "\<not> inside (p + of_nat i) (p + of_nat (unat k)) 8" if "i < 42" "42 \<le> unat k" "unat k + 8 \<le> unat (pkt_size L)" for i and k :: ptr
    using that unat_pkt_size[of L] by (subst inside_at) (auto simp: unat_of_nat take_bit_nat_eq_self)
  with assms show ?thesis
    by (intro read_udp_packet_cong) (simp add: payload_ok_def store_le_outside)
qed

lemma stamp_words:
  assumes "payload_ok L"
  shows "load64 (mem (stamp L fx c p d)) (p + index_off L) = send_index c"
    and "load64 (mem (stamp L fx c p d)) (p + ts_off L) = thread_cycles fx (clk d)"
proof -
  have "sep (p + ts_off L) 8 (p + index_off L) 8"
    using assms sep_offs[of "unat (ts_off L)" 8 "unat (index_off L)" 8 p] unat_pkt_size[of L]
      sep_offs[of "unat (index_off L)" 8 "unat (ts_off L)" 8 p] by (auto simp: payload_ok_def sep_sym)
  then show "load64 (mem (stamp L fx c p d)) (p + index_off L) = send_index c"
    "load64 (mem (stamp L fx c p d)) (p + ts_off L) = thread_cycles fx (clk d)"
    by (simp_all add: mem_simps)
qed

lemma stamp_posted:
  assumes "payload_ok L" "data_seg_sep fx w p (unat (pkt_size L))"
  shows "posted fx w q len (mem (stamp L fx c p d)) = posted fx w q len (mem d)"
proof -
  have "sep (p + k) 8 x l" if "sep x l p (unat (pkt_size L))" "unat k + 8 \<le> unat (pkt_size L)" "0 < l" for k x l
    using sep_sub2[OF that(1), of "unat k" 8] that(2,3) unat_pkt_size[of L] by (simp add: sep_sym)
  with assms show ?thesis by (simp add: posted_def data_seg_sep_def payload_ok_def mem_simps)
qed

subsection \<open>A concrete context\<close>

definition sample_send :: send_ctx where
  "sample_send = refactor_ctx.extend
     (dev_ctx_refactor\<lparr>is_initalized := 1, rqcq_ctx := init_cq_send (rq_cq_data sample_qcd) cq_zero,
        rq_ctx := init_rq_send (rq_data sample_qcd) rq_zero,
        sq_ctx := init_sq_send sample_fx (sq_data sample_qcd) sq_zero,
        dt_ctx := \<lparr>sq_tx_buff = 0x50000, tx_buff_idx = 0, data_idx_mask = ring_mask 7\<rparr>\<rparr>)
     \<lparr>host_sq_ctx = host_sq_zero, total_cycles = 0, send_index = 1\<rparr>"

lemma sample_send_simps [simp]:
  "rqcq_ctx sample_send = init_cq_at 7 (rq_cq_data sample_qcd) cq_zero"
  "rq_ctx sample_send = init_rq_at 7 (rq_data sample_qcd) rq_zero"
  "sq_ctx sample_send = init_sq_at sample_fx 7 (sq_data sample_qcd) sq_zero"
  "dt_ctx sample_send = \<lparr>sq_tx_buff = 0x50000, tx_buff_idx = 0, data_idx_mask = ring_mask 7\<rparr>"
  "send_index sample_send = 1"
  by (simp_all add: sample_send_def refactor_ctx.defs init_cq_send_def init_rq_send_def init_sq_send_def)

subsection \<open>Properties\<close>

text \<open>
  C16: the latency generator as a whole: initialise it with any configuration, ask for the first
  packet, enter the event handler and let the card and the handler interleave in any way.  Let
  \<open>sizes\<close> be the sizes of the packets that the handler has taken, and \<open>k\<close> how many of them are of
  the size of its own packets, 64 bytes.  At every moment the packet index is \<open>k + 1\<close>, the
  batch counter is \<open>k\<close> modulo 100000, and exactly \<open>k + 1\<close> packets have been announced, with
  consecutive producer indices, each after a write-back; packets of other sizes are taken off the completion
  queue and neither counted nor answered.
\<close>

theorem send_run:
  assumes "dpa_send_device_init fx q (d0, c0) = (r, d1, c1)" "sq_pi (sq_ctx c0) = 0" "trace d0 = []"
    and "dpa_send_deivce_first_packet ck fx (d1, c1) = (r', d2, c2)"
    and "dpa_send_device_event_handler fx (d2, c2) = Polling d3 c3"
    and "rx_seen fx (iter_send ck (sq_on_host c3) fx) rqcq_ctx (packet_size fx) (d3, c3) sizes (d, c)"
    and "k = length (filter (\<lambda>z. z = 64) sizes)"
  shows "send_index c = 1 + of_nat k \<and> packets_count c = of_nat (k mod 100000) \<and>
         cq_idx (rqcq_ctx c) = of_nat (length sizes) \<and>
         cq_inv fx 7 (rqcq_ctx c) \<and> sq_balanced (sq_ctx c) \<and> db_ordered (trace d) \<and>
         doorbells (trace d) = map (\<lambda>i. (of_nat (Suc i), sq_number (sq_ctx c))) [0..<Suc k]"
proof -
  have "send_progress fx 0 0 0 (d1, c1)"
    using send_init_progress assms(1-3)
    by (simp add: dpa_send_device_init_def init_cq_send_def init_rq_send_def init_sq_send_def)
  then have "send_progress fx 0 1 0 (d2, c2)"
    by (rule send_first_progress[OF _ assms(4)[unfolded dpa_send_deivce_first_packet_def]])
  then have "send_progress fx 0 1 0 (d3, c3)" by (rule send_handler_progress[OF _ assms(5)])
  then have "send_progress fx (length sizes) (Suc k) k (d, c)"
    by (rule send_seen_progress[OF _ assms(6)[unfolded iter_send_def]]) (simp add: assms(7) send_payload_def)
  then show ?thesis by (auto simp: send_progress_def send_tally_def simp del: upt_Suc)
qed

theorem send_run_witness:
  "\<exists>(d :: dpa) (c :: send_ctx). send_index c = 2 \<and> packets_count c = 1 \<and> cq_idx (rqcq_ctx c) = 1 \<and> sq_balanced (sq_ctx c) \<and>
     doorbells (trace d) = [(1, sq_number (sq_ctx c)), (2, sq_number (sq_ctx c))]"
proof -
  obtain r d1 c1 where i: "dpa_send_device_init sample_fx sample_qcd (sample_dpa, sample_send) = (r, d1, c1)"
    by (rule prod_cases3)
  obtain r' d2 c2 where f: "dpa_send_deivce_first_packet (0, 0) sample_fx (d1, c1) = (r', d2, c2)"
    by (rule prod_cases3)
  have c1: "is_initalized c1 = 1" "rq_on_host c1 = 0" "sq_on_host c1 = 0"
    "rqcq_ctx c1 = init_cq_at 7 (rq_cq_data sample_qcd) cq_zero" "rq_ctx c1 = init_rq_at 7 (rq_data sample_qcd) rq_zero"
    using i by (auto simp: dpa_send_device_init_def device_init_at_def Let_def case_prod_beta init_cq_send_def
        init_rq_send_def init_cq_at_def init_rq_at_def)
  then have c2: "is_initalized c2 = 1" "rq_on_host c2 = 0" "sq_on_host c2 = 0" "rqcq_ctx c2 = rqcq_ctx c1" "rq_ctx c2 = rq_ctx c1"
    using f by (auto simp: dpa_send_deivce_first_packet_def first_packet_at_def Let_def case_prod_beta)
  obtain d3 c3 where h: "dpa_send_device_event_handler sample_fx (d2, c2) = Polling d3 c3"
    and c3: "rqcq_ctx c3 = rqcq_ctx c1" "rq_ctx c3 = rq_ctx c1" "sq_on_host c3 = 0"
    using c2 by (simp add: dpa_send_device_event_handler_def Let_def)
  let ?d = "d3\<lparr>mem := sample_mem\<rparr>"
  obtain d c where it: "iter_send (0, 0) (sq_on_host c3) sample_fx (?d, c3) = Some (d, c)"
    by (simp add: iter_send_def iter_send_at_def case_prod_beta Let_def)
  have size: "packet_size sample_fx (?d, c3) = 64" using c1 c3 by (simp add: packet_size_def)
  have ready: "cqe_ready sample_fx (mem ?d) (rqcq_ctx c3)" using c1 c3 sample_ready[of "rqcq_ctx c3"] by simp
  let ?run = "rx_seen sample_fx (iter_send (0, 0) (sq_on_host c3) sample_fx) rqcq_ctx (packet_size sample_fx) (d3, c3)"
  have "?run [] (?d, c3)" by (intro seen_card seen_start)
  then have "?run ([] @ [packet_size sample_fx (?d, c3)]) (d, c)" using ready it by (rule seen_turn)
  then have "?run [64] (d, c)" by (simp only: size append_Nil)
  from send_run[OF i _ _ f h this refl] show ?thesis
    by (intro exI[of _ d] exI[of _ c]) (simp add: init_sq_at_def)
qed

text \<open>
  C29: the two ways to build a packet agree.  \<open>prepare_packet\<close> writes the headers field by field into the
  send buffer; \<open>prepare_packet_host\<close> fills a local structure and copies it to the host.  For the same
  context the bytes copied are, one for one, the 42 bytes that the other leaves in the buffer, when the
  checksums, which neither writes, are those that the buffer had; and writing in place changes no byte around them.
\<close>

theorem prepare_packet_host_same:
  "prepare_packet_host_send fx (load16 m (buf + 24), load16 m (buf + 40)) c buf d =
     copy_to_host fx buf (load_bytes (prepare_packet_send fx c buf m) buf 42) d \<and>
   (\<forall>a. \<not> inside a buf 42 \<longrightarrow> prepare_packet_send fx c buf m a = m a)"
proof -
  have "hdr_checksum (pkt_ip (read_udp_packet m buf)) = load16 m (buf + 24)" "dgram_cksum (pkt_udp (read_udp_packet m buf)) = load16 m (buf + 40)"
    by (simp_all add: read_udp_packet_def)
  then show ?thesis
    by (simp add: prepare_packet_host_send_def prepare_packet_outside read_prepare_packet flip: udp_packet_bytes_read)
qed

theorem prepare_packet_host_same_witness:
  "prepare_packet_host_send sample_fx (load16 sample_mem 0x50018, load16 sample_mem 0x50028) sample_send 0x50000 sample_dpa =
     copy_to_host sample_fx 0x50000 (load_bytes (prepare_packet_send sample_fx sample_send 0x50000 sample_mem) 0x50000 42) sample_dpa \<and>
   prepare_packet_send sample_fx sample_send 0x50000 sample_mem 0x50000 = 1 \<and>
   prepare_packet_send sample_fx sample_send 0x50000 sample_mem 0x5002a = sample_mem 0x5002a"
proof -
  have o: "\<not> inside 0x5002a 0x50000 42" by (simp add: inside_def)
  have "prepare_packet_send sample_fx sample_send 0x50000 sample_mem 0x50000 = 1"
    by (simp add: prepare_packet_send_def write_ip_udp_def Let_def DST_ADDR_send_def SRC_ADDR_send_def store_le_outside inside_def)
  with prepare_packet_host_same[of sample_fx sample_mem "0x50000" sample_send sample_dpa] o show ?thesis by simp
qed

text \<open>
  C31: one packet of the time-stamping generator, buffers in DPA memory.  When a packet of the
  right size is taken, the send buffer holds the headers of \<open>make_udp_packet\<close>, with the new index
  as packet identifier and the checksums the buffer had, the new index and the time of the
  second counter read at their places in the payload, and the send entry announces the buffer;
  a packet of another size changes nothing but the counter.
\<close>

theorem ntp_packet_contents:
  assumes "receive_packet fx (mem d) (rqcq_ctx c) (rq_ctx c) = (p, len)"
    and "get_next_send_buf (dt_ctx c) 10 = (buf, dt)"
    and "data_seg_sep fx (fst (get_next_data_sqe fx (sq_ctx c))) buf 114"
    and "process_packet_ntp fx (d, c) = (d', c')"
  shows "if len = 114
         then read_udp_packet (mem d') buf = make_udp_packet fx SRC_ADDR_send DST_ADDR_send (ucast (send_index c + 1)) 1
                (hdr_checksum (pkt_ip (read_udp_packet (mem d) buf)), dgram_cksum (pkt_udp (read_udp_packet (mem d) buf))) \<and>
              load64 (mem d') (buf + 42 + 64) = send_index c + 1 \<and>
              load64 (mem d') (buf + 42 + 8) = thread_cycles fx (clk d + 1) \<and>
              posted fx (fst (get_next_data_sqe fx (sq_ctx c))) buf 114 (mem d')
         else c' = c \<and> mem d' = mem d \<and> trace d' = trace d"
proof (cases "len = 114")
  case True
  let ?w = "fst (get_next_data_sqe fx (sq_ctx c))" and ?L = ntp_payload
  define c1 where "c1 = (count_send (thread_cycles fx (clk d) - load64 (mem d) (p + ts_off ?L)) c)\<lparr>dt_ctx := dt\<rparr>"
  define d1 where "d1 = upd_mem (prepare_packet_send fx c1 buf) (snd (read_cycles fx d))"
  define d2 where "d2 = fst (prepare_send_packet fx (sq_ctx c) buf 114 d1)"
  have L: "unat (pkt_size ?L) = 114" "index_off ?L = 106" "ts_off ?L = 50" by (simp_all add: ntp_payload_def)
  have d': "mem d' = mem (stamp ?L fx c1 buf d2)"
    using assms(1,2,4) True
    by (auto simp: process_packet_ntp_def process_packet_at_def Let_def case_prod_beta send_simps c1_def d1_def d2_def ntp_payload_def)
  have "load_bytes (mem d2) buf 114 = load_bytes (mem d1) buf 114"
    unfolding d2_def by (rule prepare_send_packet_mem(2)[OF assms(3)]) simp
  then have "mem d2 (buf + of_nat i) = mem d1 (buf + of_nat i)" if "i < 42" for i
    using nth_load_bytes[of i 114 "mem d2" buf] nth_load_bytes[of i 114 "mem d1" buf] that by simp
  then have "read_udp_packet (mem d2) buf = read_udp_packet (mem d1) buf" by (rule read_udp_packet_cong)
  moreover have "posted fx ?w buf 114 (mem d2)"
    unfolding d2_def by (rule prepare_send_packet_mem(1)[OF assms(3)]) simp
  moreover have "send_index c1 = send_index c + 1" "clk d2 = clk d + 1"
    by (simp_all add: c1_def d2_def d1_def send_simps)
  ultimately show ?thesis
    using True stamp_header[OF payloads_ok(2), of fx c1 buf d2] stamp_words[OF payloads_ok(2), of fx c1 buf d2]
      stamp_posted[OF payloads_ok(2), of fx ?w buf buf 114 c1 d2] assms(3) L
    by (simp add: d' d1_def read_prepare_packet add.assoc)
next
  case False
  with assms(1,4) show ?thesis
    by (auto simp: process_packet_ntp_def process_packet_at_def Let_def case_prod_beta ntp_payload_def)
qed

theorem ntp_packet_contents_witness:
  "let (d', c') = process_packet_ntp sample_fx (sample_dpa\<lparr>mem := sample_mem(0x1002f := 114)\<rparr>, sample_send) in
     load64 (mem d') (0x50000 + 42 + 64) = 2 \<and> load64 (mem d') (0x50000 + 42 + 8) = 25 \<and>
     posted sample_fx 0x28020 0x50000 114 (mem d')"
proof -
  let ?m = "sample_mem(0x1002f := 114)"
  obtain d' c' where p: "process_packet_ntp sample_fx (sample_dpa\<lparr>mem := ?m\<rparr>, sample_send) = (d', c')"
    by (rule prod.exhaust)
  have rp: "receive_packet sample_fx ?m (rqcq_ctx sample_send) (rq_ctx sample_send) = (0x3000, 114)"
    by (simp add: receive_packet_def init_cq_at_def init_rq_at_def sample_qcd_def) code_simp
  have "data_seg_sep sample_fx 0x28020 0x50000 114" by (simp add: data_seg_sep_def sep_def)
  from ntp_packet_contents[OF _ _ _ p, of "0x3000" 114 "0x50000" "\<lparr>sq_tx_buff = 0x50000, tx_buff_idx = 1, data_idx_mask = ring_mask 7\<rparr>"]
    rp this
  show ?thesis unfolding p by (simp add: get_next_send_buf_def)
qed

end
