(* ===== verification/Send_Mt.thy ===== *)
theory Send_Mt
  imports Send
begin

text \<open>
  The multi-threaded packet generator \<open>flexio/dpa_send_mt/device/dpa_send_device_mt.c\<close>.  Each of up to
  190 threads has a ring of 128 send buffers, which the first-packet call fills with headers
  that name the thread; a thread then sends from its buffers until the host asks to stop,
  writing only the Ethernet addresses again.  The compile-time switches of the source are the
  parameter \<open>b\<close>; the source sets \<open>TO_DPA_DST\<close> 0, \<open>ONLY_SEND\<close> 1, \<open>DISPLAY_COUNT\<close> 0.
\<close>

subsection \<open>Switches, contexts and initialisation\<close>

record mt_build =
  TO_DPA_DST :: bool
  ONLY_SEND :: bool
  DISPLAY_COUNT :: bool

definition mt_default :: mt_build where
  "mt_default = \<lparr>TO_DPA_DST = False, ONLY_SEND = True, DISPLAY_COUNT = False\<rparr>"

abbreviation MAX_THREADS_smt :: nat where "MAX_THREADS_smt \<equiv> 190"
abbreviation THREAD_CREDITS :: u8 where "THREAD_CREDITS \<equiv> 8"
abbreviation pkt_size_smt :: u32 where "pkt_size_smt \<equiv> 64"

record smt_ctx = refactor_ctx +
  host_sq_ctx :: host_sq_ctx_t
  credits :: u8
  thread_idx :: u8
  send_index :: u64

definition DST_ADDR_smt :: "u8 list" where "DST_ADDR_smt = [0xA0, 0x88, 0xC2, 0x32, 0x04, 0x30]"
definition SRC_ADDR_smt :: "u8 list" where "SRC_ADDR_smt = [0x02, 0x01, 0x01, 0x01, 0x01, 0x01]"
definition DST_DPA_ADDR :: "u8 list" where "DST_DPA_ADDR = [0x01, 0x01, 0x01, 0x01, 0x01, 0x01]"

definition init_cq_smt :: "app_transfer_cq \<Rightarrow> cq_ctx_t \<Rightarrow> cq_ctx_t" where
  "init_cq_smt = init_cq_at 7"

definition init_rq_smt :: "app_transfer_wq \<Rightarrow> rq_ctx_t \<Rightarrow> rq_ctx_t" where
  "init_rq_smt = init_rq_at 7"

definition init_sq_smt :: "flexio \<Rightarrow> app_transfer_wq \<Rightarrow> sq_ctx_t \<Rightarrow> sq_ctx_t" where
  "init_sq_smt fx = init_sq_at fx 7"

definition init_ctx_smt :: "flexio \<Rightarrow> queue_config_data \<Rightarrow> dpa \<times> smt_ctx \<Rightarrow> dpa \<times> smt_ctx" where
  "init_ctx_smt fx shared_data = (\<lambda>(d, c).
     let c = c\<lparr>lkey := wqd_mkey_id (sq_data shared_data),
               host_rq_ctx := (host_rq_ctx c)\<lparr>rq_rkey := wqd_mkey_id (rq_data shared_data),
                                             rq_window_id := new_buffer_mkey_id shared_data,
                                             host_rx_buff := wqd_daddr (rq_data shared_data)\<rparr>,
               host_sq_ctx := (host_sq_ctx c)\<lparr>sq_rkey := wqd_mkey_id (sq_data shared_data),
                                             sq_window_id := new_buffer_mkey_id shared_data,
                                             host_tx_buff := wqd_daddr (sq_data shared_data)\<rparr>,
               rqcq_ctx := init_cq_smt (rq_cq_data shared_data) (rqcq_ctx c),
               rq_ctx := init_rq_smt (rq_data shared_data) (rq_ctx c),
               sqcq_ctx := init_cq_smt (sq_cq_data shared_data) (sqcq_ctx c),
               sq_ctx := init_sq_smt fx (sq_data shared_data) (sq_ctx c)\<rparr>;
         (d, sq) = init_send_sq fx (sq_ctx c) (ucast (LOG2VALUE 7)) (lkey c) d;
         c = c\<lparr>sq_ctx := sq,
               dt_ctx := (dt_ctx c)\<lparr>sq_tx_buff := wqd_daddr (sq_data shared_data),
                                   tx_buff_idx := 0, data_idx_mask := ring_mask 7\<rparr>,
               rq_on_host := daddr_on_host (rq_data shared_data),
               sq_on_host := daddr_on_host (sq_data shared_data),
               credits := THREAD_CREDITS, thread_idx := ucast (thread_index shared_data),
               send_index := 1, is_initalized := 1\<rparr>
     in (emit Memory_writeback d, c))"

definition dpa_send_mt_device_init ::
  "flexio \<Rightarrow> queue_config_data \<Rightarrow> dpa \<times> smt_ctx list \<Rightarrow> u64 \<times> dpa \<times> smt_ctx list" where
  "dpa_send_mt_device_init fx shared_data = (\<lambda>(d, dev_ctxs).
     let i = unat (thread_index shared_data) in
     if \<not> i < MAX_THREADS_smt then (- 1, d, dev_ctxs)
     else let (d, c) = init_ctx_smt fx shared_data (d, dev_ctxs ! i) in (0, d, dev_ctxs[i := c]))"

subsection \<open>Building packets\<close>

text \<open>An Ethernet address with the thread's index added to its last byte.\<close>

definition bump :: "u8 \<Rightarrow> u8 list \<Rightarrow> u8 list" where
  "bump ti a = a[5 := a ! 5 + ti]"

definition dst_addr_smt :: "mt_build \<Rightarrow> u8 \<Rightarrow> u8 list" where
  "dst_addr_smt b ti = (if TO_DPA_DST b then bump ti DST_DPA_ADDR else DST_ADDR_smt)"

text \<open>The addresses written in place: the constants first, then the sum in memory.\<close>

definition write_addrs :: "mt_build \<Rightarrow> u8 \<Rightarrow> ptr \<Rightarrow> memory \<Rightarrow> memory" where
  "write_addrs b ti p m =
     (let m = store_bytes m (p + off_eth_src) SRC_ADDR_smt;
          m = m(p + off_eth_src + 5 := m (p + off_eth_src + 5) + ti)
      in if TO_DPA_DST b
         then let m = store_bytes m p DST_DPA_ADDR in m(p + 5 := m (p + 5) + ti)
         else store_bytes m p DST_ADDR_smt)"

definition prepare_packet_smt :: "mt_build \<Rightarrow> flexio \<Rightarrow> nat \<Rightarrow> ptr \<Rightarrow> memory \<Rightarrow> memory" where
  "prepare_packet_smt b fx i p m =
     (let m = write_addrs b (of_nat i) p m;
          m = store16 m (p + off_ether_type) (cpu_to_be16 fx 0x0800)
      in write_ip_udp fx (of_nat i) (of_nat i) p m)"

definition prepare_packet_host_smt :: "mt_build \<Rightarrow> flexio \<Rightarrow> u16 \<times> u16 \<Rightarrow> nat \<Rightarrow> ptr \<Rightarrow> dpa \<Rightarrow> dpa" where
  "prepare_packet_host_smt b fx ck i p =
     copy_to_host fx p (udp_packet_bytes
       (make_udp_packet fx (bump (of_nat i) SRC_ADDR_smt) (dst_addr_smt b (of_nat i)) (of_nat i) (of_nat i) ck))"

subsection \<open>Receiving and sending\<close>

definition receive_packet_on_dpa_smt :: "flexio \<Rightarrow> dpa \<times> smt_ctx \<Rightarrow> smt_ctx" where
  "receive_packet_on_dpa_smt fx = (\<lambda>(d, c).
     let (rq_data, data_sz) = receive_packet fx (mem d) (rqcq_ctx c) (rq_ctx c)
     in if data_sz \<noteq> pkt_size_smt then c else c\<lparr>credits := credits c + 1\<rparr>)"

definition receive_packet_on_host_smt :: "flexio \<Rightarrow> dpa \<times> smt_ctx \<Rightarrow> smt_ctx" where
  "receive_packet_on_host_smt fx = (\<lambda>(d, c).
     let (rq_data, data_sz) = receive_packet fx (mem d) (rqcq_ctx c) (rq_ctx c)
     in if data_sz \<noteq> pkt_size_smt then c else c\<lparr>credits := credits c + 1\<rparr>)"

definition send_packet_dpa :: "mt_build \<Rightarrow> flexio \<Rightarrow> dpa \<times> smt_ctx \<Rightarrow> dpa \<times> smt_ctx" where
  "send_packet_dpa b fx = (\<lambda>(d, c).
     let (buf, dt) = get_next_send_buf (dt_ctx c) 10;
         d = upd_mem (write_addrs b (thread_idx c) buf) d;
         (d, sq) = prepare_send_packet fx (sq_ctx c) buf pkt_size_smt d;
         (d, sq) = finish_send_packet sq d
     in (d, c\<lparr>dt_ctx := dt, credits := credits c - 1, sq_ctx := sq\<rparr>))"

definition send_packet_on_host :: "mt_build \<Rightarrow> flexio \<Rightarrow> dpa \<times> smt_ctx \<Rightarrow> dpa \<times> smt_ctx" where
  "send_packet_on_host b fx = (\<lambda>(d, c).
     let (buf, dt) = get_next_send_buf (dt_ctx c) 10;
         buf_dpa = host_sq_addr_to_dpa_addr buf (host_sq_ctx c);
         d = upd_mem (write_addrs b (thread_idx c) buf_dpa) d;
         (d, sq) = prepare_send_packet fx (sq_ctx c) buf pkt_size_smt d;
         (d, sq) = finish_send_packet_host sq d
     in (d, c\<lparr>dt_ctx := dt, credits := credits c - 1, sq_ctx := sq\<rparr>))"

subsection \<open>The first-packet call\<close>

text \<open>The two loops over the entries of the send ring.\<close>

fun fill_entries :: "mt_build \<Rightarrow> flexio \<Rightarrow> nat \<Rightarrow> nat \<Rightarrow> dpa \<times> smt_ctx \<Rightarrow> dpa \<times> smt_ctx" where
  "fill_entries b fx i 0 s = s"
| "fill_entries b fx i (Suc n) (d, c) =
     (let (buf, dt) = get_next_send_buf (dt_ctx c) 10
      in fill_entries b fx i n (upd_mem (prepare_packet_smt b fx i buf) d, c\<lparr>dt_ctx := dt\<rparr>))"

fun fill_entries_host :: "mt_build \<Rightarrow> flexio \<Rightarrow> u16 \<times> u16 \<Rightarrow> nat \<Rightarrow> nat \<Rightarrow> dpa \<times> smt_ctx \<Rightarrow> dpa \<times> smt_ctx" where
  "fill_entries_host b fx ck i 0 s = s"
| "fill_entries_host b fx ck i (Suc n) (d, c) =
     (let (buf, dt) = get_next_send_buf (dt_ctx c) 10
      in fill_entries_host b fx ck i n (prepare_packet_host_smt b fx ck i buf d, c\<lparr>dt_ctx := dt\<rparr>))"

definition first_packet_smt :: "mt_build \<Rightarrow> flexio \<Rightarrow> u16 \<times> u16 \<Rightarrow> nat \<Rightarrow> dpa \<times> smt_ctx \<Rightarrow> dpa \<times> smt_ctx" where
  "first_packet_smt b fx ck i = (\<lambda>(d, c).
     if is_initalized c = 0 then (d, c)
     else if sq_on_host c \<noteq> 0
     then
       let h = host_sq_ctx c;
           (buff, d) = get_host_buffer_with_dtctx fx (sq_window_id h) (sq_rkey h) (host_tx_buff h) d;
           s = fill_entries_host b fx ck i (unat (LOG2VALUE 7)) (d, c\<lparr>host_sq_ctx := h\<lparr>dpa_tx_buff := buff\<rparr>\<rparr>)
       in if TO_DPA_DST b then send_packet_on_host b fx s else s
     else
       let s = fill_entries b fx i (unat (LOG2VALUE 7)) (d, c)
       in if TO_DPA_DST b then send_packet_dpa b fx s else s)"

fun first_packets :: "mt_build \<Rightarrow> flexio \<Rightarrow> u16 \<times> u16 \<Rightarrow> nat \<Rightarrow> dpa \<times> smt_ctx list \<Rightarrow> dpa \<times> smt_ctx list" where
  "first_packets b fx ck i (d, []) = (d, [])"
| "first_packets b fx ck i (d, c # cs) =
     (let (d, c) = first_packet_smt b fx ck i (d, c);
          (d, cs) = first_packets b fx ck (Suc i) (d, cs)
      in (d, c # cs))"

definition dpa_send_mt_deivce_first_packet ::
  "mt_build \<Rightarrow> flexio \<Rightarrow> u16 \<times> u16 \<Rightarrow> dpa \<times> smt_ctx list \<Rightarrow> u64 \<times> dpa \<times> smt_ctx list" where
  "dpa_send_mt_deivce_first_packet b fx ck s = (0, first_packets b fx ck 0 s)"

text \<open>The stop call: the new value of \<open>is_stop\<close>.\<close>

definition dpa_send_mt_stop :: "u8 \<Rightarrow> u64 \<times> u8" where
  "dpa_send_mt_stop is_stop = (0, 1)"

subsection \<open>The event handler\<close>

text \<open>One received packet, in the builds that receive; the local \<open>pkt_count\<close> is the second component.\<close>

definition iter_smt :: "mt_build \<Rightarrow> u8 \<Rightarrow> flexio \<Rightarrow> dpa \<times> smt_ctx \<times> u64 \<Rightarrow> (dpa \<times> smt_ctx \<times> u64) option" where
  "iter_smt b on_host fx = (\<lambda>(d, c, pkt_count).
     let c = (if on_host \<noteq> 0 then receive_packet_on_host_smt fx (d, c) else receive_packet_on_dpa_smt fx (d, c));
         d = step_rq fx (rq_ctx c) d;
         (d, cq) = step_cq fx (rqcq_ctx c) d;
         c = c\<lparr>rqcq_ctx := cq\<rparr>
     in Some (if \<not> DISPLAY_COUNT b then (d, c, pkt_count)
              else if pkt_count + 1 = 1000000 then (d, c\<lparr>packets_count := packets_count c + 1000000\<rparr>, 0)
              else (d, c, pkt_count + 1)))"

text \<open>One turn of \<open>while (!is_stop)\<close>.\<close>

definition turn_smt :: "mt_build \<Rightarrow> u8 \<Rightarrow> flexio \<Rightarrow> dpa \<times> smt_ctx \<times> u64 \<Rightarrow> (dpa \<times> smt_ctx \<times> u64) option" where
  "turn_smt b on_host fx = (\<lambda>(d, c, pkt_count).
     let (d, c) = (if on_host \<noteq> 0 then send_packet_on_host b fx (d, c) else send_packet_dpa b fx (d, c))
     in if ONLY_SEND b then Some (d, c, pkt_count)
        else rx_drain fx (iter_smt b on_host fx) (rqcq_ctx \<circ> fst) (d, c, pkt_count))"

text \<open>The handler's loop: \<open>n\<close> turns until the other thread's \<open>is_stop\<close> is seen.\<close>

fun turns_smt :: "mt_build \<Rightarrow> u8 \<Rightarrow> flexio \<Rightarrow> nat \<Rightarrow> dpa \<times> smt_ctx \<times> u64 \<Rightarrow> (dpa \<times> smt_ctx \<times> u64) option" where
  "turns_smt b on_host fx 0 s = Some s"
| "turns_smt b on_host fx (Suc n) s = Option.bind (turn_smt b on_host fx s) (turns_smt b on_host fx n)"

definition dpa_send_mt_device_event_handler ::
  "flexio \<Rightarrow> u64 \<Rightarrow> dpa \<times> smt_ctx list \<Rightarrow> (smt_ctx \<times> u64) outcome option" where
  "dpa_send_mt_device_event_handler fx index = (\<lambda>(d, dev_ctxs).
     if \<not> unat index < length dev_ctxs then None
     else
       let c = dev_ctxs ! unat index; h = host_rq_ctx c; g = host_sq_ctx c in
       if is_initalized c = 0 then Some (Exited (emit Reschedule d) (c, 0))
       else
         let (rbuff, d) = (if rq_on_host c \<noteq> 0
                           then get_host_buffer_with_dtctx fx (rq_window_id h) (rq_rkey h) (host_rx_buff h) d
                           else (host_rx_buff h, d));
             (tbuff, d) = (if sq_on_host c \<noteq> 0
                           then get_host_buffer_with_dtctx fx (sq_window_id g) (sq_rkey g) (host_tx_buff g) d
                           else (host_tx_buff g, d))
         in Some (Polling d (c\<lparr>host_rq_ctx := h\<lparr>dpa_rx_buff := rbuff\<rparr>, host_sq_ctx := g\<lparr>dpa_tx_buff := tbuff\<rparr>\<rparr>, 0)))"

definition smt_leave :: "dpa \<times> smt_ctx \<Rightarrow> dpa" where
  "smt_leave = (\<lambda>(d, c).
     emit Reschedule (emit (Cq_arm (cq_idx (rqcq_ctx c)) (cq_number (rqcq_ctx c))) (emit Thread_fence d)))"

subsection \<open>Lemmas on headers\<close>

lemma length_addrs_smt [simp]:
  "length SRC_ADDR_smt = 6" "length DST_ADDR_smt = 6" "length DST_DPA_ADDR = 6" "length (bump ti a) = length a"
  by (simp_all add: SRC_ADDR_smt_def DST_ADDR_smt_def DST_DPA_ADDR_def bump_def)

lemma store_bytes_bump:
  assumes "length a = 6"
  shows "(store_bytes m p a)(p + 5 := store_bytes m p a (p + 5) + ti) = store_bytes m p (bump ti a)"
proof
  fix x
  have "p + of_nat (unat (x - p)) = x" by simp
  then have "x = p + 5" if "unat (x - p) = 5" using that by (metis of_nat_numeral)
  then have "x \<noteq> p + 5 \<Longrightarrow> unat (x - p) \<noteq> 5" by blast
  then show "((store_bytes m p a)(p + 5 := store_bytes m p a (p + 5) + ti)) x = store_bytes m p (bump ti a) x"
    using assms by (simp add: store_bytes_apply inside_def bump_def)
qed

lemma write_addrs_eq:
  "write_addrs b ti p m =
     store_bytes (store_bytes m (p + off_eth_src) (bump ti SRC_ADDR_smt)) p (dst_addr_smt b ti)"
  unfolding write_addrs_def Let_def dst_addr_smt_def
    store_bytes_bump[OF length_addrs_smt(1)] store_bytes_bump[OF length_addrs_smt(3)] by simp

lemma length_dst_addr_smt [simp]: "length (dst_addr_smt b ti) = 6"
  by (simp add: dst_addr_smt_def)

lemma write_addrs_outside: "\<not> inside a p 42 \<Longrightarrow> write_addrs b ti p m a = m a"
  using outside_sub[of a p 42 6 6] outside_sub[of a p 42 0 6] by (simp add: write_addrs_eq store_bytes_apply)

lemma prepare_packet_smt_outside:
  assumes "\<not> inside a p 42"
  shows "prepare_packet_smt b fx i p m a = m a"
  using assms outside_sub[of a p 42 12 2]
  by (simp add: prepare_packet_smt_def Let_def write_ip_udp_outside write_addrs_outside store_le_outside)

text \<open>A buffer that holds the headers of thread \<open>i\<close>, and a thread all of whose buffers do.\<close>

definition hdr_ok :: "flexio \<Rightarrow> mt_build \<Rightarrow> nat \<Rightarrow> memory \<Rightarrow> ptr \<Rightarrow> bool" where
  "hdr_ok fx b i m p \<longleftrightarrow>
     (\<exists>ck. read_udp_packet m p =
        make_udp_packet fx (bump (of_nat i) SRC_ADDR_smt) (dst_addr_smt b (of_nat i)) (of_nat i) (of_nat i) ck)"

definition tx_ready :: "flexio \<Rightarrow> mt_build \<Rightarrow> nat \<Rightarrow> memory \<Rightarrow> ptr \<Rightarrow> bool" where
  "tx_ready fx b i m area \<longleftrightarrow> (\<forall>e < 128. hdr_ok fx b i m (area + of_nat (1024 * e)))"

lemma prepare_packet_smt_hdr: "hdr_ok fx b i (prepare_packet_smt b fx i p m) p"
  unfolding prepare_packet_smt_def Let_def hdr_ok_def
  by (rule exI, rule read_write_ip_udp) (simp add: write_addrs_eq header_simps)

lemma write_addrs_hdr: "hdr_ok fx b i m p \<Longrightarrow> hdr_ok fx b i (write_addrs b (of_nat i) p m) p"
  by (auto simp: hdr_ok_def write_addrs_eq header_simps make_udp_packet_def)

lemma hdr_ok_cong:
  assumes "\<And>j. j < 42 \<Longrightarrow> m (p + of_nat j) = m' (p + of_nat j)"
  shows "hdr_ok fx b i m p = hdr_ok fx b i m' p"
  using read_udp_packet_cong[of m p m'] assms by (simp add: hdr_ok_def)

text \<open>Filling the ring of send buffers.\<close>

definition tx_wr :: "mt_build \<Rightarrow> flexio \<Rightarrow> nat \<Rightarrow> ptr \<Rightarrow> nat \<Rightarrow> memory \<Rightarrow> memory" where
  "tx_wr b fx i area e = prepare_packet_smt b fx i (area + of_nat (1024 * e))"

interpretation tx_table: table_fill "tx_wr b fx i area" area 1024 for b fx i area
proof unfold_locales
  fix a e and m :: memory assume "\<not> inside a (area + of_nat (1024 * e)) 1024"
  then have "\<not> inside a (area + of_nat (1024 * e)) 42" by (simp add: inside_def)
  then show "tx_wr b fx i area e m a = m a" unfolding tx_wr_def by (rule prepare_packet_smt_outside)
qed

lemma send_buf_at:
  assumes "data_idx_mask dt = ring_mask 7" "tx_buff_idx dt = of_nat e"
  shows "get_next_send_buf dt 10 = (sq_tx_buff dt + of_nat (1024 * (e mod 128)), dt\<lparr>tx_buff_idx := of_nat (Suc e)\<rparr>)"
proof -
  have "fst (get_next_send_buf dt 10) = sq_tx_buff dt + of_nat ((unat (tx_buff_idx dt) mod 2 ^ 7) * 2 ^ 10)"
    using get_next_send_buf_addr[of dt 7 10] assms(1) by simp
  moreover have "unat (tx_buff_idx dt) mod 2 ^ 7 = e mod 128"
    using unat_of_nat_mod_pow[of 7 e] assms(2) by simp
  ultimately show ?thesis using assms(2) by (simp add: get_next_send_buf_def Let_def mult.commute)
qed

lemma fill_entries_fold:
  assumes "data_idx_mask (dt_ctx c) = ring_mask 7" "tx_buff_idx (dt_ctx c) = of_nat e" "e + n \<le> 128"
  shows "fill_entries b fx i n (d, c) =
    (upd_mem (fold (tx_wr b fx i (sq_tx_buff (dt_ctx c))) [e..<e + n]) d, c\<lparr>dt_ctx := (dt_ctx c)\<lparr>tx_buff_idx := of_nat (e + n)\<rparr>\<rparr>)"
  using assms
proof (induction n arbitrary: e d c)
  case 0
  then show ?case by simp
next
  case (Suc n)
  have "get_next_send_buf (dt_ctx c) 10 = (sq_tx_buff (dt_ctx c) + of_nat (1024 * e), (dt_ctx c)\<lparr>tx_buff_idx := of_nat (Suc e)\<rparr>)"
    using send_buf_at[OF Suc.prems(1,2)] Suc.prems(3) by simp
  moreover have "[e..<e + Suc n] = e # [Suc e..<Suc e + n]" by (simp add: upt_conv_Cons del: upt_Suc)
  ultimately show ?case
    using Suc.IH[of "c\<lparr>dt_ctx := (dt_ctx c)\<lparr>tx_buff_idx := of_nat (Suc e)\<rparr>\<rparr>" "Suc e"] Suc.prems
    by (simp add: tx_wr_def del: upt_Suc of_nat_Suc of_nat_mult)
qed

lemma fill_ready:
  "tx_ready fx b i (fold (tx_wr b fx i area) [0..<128] m) area"
  unfolding tx_ready_def
proof (intro allI impI)
  fix e :: nat assume "e < 128"
  let ?p = "area + of_nat (1024 * e)"
  have "hdr_ok fx b i (fold (tx_wr b fx i area) [0..<128] m) ?p
    = hdr_ok fx b i (tx_wr b fx i area e (fold (tx_wr b fx i area) [0..<e] m)) ?p"
    using \<open>e < 128\<close> by (intro tx_table.fill_read hdr_ok_cong) auto
  then show "hdr_ok fx b i (fold (tx_wr b fx i area) [0..<128] m) ?p" by (simp only: tx_wr_def prepare_packet_smt_hdr)
qed

subsection \<open>Lemmas on sending\<close>

lemma write_addrs_ready:
  assumes "tx_ready fx b i m area" "j < 128"
  shows "tx_ready fx b i (write_addrs b (of_nat i) (area + of_nat (1024 * j)) m) area"
  unfolding tx_ready_def
proof (intro allI impI)
  fix e :: nat assume e: "e < 128"
  let ?q = "area + of_nat (1024 * j)" and ?p = "area + of_nat (1024 * e)"
  from assms(1) e have h: "hdr_ok fx b i m ?p" by (simp add: tx_ready_def del: of_nat_mult)
  show "hdr_ok fx b i (write_addrs b (of_nat i) ?q m) ?p"
  proof (cases "e = j")
    case True
    with h show ?thesis using write_addrs_hdr by blast
  next
    case False
    have "1024 * e + 42 \<le> 1024 * j \<or> 1024 * j + 42 \<le> 1024 * e" using False by linarith
    then have "sep ?q 42 ?p 42" using e assms(2) sep_offs[of "1024 * e" 42 "1024 * j" 42 area]
        sep_offs[of "1024 * j" 42 "1024 * e" 42 area] by (auto simp: sep_sym simp del: of_nat_mult)
    then have "\<not> inside (?p + of_nat k) ?q 42" if "k < 42" for k using that sep_off by simp
    then have "hdr_ok fx b i (write_addrs b (of_nat i) ?q m) ?p = hdr_ok fx b i m ?p"
      by (intro hdr_ok_cong write_addrs_outside)
    with h show ?thesis by simp
  qed
qed

text \<open>The data segments of the send ring are apart from the send buffers.\<close>

definition ring_area_sep :: "flexio \<Rightarrow> sq_ctx_t \<Rightarrow> ptr \<Rightarrow> bool" where
  "ring_area_sep fx sq area \<longleftrightarrow>
     (\<forall>j. data_seg_sep fx (sq_ring sq + ucast (j AND sq_idx_mask sq) * sqe_seg_bsize fx) area 131072)"

lemma prepare_send_ready:
  assumes "ring_area_sep fx sq area" "tx_ready fx b i (mem d) area"
  shows "tx_ready fx b i (mem (fst (prepare_send_packet fx sq p len d))) area"
  unfolding tx_ready_def
proof (intro allI impI)
  fix e :: nat assume e: "e < 128"
  let ?m = "mem (fst (prepare_send_packet fx sq p len d))"
  have "data_seg_sep fx (fst (get_next_data_sqe fx sq)) area 131072"
    using assms(1) by (simp add: ring_area_sep_def get_next_data_sqe_def)
  then have l: "load_bytes ?m area 131072 = load_bytes (mem d) area 131072"
    by (rule prepare_send_packet_mem(2)) simp
  have "?m (area + of_nat k) = mem d (area + of_nat k)" if "k < 131072" for k
    using arg_cong[OF l, of "\<lambda>xs. xs ! k"] that by simp
  from this[of "1024 * e + _"] e
  have "hdr_ok fx b i ?m (area + of_nat (1024 * e)) = hdr_ok fx b i (mem d) (area + of_nat (1024 * e))"
    by (intro hdr_ok_cong) (simp add: add.assoc)
  with assms(2) e show "hdr_ok fx b i ?m (area + of_nat (1024 * e))" by (simp add: tx_ready_def del: of_nat_mult)
qed

text \<open>The data segment of the \<open>j\<close>-th packet that a thread sends from state \<open>sq\<close> of its send queue on.\<close>

definition data_seg_at :: "flexio \<Rightarrow> sq_ctx_t \<Rightarrow> nat \<Rightarrow> ptr" where
  "data_seg_at fx sq j = sq_ring sq + ucast ((sq_wqe_seg_idx sq + 4 * of_nat j + 2) AND sq_idx_mask sq) * sqe_seg_bsize fx"

text \<open>
  The state of a sending thread that has sent \<open>k\<close> packets since \<open>(d0, c0)\<close>, where it stood at buffer \<open>e\<close>:
  the send entry of the last of them announces its buffer.
\<close>

definition smt_sent :: "mt_build \<Rightarrow> flexio \<Rightarrow> nat \<Rightarrow> nat \<Rightarrow> dpa \<times> smt_ctx \<Rightarrow> nat \<Rightarrow> dpa \<times> smt_ctx \<Rightarrow> bool" where
  "smt_sent b fx i e = (\<lambda>(d0, c0) k (d, c).
     c = c0\<lparr>dt_ctx := (dt_ctx c0)\<lparr>tx_buff_idx := of_nat (e + k)\<rparr>, credits := credits c0 - of_nat k,
            sq_ctx := (sq_ctx c0)\<lparr>sq_wqe_seg_idx := sq_wqe_seg_idx (sq_ctx c0) + 4 * of_nat k,
                                  sq_pi := sq_pi (sq_ctx c0) + of_nat k\<rparr>\<rparr> \<and>
     tx_ready fx b i (mem d) (sq_tx_buff (dt_ctx c0)) \<and>
     doorbells (trace d) = doorbells (trace d0) @
       map (\<lambda>i. (sq_pi (sq_ctx c0) + of_nat (Suc i), sq_number (sq_ctx c0))) [0..<k] \<and>
     (\<forall>j. k = Suc j \<longrightarrow>
        posted fx (data_seg_at fx (sq_ctx c0) j) (sq_tx_buff (dt_ctx c0) + of_nat (1024 * ((e + j) mod 128))) 64 (mem d)))"

lemma smt_sent_step:
  assumes "data_idx_mask (dt_ctx c0) = ring_mask 7" "thread_idx c0 = of_nat i"
    and "ring_area_sep fx (sq_ctx c0) (sq_tx_buff (dt_ctx c0))" "smt_sent b fx i e (d0, c0) k (d, c)"
  shows "smt_sent b fx i e (d0, c0) (Suc k) (send_packet_dpa b fx (d, c))"
proof -
  let ?area = "sq_tx_buff (dt_ctx c0)"
  have c: "data_idx_mask (dt_ctx c) = ring_mask 7" "tx_buff_idx (dt_ctx c) = of_nat (e + k)" "thread_idx c = of_nat i"
    "sq_tx_buff (dt_ctx c) = ?area" "ring_area_sep fx (sq_ctx c) ?area" "tx_ready fx b i (mem d) ?area"
    using assms by (simp_all add: smt_sent_def ring_area_sep_def)
  note buf = send_buf_at[OF c(1,2)]
  let ?d = "upd_mem (write_addrs b (of_nat i) (?area + of_nat (1024 * ((e + k) mod 128)))) d"
  have "tx_ready fx b i (mem ?d) ?area" using write_addrs_ready[OF c(6), of "(e + k) mod 128"] by simp
  note ready = prepare_send_ready[OF c(5) this]
  have w: "fst (get_next_data_sqe fx (sq_ctx c)) = data_seg_at fx (sq_ctx c0) k"
    using assms(4) by (simp add: smt_sent_def get_next_data_sqe_def data_seg_at_def)
  have "data_seg_sep fx (fst (get_next_data_sqe fx (sq_ctx c))) ?area 131072"
    using c(5) by (simp add: ring_area_sep_def get_next_data_sqe_def)
  from prepare_send_packet_mem(1)[OF this]
  have "posted fx (data_seg_at fx (sq_ctx c0) k) p 64 (mem (fst (prepare_send_packet fx (sq_ctx c) p 64 ?d)))" for p
    unfolding w by simp
  with ready show ?thesis
    using assms(4) c(3,4) buf
    by (simp add: smt_sent_def send_packet_dpa_def case_prod_beta Let_def send_simps algebra_simps del: of_nat_mult)
qed

lemma turns_only_send:
  "ONLY_SEND b \<Longrightarrow> turns_smt b 0 fx n (d, c, k) = Some (d', c', k') \<Longrightarrow> (d', c') = (send_packet_dpa b fx ^^ n) (d, c)"
proof (induction n arbitrary: d c)
  case (Suc n)
  from Suc.IH[of "fst (send_packet_dpa b fx (d, c))" "snd (send_packet_dpa b fx (d, c))"] Suc.prems show ?case
    by (simp add: turn_smt_def case_prod_beta Let_def funpow_swap1)
qed simp

lemma smt_sent_funpow:
  assumes "data_idx_mask (dt_ctx c0) = ring_mask 7" "thread_idx c0 = of_nat i"
    and "ring_area_sep fx (sq_ctx c0) (sq_tx_buff (dt_ctx c0))" "smt_sent b fx i e (d0, c0) 0 (d, c)"
  shows "smt_sent b fx i e (d0, c0) k ((send_packet_dpa b fx ^^ k) (d, c))"
proof (induction k)
  case (Suc k)
  obtain d1 c1 where p: "(send_packet_dpa b fx ^^ k) (d, c) = (d1, c1)" by (rule prod.exhaust)
  from smt_sent_step[OF assms(1-3), of b e d0 k d1 c1] Suc show ?case unfolding p by (simp add: p)
qed (use assms(4) in simp)

lemma bump_inj: "i < 190 \<Longrightarrow> j < 190 \<Longrightarrow> i \<noteq> j \<Longrightarrow> bump (of_nat i) SRC_ADDR_smt \<noteq> bump (of_nat j) SRC_ADDR_smt"
proof
  assume ij: "i < 190" "j < 190" "i \<noteq> j" and "bump (of_nat i) SRC_ADDR_smt = bump (of_nat j) SRC_ADDR_smt"
  then have "(of_nat i :: u8) = of_nat j" by (simp add: bump_def SRC_ADDR_smt_def)
  then have "unat (of_nat i :: u8) = unat (of_nat j :: u8)" by simp
  with ij show False by (simp add: unat_of_nat take_bit_nat_eq_self)
qed

subsection \<open>A concrete context\<close>

definition sample_smt :: smt_ctx where
  "sample_smt = refactor_ctx.extend
     (dev_ctx_refactor\<lparr>is_initalized := 1, sq_ctx := init_sq_smt sample_fx (sq_data sample_qcd) sq_zero,
        dt_ctx := \<lparr>sq_tx_buff = 0x50000, tx_buff_idx = 0, data_idx_mask = ring_mask 7\<rparr>\<rparr>)
     \<lparr>host_sq_ctx = host_sq_zero, credits = 8, thread_idx = 5, send_index = 1\<rparr>"

lemma sample_smt_simps [simp]:
  "is_initalized sample_smt = 1" "sq_on_host sample_smt = 0" "thread_idx sample_smt = 5" "credits sample_smt = 8"
  "sq_ctx sample_smt = init_sq_at sample_fx 7 (sq_data sample_qcd) sq_zero"
  "dt_ctx sample_smt = \<lparr>sq_tx_buff = 0x50000, tx_buff_idx = 0, data_idx_mask = ring_mask 7\<rparr>"
  by (simp_all add: sample_smt_def refactor_ctx.defs init_sq_smt_def dev_ctx_refactor_def)

lemma sample_ring_area_sep:
  "ring_area_sep sample_fx (init_sq_at sample_fx 7 (sq_data sample_qcd) sq_zero) 0x50000"
  unfolding ring_area_sep_def
proof
  fix j :: u32
  define k where "k = unat (j AND ring_mask 9)"
  have k: "k < 512" using ring_mask_bound[of j 9] by (simp add: k_def)
  have w: "ucast (j AND ring_mask 9) = (of_nat k :: ptr)" unfolding k_def by (metis of_nat_unat)
  have "sep (0 + of_nat (0x28000 + 16 * k + x)) l (0 + of_nat 0x50000) 131072" if "x + l \<le> 16" "0 < l" for x l
    using k that by (intro sep_offs) auto
  from this[of 0 4] this[of 8 8] sep_offs[of "0x28000 + 16 * k" 4 "0x28000 + 16 * k + 8" 8 0] k
  show "data_seg_sep sample_fx (sq_ring (init_sq_at sample_fx 7 (sq_data sample_qcd) sq_zero) +
      ucast (j AND sq_idx_mask (init_sq_at sample_fx 7 (sq_data sample_qcd) sq_zero)) * sqe_seg_bsize sample_fx) 0x50000 131072"
    by (simp add: init_sq_at_def sample_qcd_def w data_seg_sep_def ac_simps)
qed

subsection \<open>Properties\<close>

text \<open>
  C17: a sending thread, buffers in DPA memory.  After the first-packet call and any number \<open>n\<close> of
  turns of the handler's loop, every one of the thread's 128 send buffers holds the complete
  headers of this thread, with a source address no other thread uses.  The packets were announced
  one by one with consecutive producer indices, and the send entry of the packet announced
  last, the entry after that of the packet before, gives the card the address of the next buffer of the ring and 64 bytes
  to send: with \<open>n\<close> arbitrary, each packet, at the moment of its doorbell, is a buffer that carries the headers.
  The 8-bit credit counter has been decreased once per packet, without any check, so it wraps.
\<close>

theorem smt_headers:
  assumes "is_initalized c0 \<noteq> 0" "sq_on_host c0 = 0" "tx_buff_idx (dt_ctx c0) = 0"
    and "data_idx_mask (dt_ctx c0) = ring_mask 7" "thread_idx c0 = of_nat i" "i < 190"
    and "ring_area_sep fx (sq_ctx c0) (sq_tx_buff (dt_ctx c0))"
    and "first_packet_smt b fx ck i (d0, c0) = (d1, c1)"
    and "ONLY_SEND b" "turns_smt b 0 fx n (d1, c1, k) = Some (d, c, k')"
    and "sends = n + (if TO_DPA_DST b then 1 else 0)"
  shows "(\<forall>e < 128. \<exists>ck. read_udp_packet (mem d) (sq_tx_buff (dt_ctx c0) + of_nat (1024 * e)) =
            make_udp_packet fx (bump (of_nat i) SRC_ADDR_smt) (dst_addr_smt b (of_nat i)) (of_nat i) (of_nat i) ck) \<and>
         (\<forall>j < 190. j \<noteq> i \<longrightarrow> bump (of_nat i) SRC_ADDR_smt \<noteq> bump (of_nat j) SRC_ADDR_smt) \<and>
         doorbells (trace d) = doorbells (trace d0) @
           map (\<lambda>i. (sq_pi (sq_ctx c0) + of_nat (Suc i), sq_number (sq_ctx c0))) [0..<sends] \<and>
         (0 < sends \<longrightarrow> posted fx (data_seg_at fx (sq_ctx c0) (sends - 1))
            (sq_tx_buff (dt_ctx c0) + of_nat (1024 * ((sends - 1) mod 128))) 64 (mem d)) \<and>
         credits c = credits c0 - of_nat sends"
proof -
  define s where "s = fill_entries b fx i 128 (d0, c0)"
  have fill: "s = (upd_mem (fold (tx_wr b fx i (sq_tx_buff (dt_ctx c0))) [0..<128]) d0,
      c0\<lparr>dt_ctx := (dt_ctx c0)\<lparr>tx_buff_idx := of_nat 128\<rparr>\<rparr>)"
    using fill_entries_fold[of c0 0 128 b fx i d0] assms(3,4) by (simp add: s_def)
  have "smt_sent b fx i 128 (d0, c0) 0 s" unfolding fill using fill_ready by (simp add: smt_sent_def)
  then have st: "smt_sent b fx i 128 (d0, c0) sends ((send_packet_dpa b fx ^^ sends) s)"
    using smt_sent_funpow[OF assms(4,5,7), of b 128 d0 "fst s" "snd s" sends] by simp
  have "unat (LOG2VALUE 7) = 128" by (simp add: LOG2VALUE_def)
  then have "(d1, c1) = (if TO_DPA_DST b then send_packet_dpa b fx s else s)"
    using assms(1,2,8) by (simp add: first_packet_smt_def s_def Let_def split: if_splits)
  then have "(d, c) = (send_packet_dpa b fx ^^ sends) s"
    using turns_only_send[OF assms(9,10)] assms(11) by (simp add: funpow_swap1 split: if_splits)
  with st have sent: "smt_sent b fx i 128 (d0, c0) sends (d, c)" by simp
  have "posted fx (data_seg_at fx (sq_ctx c0) (sends - 1)) (sq_tx_buff (dt_ctx c0) + of_nat (1024 * ((sends - 1) mod 128))) 64 (mem d)"
    if "0 < sends"
    using sent that mod_add_self1[of 128 "sends - 1"] by (auto simp: smt_sent_def gr0_conv_Suc simp del: of_nat_mult)
  with sent show ?thesis
    using bump_inj[OF assms(6)] by (auto simp: smt_sent_def tx_ready_def hdr_ok_def)
qed

theorem smt_headers_witness:
  "\<exists>(d :: dpa) c. credits (c :: smt_ctx) = 255 \<and> length (doorbells (trace d)) = 9 \<and> posted sample_fx 0x28220 (0x50000 + 1024 * 8) 64 (mem d) \<and>
     (\<exists>ck. read_udp_packet (mem d) (0x50000 + of_nat (1024 * 127)) =
        make_udp_packet sample_fx (bump 5 SRC_ADDR_smt) DST_ADDR_smt 5 5 ck)"
proof -
  obtain d1 c1 where f: "first_packet_smt mt_default sample_fx (0, 0) 5 (sample_dpa, sample_smt) = (d1, c1)"
    by (rule prod.exhaust)
  have b: "ONLY_SEND mt_default" "\<not> TO_DPA_DST mt_default" by (simp_all add: mt_default_def)
  have "\<exists>d c k'. turns_smt mt_default 0 sample_fx n s = Some (d, c, k')" for n s
    by (induction n arbitrary: s) (auto simp: turn_smt_def b Let_def case_prod_beta)
  then obtain d c k' where t: "turns_smt mt_default 0 sample_fx 9 (d1, c1, 0) = Some (d, c, k')" by blast
  have w: "data_seg_at sample_fx (init_sq_at sample_fx 7 (sq_data sample_qcd) sq_zero) 8 = 0x28220"
    by (simp add: data_seg_at_def sample_qcd_def ring_mask_def LOG2VALUE_def)
  have "credits c = 255" "length (doorbells (trace d)) = 9" "posted sample_fx 0x28220 (0x50000 + 1024 * 8) 64 (mem d)"
    using smt_headers[OF _ _ _ _ _ _ _ f b(1) t, of 9] sample_ring_area_sep w by (simp_all add: b)
  moreover have "\<exists>ck. read_udp_packet (mem d) (0x50000 + of_nat (1024 * 127)) =
      make_udp_packet sample_fx (bump 5 SRC_ADDR_smt) DST_ADDR_smt 5 5 ck"
    using smt_headers[OF _ _ _ _ _ _ _ f b(1) t, of 9, THEN conjunct1, rule_format, of 127] sample_ring_area_sep
    by (simp add: b dst_addr_smt_def)
  ultimately show ?thesis by blast
qed

end
