(* ===== verification/Small_Bank.thy ===== *)
theory Small_Bank
  imports Sample_Device
begin

text \<open>
  The transaction server \<open>flexio/dpa_small_bank/device/dpa_small_bank_server_device.c\<close> and the messages of
  \<open>common/dpa_small_bank_common.h\<close>.  Two tables of accounts, savings and checking, lie in memory, each
  account with a lock; a request reads balances, tries to take up to four locks, or writes
  balances and releases locks.  The request arrives in an Ethernet frame that is answered in
  place.

  The locks come from the DPA runtime library and are the parameter \<open>sp\<close>.  A response is a local
  structure that is copied over the request; the bytes of it that the code does not set are
  indeterminate and come from the parameter \<open>junk\<close>.
\<close>

subsection \<open>The lock library\<close>

record spinlock =
  spin_init :: "ptr \<Rightarrow> memory \<Rightarrow> memory"
  spin_trylock :: "ptr \<Rightarrow> memory \<Rightarrow> u32 \<times> memory"
  spin_unlock :: "ptr \<Rightarrow> memory \<Rightarrow> memory"

text \<open>
  Documented behaviour: \<open>held a m\<close> says whether the lock at \<open>a\<close> is taken.  A lock is at most 16
  bytes, initialising and unlocking make it free, \<open>spin_trylock\<close> returns 0 and takes a free lock,
  and returns another value and changes nothing when it is taken.
\<close>

definition spin_ok :: "spinlock \<Rightarrow> (ptr \<Rightarrow> memory \<Rightarrow> bool) \<Rightarrow> bool" where
  "spin_ok sp held \<longleftrightarrow>
     (\<forall>a m. \<not> held a (spin_init sp a m) \<and> \<not> held a (spin_unlock sp a m)) \<and>
     (\<forall>a m. held a m \<longrightarrow> fst (spin_trylock sp a m) \<noteq> 0 \<and> snd (spin_trylock sp a m) = m) \<and>
     (\<forall>a m. \<not> held a m \<longrightarrow> fst (spin_trylock sp a m) = 0 \<and> held a (snd (spin_trylock sp a m))) \<and>
     (\<forall>a m x. \<not> inside x a 16 \<longrightarrow> spin_init sp a m x = m x \<and> spin_unlock sp a m x = m x \<and>
        snd (spin_trylock sp a m) x = m x) \<and>
     (\<forall>a m m'. (\<forall>i < 16. m (a + of_nat i) = m' (a + of_nat i)) \<longrightarrow> held a m = held a m')"

subsection \<open>Messages\<close>

abbreviation RPC_PING :: u8 where "RPC_PING \<equiv> 0"
abbreviation RPC_GET_DATA :: u8 where "RPC_GET_DATA \<equiv> 1"
abbreviation RPC_GET_LOCK :: u8 where "RPC_GET_LOCK \<equiv> 2"
abbreviation RPC_FINISH :: u8 where "RPC_FINISH \<equiv> 3"

abbreviation NUM_ACCOUNTS :: nat where "NUM_ACCOUNTS \<equiv> 1000000"

text \<open>The requests, with the four per-account flags as a list in the order of the structure.\<close>

record GetDataReq =
  gd_req_number :: u32
  gd_user1_id :: u64
  gd_user2_id :: u64
  gd_flags :: "u8 list"

definition load_GetDataReq :: "memory \<Rightarrow> ptr \<Rightarrow> GetDataReq" where
  "load_GetDataReq m q = \<lparr>gd_req_number = load32 m (q + 4), gd_user1_id = load64 m (q + 8),
     gd_user2_id = load64 m (q + 16), gd_flags = [m (q + 24), m (q + 25), m (q + 26), m (q + 27)]\<rparr>"

text \<open>Writing a response: indeterminate bytes, then the type, the request number and the status.\<close>

definition put_resp :: "(nat \<Rightarrow> u8) \<Rightarrow> nat \<Rightarrow> u8 \<Rightarrow> u32 \<Rightarrow> ptr \<Rightarrow> memory \<Rightarrow> memory" where
  "put_resp junk sz typ req_number q m =
     (let m = store_bytes m q (map junk [0..<sz]);
          m = m(q := typ);
          m = store32 m (q + 4) req_number
      in store32 m (q + 8) 0)"

subsection \<open>Accounts\<close>

text \<open>
  \<open>struct Savings\<close> and \<open>struct Checking\<close>: number, balance and lock, 32 bytes.
\<close>

record bank_tables =
  savings_global :: ptr
  checking_global :: ptr

definition savings_at :: "bank_tables \<Rightarrow> u64 \<Rightarrow> ptr" where
  "savings_at g i = savings_global g + 32 * (i * 1)"

definition checking_at :: "bank_tables \<Rightarrow> u64 \<Rightarrow> ptr" where
  "checking_at g i = checking_global g + 32 * (i * 1)"

definition get_balance :: "memory \<Rightarrow> ptr \<Rightarrow> u64" where
  "get_balance m a = load64 m (a + 8)"

definition set_balance :: "ptr \<Rightarrow> u64 \<Rightarrow> memory \<Rightarrow> memory" where
  "set_balance a v m = store64 m (a + 8) v"

definition mutex :: "ptr \<Rightarrow> ptr" where "mutex a = a + 16"

definition initial_balance :: u64 where "initial_balance = (2 ^ 64 - 1) div 2"

fun init_accounts :: "spinlock \<Rightarrow> ptr \<Rightarrow> nat \<Rightarrow> nat \<Rightarrow> memory \<Rightarrow> memory" where
  "init_accounts sp base i 0 m = m"
| "init_accounts sp base i (Suc n) m =
     (let a = base + 32 * of_nat (i * 1);
          m = store64 m a (of_nat i);
          m = set_balance a initial_balance m;
          m = spin_init sp (mutex a) m
      in init_accounts sp base (Suc i) n m)"

definition init_saving_and_checking :: "spinlock \<Rightarrow> ptr \<Rightarrow> memory \<Rightarrow> memory \<times> bank_tables" where
  "init_saving_and_checking sp global_addr_ptr m =
     (let sav = global_addr_ptr;
          m = init_accounts sp sav 0 NUM_ACCOUNTS m;
          chk = sav + 32 * of_nat NUM_ACCOUNTS;
          m = init_accounts sp chk 0 NUM_ACCOUNTS m
      in (m, \<lparr>savings_global = sav, checking_global = chk\<rparr>))"

subsection \<open>Contexts and initialisation\<close>

text \<open>\<open>process_packet\<close> reads a field \<open>thread\<close> that the structure in the source does not declare.\<close>

record bank_ctx = dev_base +
  lkey :: u32
  finish_count :: u32
  abort_count :: u32
  thread :: u32

definition init_cq_bank :: "app_transfer_cq \<Rightarrow> cq_ctx_t \<Rightarrow> cq_ctx_t" where
  "init_cq_bank = init_cq_at 7"

definition init_rq_bank :: "app_transfer_wq \<Rightarrow> rq_ctx_t \<Rightarrow> rq_ctx_t" where
  "init_rq_bank = init_rq_at 7"

definition init_sq_bank :: "flexio \<Rightarrow> app_transfer_wq \<Rightarrow> sq_ctx_t \<Rightarrow> sq_ctx_t" where
  "init_sq_bank fx = init_sq_at fx 7"

definition init_ctx_bank :: "flexio \<Rightarrow> queue_config_data \<Rightarrow> dpa \<times> bank_ctx \<Rightarrow> dpa \<times> bank_ctx" where
  "init_ctx_bank fx shared_data = (\<lambda>(d, c).
     let c = c\<lparr>lkey := wqd_mkey_id (sq_data shared_data),
               rqcq_ctx := init_cq_bank (rq_cq_data shared_data) (rqcq_ctx c),
               rq_ctx := init_rq_bank (rq_data shared_data) (rq_ctx c),
               sqcq_ctx := init_cq_bank (sq_cq_data shared_data) (sqcq_ctx c),
               sq_ctx := init_sq_bank fx (sq_data shared_data) (sq_ctx c)\<rparr>;
         (d, sq) = init_send_sq fx (sq_ctx c) (ucast (LOG2VALUE 7)) (lkey c) d
     in (d, c\<lparr>sq_ctx := sq,
              dt_ctx := (dt_ctx c)\<lparr>sq_tx_buff := wqd_daddr (sq_data shared_data),
                                  tx_buff_idx := 0, data_idx_mask := ring_mask 7\<rparr>,
              is_initalized := 1\<rparr>))"

definition dpa_small_bank_server_device_init ::
  "spinlock \<Rightarrow> flexio \<Rightarrow> queue_config_data \<Rightarrow> dpa \<times> bank_tables \<times> bank_ctx list \<Rightarrow>
   u64 \<times> dpa \<times> bank_tables \<times> bank_ctx list" where
  "dpa_small_bank_server_device_init sp fx shared_data = (\<lambda>(d, g, dev_ctxs).
     let i = unat (thread_index shared_data) in
     if \<not> i < 190 then (- 1, d, g, dev_ctxs)
     else
       let (d, g) = (if thread_index shared_data = 0
                     then let (m, g) = init_saving_and_checking sp (new_buffer_addr shared_data) (mem d)
                          in (d\<lparr>mem := m\<rparr>, g)
                     else (d, g));
           (d, c) = init_ctx_bank fx shared_data (d, dev_ctxs ! i)
       in (0, d, g, dev_ctxs[i := c]))"

subsection \<open>The four requests\<close>

definition rpc_ping :: "(nat \<Rightarrow> u8) \<Rightarrow> ptr \<Rightarrow> memory \<Rightarrow> memory \<times> u32" where
  "rpc_ping junk q m = (put_resp junk 24 RPC_PING (load32 m (q + 4)) q m, 14 + 24)"

definition rpc_get_data :: "bank_tables \<Rightarrow> (nat \<Rightarrow> u8) \<Rightarrow> ptr \<Rightarrow> memory \<Rightarrow> memory \<times> u32" where
  "rpc_get_data g junk q m =
     (let req = load_GetDataReq m q;
          user1_id = gd_user1_id req; user2_id = gd_user2_id req;
          m' = put_resp junk 48 RPC_GET_DATA (gd_req_number req) q m;
          m' = (if gd_flags req ! 0 \<noteq> 0 then store64 m' (q + 16) (get_balance m (checking_at g user1_id)) else m');
          m' = (if gd_flags req ! 1 \<noteq> 0 then store64 m' (q + 24) (get_balance m (savings_at g user1_id)) else m');
          m' = (if gd_flags req ! 2 \<noteq> 0 then store64 m' (q + 32) (get_balance m (checking_at g user2_id)) else m');
          m' = (if gd_flags req ! 3 \<noteq> 0 then store64 m' (q + 40) (get_balance m (savings_at g user2_id)) else m')
      in (m', 14 + 48))"

text \<open>
  Taking the locks: for each of the four the flag in the request, the lock and its bit in
  \<open>lock_flag\<close>.  \<open>lock_flag\<close> is overwritten by each \<open>spin_trylock\<close>.
\<close>

definition lock_step :: "spinlock \<Rightarrow> ptr \<Rightarrow> u32 \<times> bool \<times> memory \<Rightarrow> nat \<times> ptr \<times> nat \<Rightarrow> u32 \<times> bool \<times> memory" where
  "lock_step sp q = (\<lambda>(lock_flag, lock_failed, m) (off, a, k).
     if \<not> lock_failed \<and> m (q + of_nat off) \<noteq> 0
     then let (lock_flag, m) = spin_trylock sp a m
          in if lock_flag \<noteq> 0 then (lock_flag, True, m) else (lock_flag + push_bit k 1, False, m)
     else (lock_flag, lock_failed, m))"

definition unlock_step :: "spinlock \<Rightarrow> u32 \<Rightarrow> memory \<Rightarrow> nat \<times> ptr \<times> nat \<Rightarrow> memory" where
  "unlock_step sp lock_flag m = (\<lambda>(off, a, k).
     if lock_flag AND push_bit k 1 \<noteq> 0 then spin_unlock sp a m else m)"

definition lock_list :: "bank_tables \<Rightarrow> u64 \<Rightarrow> u64 \<Rightarrow> (nat \<times> ptr \<times> nat) list" where
  "lock_list g user1_id user2_id =
     [(24, mutex (checking_at g user1_id), 0), (25, mutex (savings_at g user1_id), 1),
      (26, mutex (checking_at g user2_id), 2), (27, mutex (savings_at g user2_id), 3)]"

definition rpc_get_lock ::
  "spinlock \<Rightarrow> bank_tables \<Rightarrow> (nat \<Rightarrow> u8) \<Rightarrow> ptr \<Rightarrow> memory \<Rightarrow> memory \<times> u32 \<times> bool" where
  "rpc_get_lock sp g junk q m =
     (let req_number = load32 m (q + 4);
          locks = lock_list g (load64 m (q + 8)) (load64 m (q + 16));
          (lock_flag, lock_failed, m) = foldl (lock_step sp q) (0, False, m) locks;
          m = (if lock_failed then foldl (unlock_step sp lock_flag) m locks else m);
          m = put_resp junk 16 RPC_GET_LOCK req_number q m;
          m = m(q + 12 := (if lock_failed then 0 else 1))
      in (m, 14 + 16, lock_failed))"

text \<open>Writing balances (user 2's savings are commented out in the source) and releasing locks.\<close>

definition rpc_finish :: "spinlock \<Rightarrow> bank_tables \<Rightarrow> (nat \<Rightarrow> u8) \<Rightarrow> ptr \<Rightarrow> memory \<Rightarrow> memory \<times> u32" where
  "rpc_finish sp g junk q m =
     (let req_number = load32 m (q + 4);
          user1_id = load64 m (q + 8); user2_id = load64 m (q + 16);
          m = (if m (q + 56) \<noteq> 0 then set_balance (checking_at g user1_id) (load64 m (q + 24)) m else m);
          m = (if m (q + 57) \<noteq> 0 then set_balance (savings_at g user1_id) (load64 m (q + 32)) m else m);
          m = (if m (q + 58) \<noteq> 0 then set_balance (checking_at g user2_id) (load64 m (q + 40)) m else m);
          m = (if m (q + 60) \<noteq> 0 then spin_unlock sp (mutex (checking_at g user1_id)) m else m);
          m = (if m (q + 61) \<noteq> 0 then spin_unlock sp (mutex (savings_at g user1_id)) m else m);
          m = (if m (q + 62) \<noteq> 0 then spin_unlock sp (mutex (checking_at g user2_id)) m else m);
          m = (if m (q + 63) \<noteq> 0 then spin_unlock sp (mutex (savings_at g user2_id)) m else m);
          m = put_resp junk 16 RPC_FINISH req_number q m;
          m = m(q + 12 := 1)
      in (m, 14 + 16))"

definition count_finish :: "bank_ctx \<Rightarrow> bank_ctx" where
  "count_finish c =
     (let c = c\<lparr>finish_count := finish_count c + 1\<rparr>
      in if finish_count c = 1000000 \<and> thread c \<noteq> 0 then c\<lparr>finish_count := 0, abort_count := 0\<rparr> else c)"

definition bank_dispatch ::
  "spinlock \<Rightarrow> bank_tables \<Rightarrow> (nat \<Rightarrow> u8) \<Rightarrow> ptr \<Rightarrow> memory \<times> u32 \<times> bank_ctx \<Rightarrow> memory \<times> u32 \<times> bank_ctx" where
  "bank_dispatch sp g junk buf = (\<lambda>(m, data_sz, c).
     let q = buf + 14; typ = m q in
     if typ = RPC_PING then let (m, n) = rpc_ping junk q m in (m, n, c)
     else if typ = RPC_GET_DATA then let (m, n) = rpc_get_data g junk q m in (m, n, c)
     else if typ = RPC_GET_LOCK then
       let (m, n, lock_failed) = rpc_get_lock sp g junk q m
       in (m, n, if lock_failed then c\<lparr>abort_count := abort_count c + 1\<rparr> else c)
     else if typ = RPC_FINISH then let (m, n) = rpc_finish sp g junk q m in (m, n, count_finish c)
     else (m, data_sz, c))"

definition process_packet_bank ::
  "spinlock \<Rightarrow> bank_tables \<Rightarrow> (nat \<Rightarrow> u8) \<Rightarrow> flexio \<Rightarrow> dpa \<times> bank_ctx \<Rightarrow> dpa \<times> bank_ctx" where
  "process_packet_bank sp g junk fx = (\<lambda>(d, c).
     let (buf, data_sz) = receive_packet fx (mem d) (rqcq_ctx c) (rq_ctx c);
         (m, data_sz, c) = bank_dispatch sp g junk buf (swap_mac (mem d) buf, data_sz, c);
         d = d\<lparr>mem := m\<rparr>;
         (d, sq) = prepare_send_packet fx (sq_ctx c) buf data_sz d;
         (d, sq) = finish_send_packet sq d
     in (d, c\<lparr>sq_ctx := sq\<rparr>))"

subsection \<open>The event handler\<close>

definition iter_bank ::
  "spinlock \<Rightarrow> bank_tables \<Rightarrow> (nat \<Rightarrow> u8) \<Rightarrow> flexio \<Rightarrow> dpa \<times> bank_ctx \<Rightarrow> (dpa \<times> bank_ctx) option" where
  "iter_bank sp g junk fx s =
     (let (d, c) = process_packet_bank sp g junk fx s;
          d = step_rq fx (rq_ctx c) d;
          (d, cq) = step_cq fx (rqcq_ctx c) d
      in Some (d, c\<lparr>rqcq_ctx := cq\<rparr>))"

definition dpa_small_bank_server_device_event_handler ::
  "flexio \<Rightarrow> u64 \<Rightarrow> dpa \<times> bank_ctx list \<Rightarrow> bank_ctx outcome option" where
  "dpa_small_bank_server_device_event_handler fx index = (\<lambda>(d, dev_ctxs).
     if \<not> unat index < length dev_ctxs then None
     else
       let c = dev_ctxs ! unat index; dtctx = snd (get_thread_ctx fx) in
       if is_initalized c = 0 then Some (Exited (emit Reschedule d) c)
       else if dtctx \<noteq> 0 then Some (Polling d c) else Some (Exited d c))"

subsection \<open>Lemmas\<close>

lemma bank_dispatch_ctx [simp]:
  "rqcq_ctx (snd (snd (bank_dispatch sp g junk buf (m, n, c)))) = rqcq_ctx c"
  "rq_ctx (snd (snd (bank_dispatch sp g junk buf (m, n, c)))) = rq_ctx c"
  "sq_ctx (snd (snd (bank_dispatch sp g junk buf (m, n, c)))) = sq_ctx c"
  by (simp_all add: bank_dispatch_def count_finish_def Let_def case_prod_beta)

interpretation bank_rx: reflecting_loop "iter_bank sp g junk" rqcq_ctx sq_ctx for sp g junk
  by unfold_locales
    (auto simp: iter_bank_def process_packet_bank_def case_prod_beta Let_def send_simps db_ordered_emit)

subsection \<open>Lemmas on the tables\<close>

lemma spin_facts:
  assumes "spin_ok sp held"
  shows "\<not> held a (spin_init sp a m)" "\<not> held a (spin_unlock sp a m)"
    "held a m \<Longrightarrow> fst (spin_trylock sp a m) \<noteq> 0" "held a m \<Longrightarrow> snd (spin_trylock sp a m) = m"
    "\<not> held a m \<Longrightarrow> fst (spin_trylock sp a m) = 0" "\<not> held a m \<Longrightarrow> held a (snd (spin_trylock sp a m))"
    "\<not> inside x a 16 \<Longrightarrow> spin_init sp a m x = m x" "\<not> inside x a 16 \<Longrightarrow> spin_unlock sp a m x = m x"
    "\<not> inside x a 16 \<Longrightarrow> snd (spin_trylock sp a m) x = m x"
  using assms by (simp_all add: spin_ok_def)

lemma held_cong:
  "spin_ok sp held \<Longrightarrow> (\<And>i. i < 16 \<Longrightarrow> m (a + of_nat i) = m' (a + of_nat i)) \<Longrightarrow> held a m = held a m'"
  unfolding spin_ok_def by blast

text \<open>Number, balance and lock state of an account.\<close>

definition acc_read :: "(ptr \<Rightarrow> memory \<Rightarrow> bool) \<Rightarrow> ptr \<Rightarrow> memory \<Rightarrow> u64 \<times> u64 \<times> bool" where
  "acc_read held a m = (load64 m a, get_balance m a, held (mutex a) m)"

definition acc_wr :: "spinlock \<Rightarrow> ptr \<Rightarrow> nat \<Rightarrow> memory \<Rightarrow> memory" where
  "acc_wr sp base i m =
     (let a = base + of_nat (32 * i)
      in spin_init sp (mutex a) (set_balance a initial_balance (store64 m a (of_nat i))))"

lemma init_accounts_fold: "init_accounts sp base i n m = fold (acc_wr sp base) [i..<i + n] m"
  by (induction n arbitrary: i m) (simp_all add: upt_conv_Cons acc_wr_def Let_def del: upt_Suc)

lemma acc_wr_fill: "spin_ok sp held \<Longrightarrow> table_fill (acc_wr sp base) base 32"
proof
  fix x i and m :: memory
  assume sp: "spin_ok sp held" and x: "\<not> inside x (base + of_nat (32 * i)) 32"
  then show "acc_wr sp base i m x = m x"
    using outside_sub[OF x, of 16 16] outside_sub[OF x, of 8 8] outside_sub[OF x, of 0 8]
    by (simp add: acc_wr_def set_balance_def mutex_def Let_def spin_facts(7)[OF sp] store_le_outside)
qed

lemma acc_read_wr:
  assumes "spin_ok sp held"
  shows "acc_read held (base + of_nat (32 * i)) (acc_wr sp base i m) = (of_nat i, initial_balance, False)"
proof -
  let ?a = "base + of_nat (32 * i)"
  have "\<not> inside (?a + of_nat k) (mutex ?a) 16" if "k < 16" for k
    using that inside_at[of 16 16 "?a + of_nat k" ?a] by (simp add: mutex_def unat_of_nat take_bit_nat_eq_self)
  then have f: "spin_init sp (mutex ?a) m' (?a + of_nat k) = m' (?a + of_nat k)" if "k < 16" for k and m' :: memory
    using that spin_facts(7)[OF assms] by blast
  have "load64 (spin_init sp (mutex ?a) m') ?a = load64 m' ?a" for m' :: memory
    using f by (intro load_le_cong) simp
  moreover have "load64 (spin_init sp (mutex ?a) m') (?a + 8) = load64 m' (?a + 8)" for m' :: memory
    using f[of "8 + _"] by (intro load_le_cong) (simp add: add.assoc)
  moreover have "sep (?a + 8) 8 ?a 8" using sep_offs[of 0 8 8 8 ?a] by (simp add: sep_sym)
  ultimately show ?thesis
    using spin_facts(1)[OF assms]
    by (simp add: acc_read_def acc_wr_def get_balance_def set_balance_def Let_def mem_simps)
qed

lemma acc_read_cong:
  assumes "spin_ok sp held" "\<And>k. k < 32 \<Longrightarrow> m (a + of_nat k) = m' (a + of_nat k)"
  shows "acc_read held a m = acc_read held a m'"
proof -
  have "m (a + of_nat j + of_nat k) = m' (a + of_nat j + of_nat k)" if "j + k < 32" for j k
    using assms(2)[OF that] by (simp add: add.assoc)
  from this[of 8] this[of 16] assms(2) show ?thesis
    unfolding acc_read_def get_balance_def mutex_def
    by (simp, intro conjI load_le_cong held_cong[OF assms(1)]) simp_all
qed

lemma init_accounts_read:
  assumes "spin_ok sp held" "i < n" "32 * n \<le> 2 ^ 64"
  shows "acc_read held (base + of_nat (32 * i)) (init_accounts sp base 0 n m) = (of_nat i, initial_balance, False)"
proof -
  have "acc_read held (base + of_nat (32 * i)) (fold (acc_wr sp base) [0..<n] m)
    = acc_read held (base + of_nat (32 * i)) (acc_wr sp base i (fold (acc_wr sp base) [0..<i] m))"
    using assms(2,3)
    by (intro table_fill.fill_read[OF acc_wr_fill[OF assms(1)], where rd = "acc_read held (base + of_nat (32 * i))"]
        acc_read_cong[OF assms(1)]) auto
  then show ?thesis by (simp only: init_accounts_fold acc_read_wr[OF assms(1)] add_0)
qed

lemma init_accounts_beyond:
  assumes "spin_ok sp held" "32 * n \<le> 2 ^ 64" "\<not> inside x base (32 * n)"
  shows "init_accounts sp base 0 n m x = m x"
  using table_fill.fill_beyond[OF acc_wr_fill[OF assms(1)] assms(2,3)] by (simp add: init_accounts_fold)

subsection \<open>Lemmas on locking\<close>

lemma lock_steps_free:
  assumes "spin_ok sp held"
    and "\<And>off a k. (off, a, k) \<in> set xs \<Longrightarrow> (m (q + of_nat off) \<noteq> 0) = want off"
    and "\<And>off a k off' a' k'. (off, a, k) \<in> set xs \<Longrightarrow> (off', a', k') \<in> set xs \<Longrightarrow> \<not> inside (q + of_nat off) a' 16"
    and "\<And>off a k. (off, a, k) \<in> set xs \<Longrightarrow> want off \<Longrightarrow> \<not> held a m"
    and "sorted_wrt (\<lambda>(off, a, k) (off', a', k'). want off \<longrightarrow> want off' \<longrightarrow> sep a 16 a' 16) xs"
  shows "\<exists>fl' m'. foldl (lock_step sp q) (fl, False, m) xs = (fl', False, m') \<and>
     (\<forall>(off, a, k) \<in> set xs. want off \<longrightarrow> held a m') \<and>
     (\<forall>x. (\<forall>(off, a, k) \<in> set xs. want off \<longrightarrow> \<not> inside x a 16) \<longrightarrow> m' x = m x)"
  using assms(2-5)
proof (induction xs arbitrary: fl m)
  case (Cons e xs)
  obtain off a k where e: "e = (off, a, k)" by (rule prod_cases3)
  define m1 where "m1 = (if want off then snd (spin_trylock sp a m) else m)"
  have m1: "m1 x = m x" if "want off \<longrightarrow> \<not> inside x a 16" for x
    using that spin_facts(9)[OF assms(1)] by (simp add: m1_def)
  have st: "\<exists>fl1. lock_step sp q (fl, False, m) e = (fl1, False, m1)"
    using Cons.prems(1,3)[of off a k] spin_facts(5)[OF assms(1), of a m]
    by (simp add: e lock_step_def m1_def case_prod_beta Let_def)
  have w: "(m1 (q + of_nat off') \<noteq> 0) = want off'" if "(off', a', k') \<in> set xs" for off' a' k'
    using Cons.prems(1)[of off' a' k'] Cons.prems(2)[of off' a' k' off a k] m1 that by (simp add: e)
  have fr: "\<not> held a' m1" if "(off', a', k') \<in> set xs" "want off'" for off' a' k'
  proof -
    have "sep a 16 a' 16" if "want off" using Cons.prems(4) \<open>(off', a', k') \<in> set xs\<close> \<open>want off'\<close> that by (auto simp: e)
    then have "held a' m1 = held a' m" using sep_off[of a 16 a' 16] by (intro held_cong[OF assms(1)] m1) auto
    with Cons.prems(3)[of off' a' k'] that show ?thesis by simp
  qed
  obtain fl1 where fl1: "lock_step sp q (fl, False, m) e = (fl1, False, m1)" using st by blast
  obtain fl' m' where ih: "foldl (lock_step sp q) (fl1, False, m1) xs = (fl', False, m')"
    "\<forall>(off, a, k) \<in> set xs. want off \<longrightarrow> held a m'"
    "\<And>x. (\<forall>(off, a, k) \<in> set xs. want off \<longrightarrow> \<not> inside x a 16) \<Longrightarrow> m' x = m1 x"
    using Cons.IH[of m1 fl1] w fr Cons.prems(2,4) by (simp add: e) blast
  have "held a m'" if "want off"
  proof -
    have "\<not> inside (a + of_nat i) a' 16" if "(off', a', k') \<in> set xs" "want off'" "i < 16" for off' a' k' i
      using Cons.prems(4) \<open>want off\<close> that sep_off[of a' 16 a 16 i] by (auto simp: e sep_sym)
    then have "held a m' = held a m1" by (intro held_cong[OF assms(1)] ih(3)) blast
    with that Cons.prems(3)[of off a k] spin_facts(6)[OF assms(1)] show ?thesis by (simp add: e m1_def)
  qed
  then show ?case using ih m1 fl1 by (auto simp: e)
qed simp

lemma put_resp_outside: "n \<le> 2 ^ 64 \<Longrightarrow> 12 \<le> n \<Longrightarrow> \<not> inside x q n \<Longrightarrow> put_resp junk n typ req q m x = m x"
  using outside_sub[of x q n 4 4] outside_sub[of x q n 8 4] outside_sub[of x q n 0 1]
  by (auto simp: put_resp_def Let_def store_le_outside store_bytes_apply inside_def)

lemma lock_list_offsets: "(off, a, k) \<in> set (lock_list g u1 u2) \<Longrightarrow> 24 \<le> off \<and> off < 28"
  by (auto simp: lock_list_def)

subsection \<open>A concrete lock\<close>

definition sample_spin :: spinlock where
  "sample_spin = \<lparr>spin_init = (\<lambda>a m. m(a := 0)),
     spin_trylock = (\<lambda>a m. if m a = 0 then (0, m(a := 1)) else (1, m)), spin_unlock = (\<lambda>a m. m(a := 0))\<rparr>"

definition sample_held :: "ptr \<Rightarrow> memory \<Rightarrow> bool" where
  "sample_held a m \<longleftrightarrow> m a \<noteq> 0"

lemma sample_spin_ok: "spin_ok sample_spin sample_held"
proof -
  have "m a = m' a" if "\<forall>i < 16. m (a + of_nat i) = m' (a + of_nat i)" for a and m m' :: memory
    using that[rule_format, of 0] by simp
  then have "\<forall>a m m'. (\<forall>i < 16. m (a + of_nat i) = m' (a + of_nat i)) \<longrightarrow> sample_held a m = sample_held a m'"
    by (metis sample_held_def)
  then show ?thesis by (simp add: spin_ok_def sample_spin_def sample_held_def inside_def)
qed

definition sample_tables :: bank_tables where
  "sample_tables = \<lparr>savings_global = 0x100000, checking_global = 0x100000 + 32000000\<rparr>"

definition sample_held_mem :: memory where
  "sample_held_mem a = (if a = 0x3018 then 2 else if a = 0x100000 + 32000000 + 16 then 1 else 0)"

definition sample_lock_mem :: memory where
  "sample_lock_mem a = (if a = 0x301b then 2 else if a = 0x3010 then 5 else 0)"

subsection \<open>Properties\<close>

text \<open>
  the tables.  After \<open>init_saving_and_checking\<close> every one of the million savings accounts and
  the million checking accounts has its number, the initial balance \<open>SIZE_MAX / 2\<close> and a free
  lock; no byte outside the two tables has changed.
\<close>

lemma bank_init_tables:
  assumes "spin_ok sp held" "init_saving_and_checking sp base m = (m', g)" "i < NUM_ACCOUNTS"
  shows "acc_read held (savings_at g (of_nat i)) m' = (of_nat i, 2 ^ 63 - 1, False) \<and>
         acc_read held (checking_at g (of_nat i)) m' = (of_nat i, 2 ^ 63 - 1, False) \<and>
         (\<not> inside x base 64000000 \<longrightarrow> m' x = m x)"
proof -
  let ?n = NUM_ACCOUNTS
  let ?chk = "base + of_nat (32 * ?n)"
  define m1 where "m1 = init_accounts sp base 0 ?n m"
  have r: "m' = init_accounts sp ?chk 0 ?n m1" "savings_global g = base" "checking_global g = ?chk"
    using assms(2) by (auto simp: init_saving_and_checking_def Let_def m1_def)
  have b: "initial_balance = 2 ^ 63 - 1" by (simp add: initial_balance_def)
  have "\<not> inside (base + of_nat (32 * i) + of_nat k) ?chk (32 * ?n)" if "k < 32" for k
    using sep_off[OF sep_offs[of 0 "32 * ?n" "32 * ?n" "32 * ?n" base, unfolded sep_sym[of "base + of_nat 0"]], of "32 * i + k"]
      assms(3) that by (simp add: add.assoc)
  then have "acc_read held (base + of_nat (32 * i)) m' = acc_read held (base + of_nat (32 * i)) m1"
    unfolding r by (intro acc_read_cong[OF assms(1)] init_accounts_beyond[OF assms(1)]) auto
  moreover have "m' x = m x" if "\<not> inside x base 64000000"
    using outside_sub[OF that, of "32 * ?n" "32 * ?n"] outside_sub[OF that, of 0 "32 * ?n"]
      init_accounts_beyond[OF assms(1), of ?n x ?chk m1] init_accounts_beyond[OF assms(1), of ?n x base m]
    by (simp add: r m1_def)
  ultimately show ?thesis
    using init_accounts_read[OF assms(1,3), of base m] init_accounts_read[OF assms(1,3), of ?chk m1]
    by (simp add: savings_at_def checking_at_def r m1_def b)
qed

text \<open>
  C13: taking locks.  If the requested locks are free, and are different locks, \<open>GET_LOCK\<close> succeeds:
  the answer says so, every requested lock is taken, and every lock that was not requested is
  as before.
\<close>

theorem bank_get_lock:
  assumes "spin_ok sp held" "rpc_get_lock sp g junk q m = (m', n, failed)"
    and "locks = lock_list g (load64 m (q + 8)) (load64 m (q + 16))"
    and "\<forall>(off, a, k) \<in> set locks. sep a 16 q 32"
    and "\<forall>(off, a, k) \<in> set locks. m (q + of_nat off) \<noteq> 0 \<longrightarrow> \<not> held a m"
    and "sorted_wrt (\<lambda>(off, a, k) (off', a', k'). m (q + of_nat off) \<noteq> 0 \<longrightarrow> m (q + of_nat off') \<noteq> 0 \<longrightarrow> sep a 16 a' 16) locks"
  shows "\<not> failed \<and> n = 30 \<and> m' q = RPC_GET_LOCK \<and> m' (q + 12) = 1 \<and>
         (\<forall>(off, a, k) \<in> set locks. m (q + of_nat off) \<noteq> 0 \<longrightarrow> held a m') \<and>
         (sep b 16 q 32 \<longrightarrow> (\<forall>(off, a, k) \<in> set locks. m (q + of_nat off) \<noteq> 0 \<longrightarrow> sep a 16 b 16) \<longrightarrow> held b m' = held b m)"
proof -
  have q: "\<not> inside (q + of_nat off) a' 16" if "(off, a, k) \<in> set locks" "(off', a', k') \<in> set locks" for off a k off' a' k'
  proof -
    have "off < 32" using lock_list_offsets[OF that(1)[unfolded assms(3)]] by simp
    moreover have "sep a' 16 q 32" using that(2) assms(4) by fastforce
    ultimately show ?thesis by (intro sep_off) auto
  qed
  obtain fl m1 where l: "foldl (lock_step sp q) (0, False, m) locks = (fl, False, m1)"
    "\<And>off a k. (off, a, k) \<in> set locks \<Longrightarrow> m (q + of_nat off) \<noteq> 0 \<Longrightarrow> held a m1"
    "\<And>x. (\<forall>(off, a, k) \<in> set locks. m (q + of_nat off) \<noteq> 0 \<longrightarrow> \<not> inside x a 16) \<Longrightarrow> m1 x = m x"
    using lock_steps_free[OF assms(1), of locks m q "\<lambda>off. m (q + of_nat off) \<noteq> 0" 0] q assms(5,6) by blast
  define m2 where "m2 = put_resp junk 16 RPC_GET_LOCK (load32 m (q + 4)) q m1"
  have r: "m' = m2(q + 12 := 1)" "n = 30" "\<not> failed"
    using assms(2) l(1) by (auto simp: rpc_get_lock_def assms(3)[symmetric] Let_def m2_def)
  have m': "m' x = m1 x" if "\<not> inside x q 32" for x
    using that outside_sub[OF that, of 0 16] outside_sub[OF that, of 12 1]
    by (auto simp: r m2_def put_resp_outside inside_def)
  have h: "held a m' = held a m1" if "sep a 16 q 32" for a
    using that sep_off[of q 32 a 16] by (intro held_cong[OF assms(1)] m') (simp add: sep_sym)
  have "held b m1 = held b m" if "\<forall>(off, a, k) \<in> set locks. m (q + of_nat off) \<noteq> 0 \<longrightarrow> sep a 16 b 16"
    using that sep_off[of _ 16 b 16] by (intro held_cong[OF assms(1)] l(3)) fastforce
  moreover have "m' q = RPC_GET_LOCK"
    by (simp add: r m2_def put_resp_def Let_def store_le_outside inside_def)
  ultimately show ?thesis using r l(2) h assms(4) by fastforce
qed

theorem bank_get_lock_witness:
  "let (m', n, failed) = rpc_get_lock sample_spin sample_tables (\<lambda>_. 0) 0x3000 sample_lock_mem in
     \<not> failed \<and> sample_held (mutex (savings_at sample_tables 5)) m'"
proof -
  let ?m = sample_lock_mem and ?q = "0x3000 :: ptr"
  obtain m' n failed where r: "rpc_get_lock sample_spin sample_tables (\<lambda>_. 0) ?q ?m = (m', n, failed)"
    by (rule prod_cases3)
  have u: "load64 ?m (?q + 8) = 0" "load64 ?m (?q + 16) = 5" by code_simp+
  let ?locks = "lock_list sample_tables 0 5"
  have ll: "?locks = [(24, 0x100000 + 32000016, 0), (25, 0x100010, 1), (26, 0x100000 + 32000176, 2), (27, 0x1000b0, 3)]"
    by (simp add: lock_list_def savings_at_def checking_at_def sample_tables_def mutex_def)
  have w: "?m 0x3018 = 0" "?m 0x3019 = 0" "?m 0x301a = 0" "?m 0x301b = 2" "?m 0x1000b0 = 0"
    by (simp_all add: sample_lock_mem_def)
  have "\<forall>(off, a, k) \<in> set ?locks. sep a 16 ?q 32" by (simp add: ll sep_def)
  moreover have "\<forall>(off, a, k) \<in> set ?locks. ?m (?q + of_nat off) \<noteq> 0 \<longrightarrow> \<not> sample_held a ?m"
    by (simp add: ll w sample_held_def)
  moreover have "sorted_wrt (\<lambda>(off, a, k) (off', a', k'). ?m (?q + of_nat off) \<noteq> 0 \<longrightarrow> ?m (?q + of_nat off') \<noteq> 0 \<longrightarrow> sep a 16 a' 16) ?locks"
    by (simp add: ll w)
  ultimately have "\<not> failed \<and> (\<forall>(off, a, k) \<in> set ?locks. ?m (?q + of_nat off) \<noteq> 0 \<longrightarrow> sample_held a m')"
    using bank_get_lock[OF sample_spin_ok r, of ?locks] unfolding u by blast
  then have "\<not> failed \<and> sample_held 0x1000b0 m'" unfolding ll by (simp add: w)
  then show ?thesis
    unfolding Let_def r by (simp add: mutex_def savings_at_def sample_tables_def)
qed

text \<open>
  C36: a refused request.  If the first lock asked for is taken, by another transaction, and
  \<open>spin_trylock\<close> reports that with 1, the request is refused and counted as aborted, but the
  roll-back releases that very lock: \<open>lock_flag\<close> then holds the error code, whose lowest bit
  names the first lock.
\<close>

theorem bank_get_lock_foreign:
  assumes "spin_ok sp held" "rpc_get_lock sp g junk q m = (m', n, failed)"
    and "a = mutex (checking_at g (load64 m (q + 8)))" "m (q + 24) \<noteq> 0" "held a m"
    and "fst (spin_trylock sp a m) = 1" "sep a 16 q 32"
  shows "failed \<and> m' (q + 12) = 0 \<and> \<not> held a m'"
proof -
  let ?locks = "lock_list g (load64 m (q + 8)) (load64 m (q + 16))"
  define xs where "xs = tl ?locks"
  have xs: "?locks = (24, a, 0) # xs" "\<And>off a k. (off, a, k) \<in> set xs \<Longrightarrow> 0 < k \<and> k < 4"
    by (auto simp: lock_list_def xs_def assms(3))
  have st: "lock_step sp q (0, False, m) (24, a, 0) = (1, True, m)"
    using assms(4,6) spin_facts(4)[OF assms(1,5)] by (simp add: lock_step_def case_prod_beta Let_def)
  have "foldl (lock_step sp q) (1, True, m) xs = (1, True, m)"
    by (induction xs) (simp_all add: lock_step_def case_prod_beta)
  moreover have "foldl (unlock_step sp 1) m1 xs = m1" for m1 :: memory
    using xs(2)
  proof (induction xs)
    case (Cons e xs)
    obtain off a' k where e: "e = (off, a', k)" by (rule prod_cases3)
    then have "0 < k" using Cons.prems by auto
    then have "(1 :: u32) AND push_bit k 1 = 0" by (auto intro!: bit_word_eqI simp: bit_simps)
    then have "unlock_step sp 1 m1 e = m1" by (simp add: e unlock_step_def)
    with Cons.IH Cons.prems show ?case by (metis foldl_Cons list.set_intros(2))
  qed simp
  ultimately have "failed" "m' = (put_resp junk 16 RPC_GET_LOCK (load32 m (q + 4)) q (spin_unlock sp a m))(q + 12 := 0)"
    using assms(2) st by (auto simp: rpc_get_lock_def xs(1) Let_def unlock_step_def)
  moreover have "m' x = spin_unlock sp a m x" if "\<not> inside x q 32" for x
    using calculation(2) that outside_sub[OF that, of 0 16] outside_sub[OF that, of 12 1]
    by (auto simp: put_resp_outside inside_def)
  then have "held a m' = held a (spin_unlock sp a m)"
    using sep_off[of q 32 a 16] assms(7) by (intro held_cong[OF assms(1)]) (simp add: sep_sym)
  ultimately show ?thesis using spin_facts(2)[OF assms(1)] by simp
qed

theorem bank_get_lock_foreign_witness:
  "sample_held (mutex (checking_at sample_tables 0)) sample_held_mem \<and>
   \<not> sample_held (mutex (checking_at sample_tables 0))
       (fst (rpc_get_lock sample_spin sample_tables (\<lambda>_. 0) 0x3000 sample_held_mem))"
proof -
  obtain m' n failed where r: "rpc_get_lock sample_spin sample_tables (\<lambda>_. 0) 0x3000 sample_held_mem = (m', n, failed)"
    by (rule prod_cases3)
  have u: "load64 sample_held_mem 0x3008 = 0" by code_simp
  have a: "mutex (checking_at sample_tables 0) = 0x100000 + 32000016"
    by (simp add: mutex_def checking_at_def sample_tables_def)
  have w: "sample_held_mem 0x3018 = 2" "sample_held_mem (0x100000 + 32000016) = 1" by (simp_all add: sample_held_mem_def)
  show ?thesis
    using bank_get_lock_foreign[OF sample_spin_ok r] u w
    unfolding r a by (simp add: sample_held_def sample_spin_def sep_def a)
qed

end
