(* ===== verification/Bank_Client.thy ===== *)
theory Bank_Client
  imports Small_Bank
begin

text \<open>
  The transaction client \<open>flexio/dpa_small_bank/device/dpa_small_bank_client_device.c\<close>.  A thread keeps 64
  transactions in flight.  The answer to its ping starts them all, with one doorbell for the
  64 requests; from then on every answer advances one transaction: data, locks, finish, and
  again with new accounts.  The transaction is found from the request number modulo 64.
\<close>

subsection \<open>Contexts\<close>

abbreviation CONCURRENCY :: nat where "CONCURRENCY \<equiv> 64"

abbreviation Amalgamate :: u8 where "Amalgamate \<equiv> 0"
abbreviation Balance :: u8 where "Balance \<equiv> 1"
abbreviation DepositChecking :: u8 where "DepositChecking \<equiv> 2"
abbreviation SendPayment :: u8 where "SendPayment \<equiv> 3"
abbreviation TransactSavings :: u8 where "TransactSavings \<equiv> 4"
abbreviation WriteCheck :: u8 where "WriteCheck \<equiv> 5"
abbreviation WRITE_LOCK :: u8 where "WRITE_LOCK \<equiv> 2"

record Transition =
  user1_id :: u64
  user2_id :: u64
  lock_user1_checking :: u8
  lock_user1_saving :: u8
  lock_user2_checking :: u8
  lock_user2_saving :: u8
  changed_user1_checking :: u8
  changed_user1_saving :: u8
  changed_user2_checking :: u8
  changed_user2_saving :: u8
  req_id :: u32
  transmit_type :: u8
  now_type :: u8
  user1_checking_balance :: u64
  user1_saving_balance :: u64
  user2_checking_balance :: u64
  user2_saving_balance :: u64

record client_ctx = dev_base +
  lkey :: u32
  packets_count :: u32
  ctx_req_id :: u64
  transitions :: "Transition list"

definition CLIENT_ADDR :: "u8 list" where "CLIENT_ADDR = [0x02, 0x01, 0x01, 0x01, 0x01, 0x01]"
definition SERVER_ADDR :: "u8 list" where "SERVER_ADDR = [0x01, 0x01, 0x01, 0x01, 0x01, 0x01]"

definition init_cq_client :: "app_transfer_cq \<Rightarrow> cq_ctx_t \<Rightarrow> cq_ctx_t" where
  "init_cq_client = init_cq_at 7"

definition init_rq_client :: "app_transfer_wq \<Rightarrow> rq_ctx_t \<Rightarrow> rq_ctx_t" where
  "init_rq_client = init_rq_at 7"

definition init_sq_client :: "flexio \<Rightarrow> app_transfer_wq \<Rightarrow> sq_ctx_t \<Rightarrow> sq_ctx_t" where
  "init_sq_client fx = init_sq_at fx 7"

definition init_ctx_client :: "flexio \<Rightarrow> queue_config_data \<Rightarrow> dpa \<times> client_ctx \<Rightarrow> dpa \<times> client_ctx" where
  "init_ctx_client fx shared_data = (\<lambda>(d, c).
     let c = c\<lparr>lkey := wqd_mkey_id (sq_data shared_data),
               rqcq_ctx := init_cq_client (rq_cq_data shared_data) (rqcq_ctx c),
               rq_ctx := init_rq_client (rq_data shared_data) (rq_ctx c),
               sqcq_ctx := init_cq_client (sq_cq_data shared_data) (sqcq_ctx c),
               sq_ctx := init_sq_client fx (sq_data shared_data) (sq_ctx c)\<rparr>;
         (d, sq) = init_send_sq fx (sq_ctx c) (ucast (LOG2VALUE 7)) (lkey c) d
     in (d, c\<lparr>sq_ctx := sq,
              dt_ctx := (dt_ctx c)\<lparr>sq_tx_buff := wqd_daddr (sq_data shared_data),
                                  tx_buff_idx := 0, data_idx_mask := ring_mask 7\<rparr>,
              is_initalized := 1\<rparr>))"

definition dpa_small_bank_client_device_init ::
  "flexio \<Rightarrow> queue_config_data \<Rightarrow> dpa \<times> client_ctx list \<Rightarrow> u64 \<times> dpa \<times> client_ctx list" where
  "dpa_small_bank_client_device_init fx shared_data = (\<lambda>(d, dev_ctxs).
     let i = unat (thread_index shared_data) in
     if \<not> i < 190 then (- 1, d, dev_ctxs)
     else let (d, c) = init_ctx_client fx shared_data (d, dev_ctxs ! i) in (0, d, dev_ctxs[i := c]))"

subsection \<open>The ping call\<close>

definition prepare_packet_client :: "flexio \<Rightarrow> nat \<Rightarrow> ptr \<Rightarrow> memory \<Rightarrow> memory" where
  "prepare_packet_client fx ti p m =
     (let m = store_bytes m (p + 6) CLIENT_ADDR;
          m = m(p + 6 + 5 := m (p + 6 + 5) + of_nat ti);
          m = store_bytes m p SERVER_ADDR;
          m = m(p + 5 := m (p + 5) + of_nat ti)
      in store16 m (p + 12) (cpu_to_be16 fx 0x0800))"

definition send_ping_packet :: "flexio \<Rightarrow> dpa \<times> client_ctx \<Rightarrow> dpa \<times> client_ctx" where
  "send_ping_packet fx = (\<lambda>(d, c).
     let (buf, dt) = get_next_send_buf (dt_ctx c) 10;
         d = upd_mem (\<lambda>m. m(buf + 14 := RPC_PING)) d;
         (d, sq) = prepare_send_packet fx (sq_ctx c) buf (14 + 16) d;
         (d, sq) = finish_send_packet sq d
     in (d, c\<lparr>dt_ctx := dt, sq_ctx := sq\<rparr>))"

fun fill_entries_client :: "flexio \<Rightarrow> nat \<Rightarrow> nat \<Rightarrow> dpa \<times> client_ctx \<Rightarrow> dpa \<times> client_ctx" where
  "fill_entries_client fx i 0 s = s"
| "fill_entries_client fx i (Suc n) (d, c) =
     (let (buf, dt) = get_next_send_buf (dt_ctx c) 10
      in fill_entries_client fx i n (upd_mem (prepare_packet_client fx i buf) d, c\<lparr>dt_ctx := dt\<rparr>))"

fun ping_packets :: "flexio \<Rightarrow> nat \<Rightarrow> dpa \<times> client_ctx list \<Rightarrow> dpa \<times> client_ctx list" where
  "ping_packets fx i (d, []) = (d, [])"
| "ping_packets fx i (d, c # cs) =
     (let (d, c) = (if is_initalized c = 0 then (d, c)
                    else send_ping_packet fx (fill_entries_client fx i (unat (LOG2VALUE 7)) (d, c)));
          (d, cs) = ping_packets fx (Suc i) (d, cs)
      in (d, c # cs))"

definition dpa_small_bank_client_device_ping_packet ::
  "flexio \<Rightarrow> dpa \<times> client_ctx list \<Rightarrow> u64 \<times> dpa \<times> client_ctx list" where
  "dpa_small_bank_client_device_ping_packet fx s = (0, ping_packets fx 0 s)"

definition dpa_small_bank_client_device_stop :: "u8 \<Rightarrow> u64 \<times> u8" where
  "dpa_small_bank_client_device_stop is_stop = (0, 1)"

subsection \<open>Transactions\<close>

text \<open>Two accounts drawn from the instruction and cycle counters, in this order.\<close>

definition draw_user1 :: "flexio \<Rightarrow> dpa \<times> Transition \<Rightarrow> dpa \<times> Transition" where
  "draw_user1 fx = (\<lambda>(d, t). let (r, d) = read_inst_ret fx d in (d, t\<lparr>user1_id := r mod 1000000\<rparr>))"

definition draw_user2 :: "flexio \<Rightarrow> dpa \<times> Transition \<Rightarrow> dpa \<times> Transition" where
  "draw_user2 fx = (\<lambda>(d, t). let (r, d) = read_cycles fx d in (d, t\<lparr>user2_id := r mod 1000000\<rparr>))"

definition init_transition :: "flexio \<Rightarrow> nat \<Rightarrow> dpa \<times> Transition \<Rightarrow> dpa \<times> Transition" where
  "init_transition fx index = (\<lambda>(d, t).
     let t = t\<lparr>user1_id := 0, user2_id := 0, lock_user1_checking := 0, lock_user1_saving := 0,
               lock_user2_checking := 0, lock_user2_saving := 0, req_id := of_nat index\<rparr> in
     if index * 100 < 15 * CONCURRENCY then
       let (d, t) = draw_user2 fx (draw_user1 fx (d, t\<lparr>transmit_type := Amalgamate\<rparr>))
       in (d, t\<lparr>lock_user1_checking := WRITE_LOCK, lock_user2_saving := WRITE_LOCK,
                changed_user1_checking := 1, changed_user2_saving := 1\<rparr>)
     else if index * 100 < 30 * CONCURRENCY then
       let (d, t) = draw_user1 fx (d, t\<lparr>transmit_type := Balance\<rparr>) in (d, t\<lparr>user2_id := user1_id t\<rparr>)
     else if index * 100 < 45 * CONCURRENCY then
       let (d, t) = draw_user1 fx (d, t\<lparr>transmit_type := DepositChecking\<rparr>)
       in (d, t\<lparr>user2_id := user1_id t, lock_user1_checking := WRITE_LOCK, changed_user1_checking := 1\<rparr>)
     else if index * 100 < 70 * CONCURRENCY then
       let (d, t) = draw_user2 fx (draw_user1 fx (d, t\<lparr>transmit_type := SendPayment\<rparr>))
       in (d, t\<lparr>lock_user1_checking := WRITE_LOCK, lock_user2_checking := WRITE_LOCK,
                changed_user1_checking := 1, changed_user2_checking := 1\<rparr>)
     else if index * 100 < 85 * CONCURRENCY then
       let (d, t) = draw_user1 fx (d, t\<lparr>transmit_type := TransactSavings\<rparr>)
       in (d, t\<lparr>lock_user1_saving := WRITE_LOCK, changed_user1_saving := 1\<rparr>)
     else
       let (d, t) = draw_user1 fx (d, t\<lparr>transmit_type := WriteCheck\<rparr>)
       in (d, t\<lparr>lock_user1_checking := WRITE_LOCK, changed_user1_checking := 1\<rparr>))"

text \<open>The request for data of a transaction, written at \<open>q\<close>.\<close>

definition reload_transition :: "Transition \<Rightarrow> ptr \<Rightarrow> memory \<Rightarrow> memory" where
  "reload_transition t q m =
     (let m = m(q := RPC_GET_DATA);
          m = store32 m (q + 4) (req_id t);
          m = store64 m (q + 8) (user1_id t);
          m = store64 m (q + 16) (user2_id t)
      in m(q + 24 := lock_user1_checking t, q + 25 := lock_user1_saving t,
           q + 26 := lock_user2_checking t, q + 27 := lock_user2_saving t))"

subsection \<open>Answers\<close>

fun init_transitions :: "flexio \<Rightarrow> nat \<Rightarrow> dpa \<times> Transition list \<Rightarrow> dpa \<times> Transition list" where
  "init_transitions fx i (d, []) = (d, [])"
| "init_transitions fx i (d, t # ts) =
     (let (d, t) = init_transition fx i (d, t); (d, ts) = init_transitions fx (Suc i) (d, ts) in (d, t # ts))"

fun send_requests :: "flexio \<Rightarrow> Transition list \<Rightarrow> dpa \<times> dt_ctx_t \<times> sq_ctx_t \<Rightarrow> dpa \<times> dt_ctx_t \<times> sq_ctx_t" where
  "send_requests fx [] s = s"
| "send_requests fx (t # ts) (d, dt, sq) =
     (let (buf, dt) = get_next_send_buf dt 10;
          d = upd_mem (reload_transition t (buf + 14)) d;
          (d, sq) = prepare_send_packet fx sq buf (14 + 32) d
      in send_requests fx ts (d, dt, sq))"

definition answer_ping :: "flexio \<Rightarrow> dpa \<times> client_ctx \<Rightarrow> dpa \<times> client_ctx" where
  "answer_ping fx = (\<lambda>(d, c).
     let (d, ts) = init_transitions fx 0 (d, transitions c);
         (d, dt, sq) = send_requests fx ts (d, dt_ctx c, sq_ctx c);
         (d, sq) = finish_send_packet_batch sq (of_nat CONCURRENCY) d
     in (d, c\<lparr>transitions := ts, dt_ctx := dt, sq_ctx := sq\<rparr>))"

definition answer_get_data :: "flexio \<Rightarrow> ptr \<Rightarrow> dpa \<times> client_ctx \<Rightarrow> dpa \<times> client_ctx" where
  "answer_get_data fx r = (\<lambda>(d, c).
     let req_number = load32 (mem d) (r + 4); i = unat req_number mod CONCURRENCY;
         t = (transitions c ! i)
           \<lparr>user1_checking_balance := load64 (mem d) (r + 16), user1_saving_balance := load64 (mem d) (r + 24),
            user2_checking_balance := load64 (mem d) (r + 32), user2_saving_balance := load64 (mem d) (r + 40)\<rparr>;
         (buf, dt) = get_next_send_buf (dt_ctx c) 10;
         q = buf + 14;
         d = upd_mem (\<lambda>m. m(q := RPC_GET_LOCK)) d;
         d = upd_mem (\<lambda>m. store32 m (q + 4) (load32 m (r + 4))) d;
         d = upd_mem (\<lambda>m. (store64 (store64 m (q + 8) (user1_id t)) (q + 16) (user2_id t))
               (q + 24 := lock_user1_checking t, q + 25 := lock_user1_saving t,
                q + 26 := lock_user2_checking t, q + 27 := lock_user2_saving t)) d;
         (d, sq) = prepare_send_packet fx (sq_ctx c) buf (14 + 32) d;
         (d, sq) = finish_send_packet sq d
     in (d, c\<lparr>transitions := (transitions c)[i := t], dt_ctx := dt, sq_ctx := sq\<rparr>))"

text \<open>New accounts and a new request number for a transaction.\<close>

definition redraw :: "flexio \<Rightarrow> u32 \<Rightarrow> dpa \<times> Transition \<Rightarrow> dpa \<times> Transition" where
  "redraw fx req_number s =
     (let (d, t) = draw_user2 fx (draw_user1 fx s) in (d, t\<lparr>req_id := req_number + of_nat CONCURRENCY\<rparr>))"

text \<open>The finish request; its balances are not written.\<close>

definition finish_request :: "Transition \<Rightarrow> ptr \<Rightarrow> ptr \<Rightarrow> memory \<Rightarrow> memory" where
  "finish_request t r q m =
     (let m = m(q := RPC_FINISH);
          m = store32 m (q + 4) (load32 m (r + 4));
          m = store64 m (q + 8) (user1_id t);
          m = store64 m (q + 16) (user2_id t)
      in m(q + 60 := lock_user1_checking t, q + 61 := lock_user1_saving t,
           q + 62 := lock_user2_checking t, q + 63 := lock_user2_saving t,
           q + 56 := changed_user1_checking t, q + 57 := changed_user1_saving t,
           q + 58 := changed_user2_checking t, q + 59 := changed_user2_saving t))"

definition answer_get_lock :: "flexio \<Rightarrow> ptr \<Rightarrow> dpa \<times> client_ctx \<Rightarrow> dpa \<times> client_ctx" where
  "answer_get_lock fx r = (\<lambda>(d, c).
     let req_number = load32 (mem d) (r + 4); i = unat req_number mod CONCURRENCY;
         t = transitions c ! i;
         (buf, dt) = get_next_send_buf (dt_ctx c) 10;
         q = buf + 14;
         (d, t, len) = (if mem d (r + 12) \<noteq> 0 then (upd_mem (finish_request t r q) d, t, 14 + 64)
                        else let (d, t) = redraw fx req_number (d, t)
                             in (upd_mem (reload_transition t q) d, t, 14 + 32));
         (d, sq) = prepare_send_packet fx (sq_ctx c) buf len d;
         (d, sq) = finish_send_packet sq d
     in (d, c\<lparr>transitions := (transitions c)[i := t], dt_ctx := dt, sq_ctx := sq\<rparr>))"

definition answer_finish :: "flexio \<Rightarrow> ptr \<Rightarrow> dpa \<times> client_ctx \<Rightarrow> dpa \<times> client_ctx" where
  "answer_finish fx r = (\<lambda>(d, c).
     let req_number = load32 (mem d) (r + 4); i = unat req_number mod CONCURRENCY;
         (d, t) = redraw fx req_number (d, transitions c ! i);
         (buf, dt) = get_next_send_buf (dt_ctx c) 10;
         d = upd_mem (reload_transition t (buf + 14)) d;
         (d, sq) = prepare_send_packet fx (sq_ctx c) buf (14 + 32) d;
         (d, sq) = finish_send_packet sq d
     in (d, c\<lparr>transitions := (transitions c)[i := t], dt_ctx := dt, sq_ctx := sq\<rparr>))"

definition process_packet_client :: "flexio \<Rightarrow> dpa \<times> client_ctx \<Rightarrow> dpa \<times> client_ctx" where
  "process_packet_client fx = (\<lambda>(d, c).
     let (buf, data_sz) = receive_packet fx (mem d) (rqcq_ctx c) (rq_ctx c);
         r = buf + 14; typ = mem d r in
     if typ = RPC_PING then answer_ping fx (d, c)
     else if typ = RPC_GET_DATA then answer_get_data fx r (d, c)
     else if typ = RPC_GET_LOCK then answer_get_lock fx r (d, c)
     else if typ = RPC_FINISH then answer_finish fx r (d, c)
     else (d, c))"

definition iter_client :: "flexio \<Rightarrow> dpa \<times> client_ctx \<Rightarrow> (dpa \<times> client_ctx) option" where
  "iter_client fx s =
     (let (d, c) = process_packet_client fx s;
          d = step_rq fx (rq_ctx c) d;
          (d, cq) = step_cq fx (rqcq_ctx c) d
      in Some (d, c\<lparr>rqcq_ctx := cq\<rparr>))"

text \<open>The handler polls until \<open>is_stop\<close> is seen; then it returns.\<close>

definition dpa_small_bank_client_device_event_handler ::
  "u64 \<Rightarrow> dpa \<times> client_ctx list \<Rightarrow> client_ctx outcome option" where
  "dpa_small_bank_client_device_event_handler index = (\<lambda>(d, dev_ctxs).
     if \<not> unat index < length dev_ctxs then None
     else
       let c = dev_ctxs ! unat index in
       if is_initalized c = 0 then Some (Exited (emit Reschedule d) c) else Some (Polling d c))"

subsection \<open>Lemmas\<close>

lemma send_requests_quiet [simp]:
  "trace (fst (send_requests fx ts (d, dt, sq))) = trace d"
  "sq_pi (snd (snd (send_requests fx ts (d, dt, sq)))) = sq_pi sq"
  "sq_number (snd (snd (send_requests fx ts (d, dt, sq)))) = sq_number sq"
  "sq_wqe_seg_idx (snd (snd (send_requests fx ts (d, dt, sq)))) = sq_wqe_seg_idx sq + 4 * of_nat (length ts)"
  by (induction ts arbitrary: d dt sq) (simp_all add: Let_def case_prod_beta send_simps algebra_simps)

lemma draw_trace [simp]:
  "trace (fst (draw_user1 fx s)) = trace (fst s)" "trace (fst (draw_user2 fx s)) = trace (fst s)"
  "trace (fst (redraw fx n s)) = trace (fst s)" "trace (fst (init_transition fx i s)) = trace (fst s)"
  by (simp_all add: draw_user1_def draw_user2_def redraw_def init_transition_def Let_def case_prod_beta)

lemma init_transitions_trace [simp]: "trace (fst (init_transitions fx i (d, ts))) = trace d"
  by (induction ts arbitrary: i d) (simp_all add: Let_def case_prod_beta)

lemma process_client_ctx:
  "rqcq_ctx (snd (process_packet_client fx (d, c))) = rqcq_ctx c"
  "db_ordered (trace d) \<Longrightarrow> db_ordered (trace (fst (process_packet_client fx (d, c))))"
  by (auto simp: process_packet_client_def answer_ping_def answer_get_data_def answer_get_lock_def answer_finish_def
      Let_def case_prod_beta send_simps db_ordered_emit)

interpretation client_rx: receive_loop iter_client rqcq_ctx
proof unfold_locales
  fix fx :: flexio and s t assume it: "iter_client fx s = Some t"
  obtain d c where s: "s = (d, c)" by (cases s)
  show "db_ordered (trace (fst t))" if "db_ordered (trace (fst s))"
    using it that process_client_ctx(2)[of d fx c] by (auto simp: s iter_client_def Let_def case_prod_beta)
  show "rqcq_ctx (snd t) = next_cq fx (rqcq_ctx (snd s))"
    using it process_client_ctx(1)[of fx d c] by (auto simp: s iter_client_def Let_def case_prod_beta)
qed

text \<open>
  Well-formed transactions: 64 of them, the one in slot \<open>i\<close> with a request number that is \<open>i\<close>
  modulo 64 and two existing accounts.
\<close>

definition trans_wf :: "nat \<Rightarrow> Transition \<Rightarrow> bool" where
  "trans_wf i t \<longleftrightarrow> unat (req_id t) mod 64 = i mod 64 \<and> unat (user1_id t) < NUM_ACCOUNTS \<and> unat (user2_id t) < NUM_ACCOUNTS"

definition client_wf :: "client_ctx \<Rightarrow> bool" where
  "client_wf c \<longleftrightarrow> length (transitions c) = 64 \<and> (\<forall>i < 64. trans_wf i (transitions c ! i))"

lemma unat_mod_accounts [simp]: "unat (r mod 1000000 :: u64) < NUM_ACCOUNTS"
  by (simp add: unat_mod_distrib)

lemma draw_fields [simp]:
  "req_id (snd (draw_user1 fx s)) = req_id (snd s)" "req_id (snd (draw_user2 fx s)) = req_id (snd s)"
  "user1_id (snd (draw_user2 fx s)) = user1_id (snd s)" "user2_id (snd (draw_user1 fx s)) = user2_id (snd s)"
  "unat (user1_id (snd (draw_user1 fx s))) < NUM_ACCOUNTS" "unat (user2_id (snd (draw_user2 fx s))) < NUM_ACCOUNTS"
  by (simp_all add: draw_user1_def draw_user2_def Let_def case_prod_beta)

lemma init_transition_wf: "i < 64 \<Longrightarrow> trans_wf i (snd (init_transition fx i (d, t)))"
  by (simp add: init_transition_def trans_wf_def Let_def case_prod_beta unat_of_nat take_bit_nat_eq_self)

lemma redraw_wf: "trans_wf (unat n) (snd (redraw fx n (d, t)))"
proof -
  have "unat (n + 64) mod 64 = unat n mod 64"
    using mod_mod_cancel[of 64 "2 ^ 32" "unat n + 64"] by (simp add: unat_word_ariths)
  then show ?thesis by (simp add: redraw_def trans_wf_def Let_def case_prod_beta)
qed

lemma init_transitions_wf:
  assumes "i + length ts \<le> 64" "k < length ts"
  shows "trans_wf (i + k) (snd (init_transitions fx i (d, ts)) ! k)"
  using assms
proof (induction ts arbitrary: i d k)
  case (Cons t ts)
  show ?case
  proof (cases k)
    case 0
    with Cons.prems show ?thesis using init_transition_wf[of i fx d t] by (simp add: Let_def case_prod_beta)
  next
    case (Suc j)
    with Cons.prems Cons.IH[of "Suc i" j] show ?thesis by (simp add: Let_def case_prod_beta)
  qed
qed simp

lemma init_transitions_length [simp]: "length (snd (init_transitions fx i (d, ts))) = length ts"
  by (induction ts arbitrary: i d) (simp_all add: Let_def case_prod_beta)

lemma client_wf_update:
  assumes "client_wf c" "trans_wf (i mod 64) t" "transitions c' = (transitions c)[i mod 64 := t]"
  shows "client_wf c'"
  using assms by (auto simp: client_wf_def nth_list_update)

lemma process_client_wf:
  assumes "client_wf c" shows "client_wf (snd (process_packet_client fx (d, c)))"
proof -
  have sl: "trans_wf (k mod 64) (transitions c ! (k mod 64))" for k using assms by (simp add: client_wf_def)
  have md: "trans_wf (k mod 64) t = trans_wf k t" for k t by (simp add: trans_wf_def)
  have p: "client_wf (snd (answer_ping fx (d, c)))"
    using init_transitions_wf[of 0 "transitions c" _ fx d] assms
    by (simp add: answer_ping_def client_wf_def Let_def case_prod_beta)
  have gd: "client_wf (snd (answer_get_data fx r (d, c)))" for r
    using sl[of "unat (load32 (mem d) (r + 4))"]
    by (intro client_wf_update[OF assms, of "unat (load32 (mem d) (r + 4))"])
      (auto simp: answer_get_data_def Let_def case_prod_beta trans_wf_def)
  have fi: "client_wf (snd (answer_finish fx r (d, c)))" for r
    using redraw_wf[of "load32 (mem d) (r + 4)" fx d]
    by (intro client_wf_update[OF assms, of "unat (load32 (mem d) (r + 4))"])
      (auto simp: answer_finish_def Let_def case_prod_beta md)
  have gl: "client_wf (snd (answer_get_lock fx r (d, c)))" for r
    using redraw_wf[of "load32 (mem d) (r + 4)" fx d] sl[of "unat (load32 (mem d) (r + 4))"]
    by (intro client_wf_update[OF assms, of "unat (load32 (mem d) (r + 4))"])
      (auto simp: answer_get_lock_def Let_def case_prod_beta md)
  show ?thesis using p gd fi gl assms by (simp add: process_packet_client_def Let_def case_prod_beta)
qed

subsection \<open>A concrete context\<close>

definition sample_transition :: Transition where
  "sample_transition = \<lparr>user1_id = 0, user2_id = 0, lock_user1_checking = 0, lock_user1_saving = 0,
     lock_user2_checking = 0, lock_user2_saving = 0, changed_user1_checking = 0, changed_user1_saving = 0,
     changed_user2_checking = 0, changed_user2_saving = 0, req_id = 0, transmit_type = 0, now_type = 0,
     user1_checking_balance = 0, user1_saving_balance = 0, user2_checking_balance = 0, user2_saving_balance = 0\<rparr>"

definition sample_client :: client_ctx where
  "sample_client = \<lparr>is_initalized = 1, rqcq_ctx = init_cq_client (rq_cq_data sample_qcd) cq_zero, sqcq_ctx = cq_zero,
     rq_ctx = init_rq_client (rq_data sample_qcd) rq_zero, sq_ctx = init_sq_client sample_fx (sq_data sample_qcd) sq_zero,
     dt_ctx = \<lparr>sq_tx_buff = 0x50000, tx_buff_idx = 0, data_idx_mask = ring_mask 7\<rparr>, lkey = 0, packets_count = 0,
     ctx_req_id = 0, transitions = replicate 64 sample_transition\<rparr>"

lemma sample_client_simps [simp]:
  "rqcq_ctx sample_client = init_cq_at 7 (rq_cq_data sample_qcd) cq_zero"
  "rq_ctx sample_client = init_rq_at 7 (rq_data sample_qcd) rq_zero"
  "length (transitions sample_client) = 64"
  by (simp_all add: sample_client_def init_cq_client_def init_rq_client_def)

subsection \<open>Properties\<close>

text \<open>
  C12: the client's transactions.  The answer to a ping makes the 64 transactions well formed,
  announces their 64 requests with one doorbell, 64 entries further on; and from a
  well-formed state every interleaving with the card, whatever the packets contain, keeps
  them well formed: 64 transactions, request numbers that lead back to their own slot also
  when the 32-bit number wraps, and accounts that exist; the completion queue stays consistent
  and every doorbell follows a write-back.
\<close>

theorem client_transactions_wf:
  "(length (transitions c) = 64 \<longrightarrow>
      client_wf (snd (answer_ping fx (d, c))) \<and>
      doorbells (trace (fst (answer_ping fx (d, c)))) =
        doorbells (trace d) @ [(sq_pi (sq_ctx c) + 64, sq_number (sq_ctx c))] \<and>
      (sq_balanced (sq_ctx c) \<longrightarrow> sq_balanced (sq_ctx (snd (answer_ping fx (d, c)))))) \<and>
   (client_wf c \<longrightarrow> cq_inv fx 7 (rqcq_ctx c) \<longrightarrow> db_ordered (trace d) \<longrightarrow>
      (rx_step fx (iter_client fx) rqcq_ctx)\<^sup>*\<^sup>* (d, c) (d', c') \<longrightarrow>
      client_wf c' \<and> cq_inv fx 7 (rqcq_ctx c') \<and> db_ordered (trace d'))"
proof (intro conjI impI)
  assume l: "length (transitions c) = 64"
  show "client_wf (snd (answer_ping fx (d, c)))"
    using init_transitions_wf[of 0 "transitions c" _ fx d] l
    by (simp add: answer_ping_def client_wf_def Let_def case_prod_beta)
  show "doorbells (trace (fst (answer_ping fx (d, c)))) =
      doorbells (trace d) @ [(sq_pi (sq_ctx c) + 64, sq_number (sq_ctx c))]"
    by (simp add: answer_ping_def Let_def case_prod_beta send_simps)
  show "sq_balanced (sq_ctx (snd (answer_ping fx (d, c))))" if "sq_balanced (sq_ctx c)"
    using that l by (simp add: answer_ping_def Let_def case_prod_beta send_simps sq_balanced_def)
next
  assume w: "client_wf c" "cq_inv fx 7 (rqcq_ctx c)" "db_ordered (trace d)"
    and r: "(rx_step fx (iter_client fx) rqcq_ctx)\<^sup>*\<^sup>* (d, c) (d', c')"
  have "client_wf (snd t)" if "iter_client fx s = Some t" "client_wf (snd s)" for s t
    using that process_client_wf[of "snd s" fx "fst s"]
    by (cases s) (auto simp: iter_client_def Let_def case_prod_beta client_wf_def)
  from rx_reach_inv[OF r, of client_wf] this w(1) show "client_wf c'" by simp
  show "cq_inv fx 7 (rqcq_ctx c')" using client_rx.reach_cq_inv[OF r, of 7] w(2) by simp
  show "db_ordered (trace d')" using client_rx.reach_db[OF r] w(3) by simp
qed

theorem client_transactions_wf_witness:
  "let (d1, c1) = answer_ping sample_fx (sample_dpa, sample_client) in
     client_wf c1 \<and> (\<exists>d c. (rx_step sample_fx (iter_client sample_fx) rqcq_ctx)\<^sup>*\<^sup>* (d1, c1) (d, c) \<and>
       cq_idx (rqcq_ctx c) = 1 \<and> client_wf c)"
proof -
  obtain d1 c1 where p: "answer_ping sample_fx (sample_dpa, sample_client) = (d1, c1)" by (rule prod.exhaust)
  have c1: "rqcq_ctx c1 = init_cq_at 7 (rq_cq_data sample_qcd) cq_zero"
    using p by (auto simp: answer_ping_def Let_def case_prod_beta)
  have w: "client_wf c1"
    using client_transactions_wf[of sample_client sample_fx sample_dpa sample_dpa sample_client] p by simp
  have db: "db_ordered (trace d1)"
    using p by (auto simp: answer_ping_def Let_def case_prod_beta send_simps db_ordered_emit db_ordered_def)
  obtain d c where it: "iter_client sample_fx (d1\<lparr>mem := sample_mem\<rparr>, c1) = Some (d, c)"
    by (simp add: iter_client_def case_prod_beta Let_def)
  have r: "(rx_step sample_fx (iter_client sample_fx) rqcq_ctx)\<^sup>*\<^sup>* (d1, c1) (d, c)"
    using c1 it by (intro sample_reach) simp_all
  have "client_wf c"
    using client_transactions_wf[of c1 sample_fx d1 d c] w r db by (simp add: c1 init_cq_at_inv)
  moreover have "cq_idx (rqcq_ctx c) = 1" using client_rx.iter_cq[OF it] c1 by simp
  ultimately show ?thesis using w r unfolding p by auto
qed

end
