(* ===== verification/Cache_Bench.thy ===== *)
theory Cache_Bench
  imports Hostrq
begin

text \<open>
  The cache benchmark: \<open>flexio/bench/memory/bench_cache_cross.h\<close>, in its DPA build, and
  \<open>device/bench_cache_device.c\<close>.  A working set is linked into a ring of cache lines and chased; its
  size runs through 41 steps from 256 bytes to 256 MiB.  The per-step times of the single-step
  benchmark are sorted into ten buckets and one for the rest.

  \<open>long\<close> and \<open>size_t\<close> arrays are lists; a write outside a list would be outside the array the host
  allocates.  \<open>long\<close> values are integers, as all of them stay far below \<open>2^63\<close>; the cycle arithmetic
  keeps its 64-bit width.
\<close>

subsection \<open>Constants\<close>

abbreviation LOOP_TOTAL :: nat where "LOOP_TOTAL \<equiv> 10000000"
abbreviation CACHE_MIN_BITS :: nat where "CACHE_MIN_BITS \<equiv> 8"
abbreviation CACHE_MAX_BITS :: nat where "CACHE_MAX_BITS \<equiv> 28"
abbreviation sizeof_element :: nat where "sizeof_element \<equiv> 64"

definition memsize :: nat where "memsize = 2 ^ CACHE_MAX_BITS"
definition repeat_count :: nat where "repeat_count = 2"
definition resolution :: nat where "resolution = 2"
definition timeslots :: nat where "timeslots = 2 * (CACHE_MAX_BITS - CACHE_MIN_BITS) + 1"

subsection \<open>Timer\<close>

definition timer_start :: "flexio \<Rightarrow> dpa \<Rightarrow> u64 \<times> dpa" where
  "timer_start fx d = read_cycles fx d"

definition timer_stop :: "flexio \<Rightarrow> dpa \<Rightarrow> u64 \<times> dpa" where
  "timer_stop fx d = read_cycles fx d"

definition timer_elapsed :: "u64 \<Rightarrow> u64 \<Rightarrow> u64" where
  "timer_elapsed t1 t2 =
     (let total_cycles = (if t1 < t2 then t2 - t1 else push_bit 32 1 - 1 + t2 - t1)
      in total_cycles * 10 div 18)"

subsection \<open>Parsing numbers\<close>

definition is_space :: "u8 \<Rightarrow> bool" where
  "is_space ch \<longleftrightarrow> ch = 32 \<or> ch = 9 \<or> ch = 10 \<or> ch = 13 \<or> ch = 11 \<or> ch = 12"

definition is_digit :: "u8 \<Rightarrow> bool" where
  "is_digit ch \<longleftrightarrow> 48 \<le> ch \<and> ch \<le> 57"

partial_function (option) skip_space :: "memory \<Rightarrow> ptr \<Rightarrow> ptr option" where
  "skip_space m str = (if is_space (m str) then skip_space m (str + 1) else Some str)"

text \<open>\<open>long\<close> has 64 bits, read by \<open>sint\<close>; the arithmetic is that of the machine, which wraps where C leaves
  the result of an overflow undefined.\<close>

partial_function (option) scan_digits :: "memory \<Rightarrow> ptr \<Rightarrow> u64 \<Rightarrow> u64 option" where
  "scan_digits m str res =
     (if is_digit (m str) then scan_digits m (str + 1) (10 * res + ucast (m str) - 48) else Some res)"

definition atol :: "memory \<Rightarrow> ptr \<Rightarrow> u64 option" where
  "atol m str =
     (if m str = 0 then Some 0
      else Option.bind (skip_space m str) (\<lambda>str.
        let (sign, str) = (if m str = 45 \<or> m str = 43 then (1 - 2 * (if m str = 45 then 1 else 0), str + 1)
                           else (1, str))
        in Option.bind (scan_digits m str 0) (\<lambda>res. Some (sign * res))))"

subsection \<open>Working sets\<close>

text \<open>The inner loop, for the entries between two powers of two.\<close>

fun sizes_inner :: "nat \<Rightarrow> nat \<Rightarrow> nat \<Rightarrow> nat list \<Rightarrow> nat list" where
  "sizes_inner j i 0 sizes = sizes"
| "sizes_inner j i (Suc n) sizes =
     sizes_inner j (Suc i) n
       (if j + i < timeslots
        then let v = sizes ! j + i * (sizes ! j div resolution)
             in sizes[j + i := v - v mod sizeof_element]
        else sizes)"

function sizes_outer :: "nat \<Rightarrow> nat list \<Rightarrow> nat list" where
  "sizes_outer j sizes =
     (if j < timeslots
      then sizes_outer (j + resolution)
             (sizes_inner j 1 (resolution - 1) (sizes[j := 2 ^ (CACHE_MIN_BITS + j div resolution)]))
      else sizes)"
  by pat_completeness auto
termination
  by (relation "measure (\<lambda>(j, _). timeslots - j)") (simp_all add: resolution_def)

definition initialize_sizes :: "nat list \<Rightarrow> nat list" where
  "initialize_sizes sizes = sizes_outer 0 sizes"

definition init_pchase :: "ptr \<Rightarrow> nat \<Rightarrow> memory \<Rightarrow> memory" where
  "init_pchase data num_elem = link_loop num_elem data 0 num_elem"

text \<open>The result, the time, the count and the new state.\<close>

definition benchmark_cache_ronly_p :: "flexio \<Rightarrow> ptr \<Rightarrow> dpa \<Rightarrow> u64 \<times> u64 \<times> nat \<times> dpa" where
  "benchmark_cache_ronly_p fx data d =
     (let (t1, d) = timer_start fx d;
          p = chase (mem d) LOOP_TOTAL data;
          (t2, d) = timer_stop fx d
      in (p, timer_elapsed t1 t2, LOOP_TOTAL, d))"

text \<open>A division by zero has no defined result.\<close>

definition compute_stat ::
  "nat \<Rightarrow> nat \<Rightarrow> nat \<Rightarrow> nat list \<times> nat list \<Rightarrow> (nat list \<times> nat list) option" where
  "compute_stat timeslot count nanosec = (\<lambda>(times, bws).
     if count = 0 \<or> nanosec = 0 then None
     else Some (times[timeslot := nanosec * 100 div count],
                bws[timeslot := count * sizeof_element * 1000 div nanosec]))"

text \<open>The repeat loop: the sum of the results, the counts and the times.\<close>

fun repeat_bench :: "flexio \<Rightarrow> ptr \<Rightarrow> nat \<Rightarrow> nat \<Rightarrow> u64 \<times> nat \<times> nat \<times> dpa \<Rightarrow> u64 \<times> nat \<times> nat \<times> dpa" where
  "repeat_bench fx data num_elem 0 s = s"
| "repeat_bench fx data num_elem (Suc k) (result, tcount, tnanosec, d) =
     (let d = upd_mem (init_pchase data num_elem) d;
          (p, nanosec, count, d) = benchmark_cache_ronly_p fx data d
      in repeat_bench fx data num_elem k (result + p, tcount + count, tnanosec + unat nanosec, d))"

fun read_only_slots ::
  "flexio \<Rightarrow> nat list \<Rightarrow> ptr \<Rightarrow> nat \<Rightarrow> nat \<Rightarrow> u64 \<times> (nat list \<times> nat list) \<times> dpa \<Rightarrow>
   (u64 \<times> (nat list \<times> nat list) \<times> dpa) option" where
  "read_only_slots fx sizes data i 0 s = Some s"
| "read_only_slots fx sizes data i (Suc n) (result, tb, d) =
     (let (result, tcount, tnanosec, d) =
            repeat_bench fx data (sizes ! i div sizeof_element) repeat_count (result, 0, 0, d)
      in Option.bind (compute_stat i tcount tnanosec tb)
           (\<lambda>tb. read_only_slots fx sizes data (Suc i) n (result, tb, d)))"

definition do_read_only ::
  "flexio \<Rightarrow> nat list \<Rightarrow> ptr \<Rightarrow> nat list \<times> nat list \<Rightarrow> dpa \<Rightarrow> (u64 \<times> (nat list \<times> nat list) \<times> dpa) option" where
  "do_read_only fx sizes data tb d = read_only_slots fx sizes data 0 timeslots (0, tb, d)"

subsection \<open>Buckets\<close>

fun min_max :: "u64 list \<Rightarrow> u64 \<times> u64 \<Rightarrow> u64 \<times> u64" where
  "min_max [] s = s"
| "min_max (x # xs) (mn, mx) =
     (let mx = (if x > mx then x else mx); mn = (if x < mn then x else mn) in min_max xs (mn, mx))"

fun bucket_scan :: "u64 \<Rightarrow> u64 \<Rightarrow> u64 \<Rightarrow> nat \<Rightarrow> nat \<Rightarrow> u64 list \<Rightarrow> u64 list" where
  "bucket_scan mn step x j 0 buckets = buckets"
| "bucket_scan mn step x j (Suc n) buckets =
     bucket_scan mn step x (Suc j) n
       (if mn + of_nat j * step \<le> x \<and> mn + (of_nat j + 1) * step > x
        then buckets[j := buckets ! j + 1] else buckets)"

definition bucket_one :: "u64 \<Rightarrow> u64 \<Rightarrow> nat \<Rightarrow> u64 \<Rightarrow> u64 list \<Rightarrow> u64 list" where
  "bucket_one mn step num_buckets x buckets =
     (let buckets = bucket_scan mn step x 0 num_buckets buckets
      in if mn + step * of_nat num_buckets \<le> x
         then buckets[num_buckets := buckets ! num_buckets + 1] else buckets)"

text \<open>
  \<open>range\<close> and \<open>step\<close> are 32-bit integers, widened again in the expressions with \<open>size_t\<close> operands.
\<close>

definition bucket_step :: "u64 \<Rightarrow> u64 \<Rightarrow> nat \<Rightarrow> u64" where
  "bucket_step mn mx num_buckets =
     (let range = (ucast (mx - mn + 1) :: u32);
          wide = (scast range :: u64)
      in scast (ucast ((wide - wide mod of_nat num_buckets) div of_nat num_buckets) :: u32))"

definition bucket_cycles_count :: "u64 list \<Rightarrow> nat \<Rightarrow> u64 list" where
  "bucket_cycles_count data num_buckets =
     (let (mn, mx) = min_max data (push_bit 32 1, 0);
          step = bucket_step mn mx num_buckets
      in fold (bucket_one mn step num_buckets) data (replicate (num_buckets + 1) 0))"

definition statistics :: "u64 list \<Rightarrow> u64 list" where
  "statistics cycles = bucket_cycles_count (take LOOP_TOTAL cycles) 10"

subsection \<open>Device calls\<close>

record MemoryArg =
  arg_window_id :: u32
  arg_mkey :: u32
  arg_haddr :: ptr
  arg_sizes :: "nat list"
  arg_times :: "nat list"
  arg_bws :: "nat list"
  arg_data :: ptr
  arg_cycles :: "u64 list"
  arg_index :: nat

fun read_words :: "memory \<Rightarrow> ptr \<Rightarrow> nat \<Rightarrow> u64 list" where
  "read_words m p 0 = []"
| "read_words m p (Suc n) = load64 m p # read_words m (p + 8) n"

text \<open>The eight words it prints.\<close>

definition bench_func_cache :: "flexio \<Rightarrow> MemoryArg \<Rightarrow> dpa \<Rightarrow> u64 \<times> u64 list \<times> dpa" where
  "bench_func_cache fx arg d =
     (let (host_buffer, d) = get_host_buffer fx (arg_window_id arg) (arg_mkey arg) (arg_haddr arg) d
      in (0, read_words (mem d) host_buffer 8, d))"

text \<open>Besides the return value 0, the sum of the results that it prints.\<close>

definition average_cache_bench :: "flexio \<Rightarrow> MemoryArg \<Rightarrow> dpa \<Rightarrow> (u64 \<times> u64 \<times> MemoryArg \<times> dpa) option" where
  "average_cache_bench fx arg d =
     (let sizes = initialize_sizes (arg_sizes arg);
          num_elem = sizes ! arg_index arg div sizeof_element;
          (result, tcount, tnanosec, d) = repeat_bench fx (arg_data arg) num_elem repeat_count (0, 0, 0, d)
      in Option.bind (compute_stat (arg_index arg) tcount tnanosec (arg_times arg, arg_bws arg))
           (\<lambda>(times, bws). Some (0, result, arg\<lparr>arg_sizes := sizes, arg_times := times, arg_bws := bws\<rparr>, d)))"

fun chase_timed :: "flexio \<Rightarrow> nat \<Rightarrow> nat \<Rightarrow> ptr \<times> u64 list \<times> dpa \<Rightarrow> ptr \<times> u64 list \<times> dpa" where
  "chase_timed fx i 0 s = s"
| "chase_timed fx i (Suc n) (p, cycles, d) =
     (let (t1, d) = read_cycles fx d;
          p = load64 (mem d) p;
          (t2, d) = read_cycles fx d;
          dt = (if t1 < t2 then t2 - t1 else push_bit 32 1 - 1 + t2 - t1)
      in chase_timed fx (Suc i) n (p, cycles[i := cycles ! i + dt], d))"

definition single_cache_bench :: "flexio \<Rightarrow> MemoryArg \<Rightarrow> dpa \<Rightarrow> u64 \<times> u64 list \<times> ptr \<times> MemoryArg \<times> dpa" where
  "single_cache_bench fx arg d =
     (let sizes = initialize_sizes (arg_sizes arg);
          num_elem = sizes ! arg_index arg div sizeof_element;
          d = upd_mem (init_pchase (arg_data arg) num_elem) d;
          (p, cycles, d) = chase_timed fx 0 LOOP_TOTAL (arg_data arg, arg_cycles arg, d)
      in (0, statistics cycles, p, arg\<lparr>arg_sizes := sizes, arg_cycles := cycles\<rparr>, d))"

subsection \<open>Lemmas on working sets\<close>

text \<open>The size of working set \<open>k\<close>: powers of two, and the values half-way between them.\<close>

definition ws_size :: "nat \<Rightarrow> nat" where
  "ws_size k = (if even k then 2 ^ (8 + k div 2) else 3 * 2 ^ (7 + k div 2))"

lemma timeslots_41 [simp]: "timeslots = 41" by (simp add: timeslots_def)

lemma ws_size_half: "even j \<Longrightarrow> ws_size j + ws_size j div 2 - (ws_size j + ws_size j div 2) mod 64 = ws_size (Suc j)"
proof -
  assume "even j"
  then obtain k where "j = 2 * k" by (rule evenE)
  then have "ws_size j + ws_size j div 2 = ws_size (Suc j)" "ws_size (Suc j) = 64 * (3 * 2 ^ Suc k)"
    by (simp_all add: ws_size_def power_add)
  then show ?thesis by simp
qed

declare sizes_outer.simps [simp del]

lemma sizes_outer_nth:
  assumes "even j" "length sizes = 41" "k < 41"
  shows "length (sizes_outer j sizes) = 41 \<and> sizes_outer j sizes ! k = (if k < j then sizes ! k else ws_size k)"
  using assms(1,2)
proof (induction j sizes rule: sizes_outer.induct)
  case (1 j sizes)
  show ?case
  proof (cases "j < 41")
    case True
    let ?s = "sizes_inner j 1 (resolution - 1) (sizes[j := 2 ^ (CACHE_MIN_BITS + j div resolution)])"
    have p: "2 ^ (CACHE_MIN_BITS + j div resolution) = ws_size j" using 1(2) by (simp add: ws_size_def resolution_def)
    have s: "?s = (if Suc j < 41 then (sizes[j := ws_size j])[Suc j := ws_size (Suc j)] else sizes[j := ws_size j])"
      unfolding p using 1(2,3) True ws_size_half[OF 1(2)] by (simp add: resolution_def Let_def)
    have ln: "length ?s = 41" unfolding s using 1(3) by simp
    have ev: "even (j + resolution)" using 1(2) by (simp add: resolution_def)
    have ih: "length (sizes_outer (j + resolution) ?s) = 41 \<and>
        sizes_outer (j + resolution) ?s ! k = (if k < j + resolution then ?s ! k else ws_size k)"
      using True by (intro 1(1)[OF _ ev ln]) simp
    have eq: "sizes_outer j sizes = sizes_outer (j + resolution) ?s"
      using True by (subst sizes_outer.simps) (simp only: timeslots_41 if_True)
    have "?s ! k = (if k < j then sizes ! k else ws_size k)" if "k < j + resolution"
    proof -
      from that consider "k < j" | "k = j" | "k = Suc j" unfolding resolution_def by linarith
      then show ?thesis unfolding s using 1(3) assms(3) True by cases auto
    qed
    with ih show ?thesis unfolding eq by auto
  next
    case False
    then have "sizes_outer j sizes = sizes" by (subst sizes_outer.simps) simp
    with False 1(3) assms(3) show ?thesis by simp
  qed
qed

lemma initialize_sizes_nth: "length sizes = 41 \<Longrightarrow> k < 41 \<Longrightarrow> initialize_sizes sizes ! k = ws_size k"
  using sizes_outer_nth[of 0 sizes k] by (simp add: initialize_sizes_def)

lemma ws_size_mono: "i < j \<Longrightarrow> ws_size i < ws_size j"
proof -
  have "ws_size k < ws_size (Suc k)" for k by (cases "even k") (auto simp: ws_size_def power_add elim!: evenE oddE)
  then show "i < j \<Longrightarrow> ws_size i < ws_size j" by (rule lift_Suc_mono_less)
qed

lemma ws_size_lines: "\<exists>n. 4 \<le> n \<and> ws_size k = 64 * n"
proof (cases "even k")
  case True
  then have "ws_size k = 64 * (4 * 2 ^ (k div 2))" by (simp add: ws_size_def power_add)
  then show ?thesis by (intro exI[of _ "4 * 2 ^ (k div 2)"]) simp
next
  case False
  then have "ws_size k = 64 * (6 * 2 ^ (k div 2))" by (simp add: ws_size_def power_add)
  moreover have "(1 :: nat) \<le> 2 ^ (k div 2)" by simp
  then have "4 \<le> (6 :: nat) * 2 ^ (k div 2)" by linarith
  ultimately show ?thesis by blast
qed

text \<open>A chase over a linked working set.\<close>

lemma pchase_at:
  assumes "0 < n" "64 * n \<le> 2 ^ 64"
  shows "chase (init_pchase data n m) k data = data + of_nat (64 * (k mod n))"
proof -
  have "chase (init_pchase data n m) k (data + of_nat (64 * 0)) = data + of_nat (64 * ((0 + k) mod n))"
    unfolding init_pchase_def using link_loop_next[OF _ assms(2)] assms(1) by (intro chase_cycle)
  then show ?thesis by simp
qed

lemma lines_inj: "64 * n \<le> 2 ^ 64 \<Longrightarrow> inj_on (\<lambda>i. data + of_nat (64 * i) :: ptr) {..<n}"
proof (rule inj_onI)
  fix i j assume n: "64 * n \<le> 2 ^ 64" "i \<in> {..<n}" "j \<in> {..<n}" and "data + of_nat (64 * i) = data + of_nat (64 * j)"
  then have "unat (of_nat (64 * i) :: u64) = unat (of_nat (64 * j) :: u64)" by (simp del: of_nat_mult)
  moreover have "64 * i < 2 ^ 64" "64 * j < 2 ^ 64" using n by auto
  ultimately show "i = j" by (simp add: unat_of_nat take_bit_nat_eq_self del: of_nat_mult)
qed

subsection \<open>Lemmas on parsing\<close>

lemma load_bytes_Cons:
  "load_bytes m p (Suc n) = b # bs \<longleftrightarrow> m p = b \<and> load_bytes m (p + 1) n = bs"
  by (simp add: load_bytes_def upt_conv_Cons map_Suc_upt[symmetric] comp_def add.assoc del: upt_Suc)

lemma skip_space_list:
  "load_bytes m p (length ws) = ws \<Longrightarrow> list_all is_space ws \<Longrightarrow> \<not> is_space (m (p + of_nat (length ws))) \<Longrightarrow>
   skip_space m p = Some (p + of_nat (length ws))"
proof (induction ws arbitrary: p)
  case Nil
  then show ?case by (subst skip_space.simps) simp
next
  case (Cons w ws)
  from Cons.IH[of "p + 1"] Cons.prems show ?case
    by (subst skip_space.simps) (simp add: load_bytes_Cons add.assoc)
qed

definition digits_value :: "int \<Rightarrow> u8 list \<Rightarrow> int" where
  "digits_value = foldl (\<lambda>res c. 10 * res + uint c - 48)"

lemma of_int_digit: "of_int (10 * k + uint c - 48) = 10 * of_int k + ucast c - (48 :: u64)"
  by (simp add: unsigned_ucast_eq flip: word_of_int_uint)

lemma scan_digits_list:
  "load_bytes m p (length ds) = ds \<Longrightarrow> list_all is_digit ds \<Longrightarrow> \<not> is_digit (m (p + of_nat (length ds))) \<Longrightarrow>
   scan_digits m p (of_int res) = Some (of_int (digits_value res ds))"
proof (induction ds arbitrary: p res)
  case Nil
  then show ?case by (subst scan_digits.simps) (simp add: digits_value_def)
next
  case (Cons w ws)
  from Cons.IH[of "p + 1" "10 * res + uint w - 48"] Cons.prems show ?case
    by (subst scan_digits.simps) (simp add: load_bytes_Cons digits_value_def add.assoc of_int_digit del: of_int_add of_int_diff of_int_mult)
qed

text \<open>Decimal digits, most significant first.\<close>

fun decimal :: "nat \<Rightarrow> u8 list" where
  "decimal n = (if n < 10 then [48 + of_nat n] else decimal (n div 10) @ [48 + of_nat (n mod 10)])"

declare decimal.simps [simp del]

lemma digit_char: "k < 10 \<Longrightarrow> is_digit (48 + of_nat k) \<and> uint (48 + of_nat k :: u8) = 48 + int k"
proof -
  assume "k < 10"
  then have "unat (48 + of_nat k :: u8) = 48 + k" by (simp add: unat_word_ariths unat_of_nat take_bit_nat_eq_self)
  moreover from this have "uint (48 + of_nat k :: u8) = 48 + int k"
    by (simp only: uint_nat of_nat_add of_nat_numeral)
  ultimately show ?thesis using \<open>k < 10\<close> by (simp add: is_digit_def word_le_nat_alt)
qed

lemma decimal_value: "digits_value 0 (decimal n) = int n \<and> list_all is_digit (decimal n) \<and> decimal n \<noteq> []"
proof (induction n rule: decimal.induct)
  case (1 n)
  show ?case
  proof (cases "n < 10")
    case True
    with digit_char[of n] show ?thesis by (subst (1 2 3) decimal.simps) (simp add: digits_value_def)
  next
    case False
    have "n = 10 * (n div 10) + n mod 10" by simp
    then have "int n = 10 * int (n div 10) + int (n mod 10)" by (metis of_nat_add of_nat_mult of_nat_numeral)
    with 1 False digit_char[of "n mod 10"] show ?thesis
      by (subst (1 2 3) decimal.simps) (simp add: digits_value_def)
  qed
qed

text \<open>Scanning stops at the terminating NUL at the latest.\<close>

lemma skip_space_returns:
  "m (p + of_nat n) = 0 \<Longrightarrow> \<exists>k \<le> n. skip_space m p = Some (p + of_nat k)"
proof (induction n arbitrary: p)
  case 0
  then show ?case by (subst skip_space.simps) (simp add: is_space_def)
next
  case (Suc n)
  have "\<exists>k \<le> n. skip_space m (p + 1) = Some (p + 1 + of_nat k)"
    using Suc.IH[of "p + 1"] Suc.prems by (simp add: add.assoc)
  then obtain k where k: "k \<le> n" "skip_space m (p + 1) = Some (p + 1 + of_nat k)" by blast
  show ?case
  proof (cases "is_space (m p)")
    case True
    with k show ?thesis by (intro exI[of _ "Suc k"]) (subst skip_space.simps, simp add: add.assoc)
  next
    case False
    then show ?thesis by (intro exI[of _ 0]) (subst skip_space.simps, simp)
  qed
qed

lemma scan_digits_returns: "m (p + of_nat n) = 0 \<Longrightarrow> \<exists>r. scan_digits m p res = Some r"
proof (induction n arbitrary: p res)
  case 0
  then show ?case by (subst scan_digits.simps) (simp add: is_digit_def)
next
  case (Suc n)
  from Suc.IH[of "p + 1"] Suc.prems show ?case by (subst scan_digits.simps) (simp add: add.assoc)
qed

lemma atol_returns: "m (p + of_nat n) = 0 \<Longrightarrow> \<exists>r. atol m p = Some r"
proof -
  assume z: "m (p + of_nat n) = 0"
  from skip_space_returns[of m p n] z obtain k where k: "k \<le> n" "skip_space m p = Some (p + of_nat k)" by blast
  let ?q = "p + of_nat k"
  have q: "m (?q + of_nat (n - k)) = 0" using z k(1) by (simp add: of_nat_diff)
  have q1: "m (?q + 1 + of_nat (n - Suc k)) = 0" if "m ?q \<noteq> 0"
  proof -
    from that z k(1) have "k < n" by (metis le_neq_implies_less)
    then have e: "?q + 1 + of_nat (n - Suc k) = p + of_nat n" by (simp add: of_nat_diff)
    show ?thesis unfolding e by (rule z)
  qed
  from scan_digits_returns[of m ?q "n - k" 0] q scan_digits_returns[of m "?q + 1" "n - Suc k" 0] q1 show ?thesis
    by (auto simp: atol_def k(2) Let_def)
qed

lemma load_bytes_add: "load_bytes m p (a + b) = load_bytes m p a @ load_bytes m (p + of_nat a) b"
  by (rule nth_equalityI) (auto simp: nth_append add.assoc simp flip: of_nat_add)

lemma text_bytes:
  "load_bytes m p (length (xs @ ys)) = xs @ ys \<Longrightarrow>
     load_bytes m p (length xs) = xs \<and> load_bytes m (p + of_nat (length xs)) (length ys) = ys"
  by (simp add: load_bytes_add)

lemma digit_not:
  "is_digit b \<Longrightarrow> b \<noteq> 0 \<and> \<not> is_space b \<and> b \<noteq> 45 \<and> b \<noteq> 43"
  "is_space b \<Longrightarrow> b \<noteq> 0"
  by (auto simp: is_digit_def is_space_def)

lemma atol_text:
  assumes "load_bytes m p (length (ws @ sg @ ds)) = ws @ sg @ ds" "list_all is_space ws" "sg \<in> {[], [45], [43]}"
    and "list_all is_digit ds" "ds \<noteq> []" "\<not> is_digit (m (p + of_nat (length (ws @ sg @ ds))))"
  shows "atol m p = Some (of_int ((if sg = [45] then - 1 else 1) * digits_value 0 ds))"
proof -
  let ?q = "p + of_nat (length ws)" and ?r = "p + of_nat (length ws) + of_nat (length sg)"
  from text_bytes[OF assms(1)] have b: "load_bytes m p (length ws) = ws"
    "load_bytes m ?q (length sg) = sg" "load_bytes m ?r (length ds) = ds"
    using text_bytes[of m ?q sg ds] by simp_all
  obtain c cs where ds: "ds = c # cs" using assms(5) by (cases ds) auto
  have r: "m ?r = c" "is_digit c" using b(3) assms(4) by (simp_all add: ds load_bytes_Cons)
  have q: "sg = [] \<and> m ?q = c \<or> sg = [45] \<and> m ?q = 45 \<or> sg = [43] \<and> m ?q = 43"
    using assms(3) b(2) r(1) by (auto simp: load_bytes_Cons)
  then have nsp: "\<not> is_space (m ?q)" "m ?q \<noteq> 0" using digit_not(1)[OF r(2)] by (auto simp: is_space_def)
  have "m p \<noteq> 0" using b(1) assms(2) nsp(2) digit_not(2) by (cases ws) (auto simp: load_bytes_Cons)
  moreover have "skip_space m p = Some ?q" by (rule skip_space_list[OF b(1) assms(2) nsp(1)])
  moreover have "scan_digits m ?r 0 = Some (of_int (digits_value 0 ds))"
    using assms(6) scan_digits_list[OF b(3) assms(4), of 0] by (simp add: add.assoc)
  ultimately show ?thesis using q digit_not(1)[OF r(2)] by (auto simp: atol_def Let_def)
qed

lemma sint_of_long: "n < 2 ^ 63 \<Longrightarrow> sint (of_nat n :: u64) = int n \<and> sint (- of_nat n :: u64) = - int n"
proof -
  assume n: "n < 2 ^ 63"
  have "sint (of_int k :: u64) = k" if "- (2 ^ 63) \<le> k" "k < 2 ^ 63" for k
    using that by (simp add: signed_of_int signed_take_bit_int_eq_self)
  from this[of "int n"] this[of "- int n"] n show ?thesis by simp
qed

subsection \<open>Lemmas on buckets\<close>

text \<open>Sample \<open>x\<close> belongs to bucket \<open>j\<close>, the last bucket being open.\<close>

definition in_bucket :: "u64 \<Rightarrow> u64 \<Rightarrow> nat \<Rightarrow> nat \<Rightarrow> u64 \<Rightarrow> bool" where
  "in_bucket mn step nb j x \<longleftrightarrow>
     (if j = nb then mn + step * of_nat nb \<le> x else mn + of_nat j * step \<le> x \<and> x < mn + (of_nat j + 1) * step)"

lemma bucket_scan_nth:
  assumes "i + n < length bs" "j < length bs"
  shows "length (bucket_scan mn step x i n bs) = length bs \<and> bucket_scan mn step x i n bs ! j =
    bs ! j + (if i \<le> j \<and> j < i + n \<and> mn + of_nat j * step \<le> x \<and> x < mn + (of_nat j + 1) * step then 1 else 0)"
  using assms
proof (induction n arbitrary: i bs)
  case (Suc n)
  define bs' where "bs' = (if mn + of_nat i * step \<le> x \<and> mn + (of_nat i + 1) * step > x then bs[i := bs ! i + 1] else bs)"
  have l: "length bs' = length bs" by (simp add: bs'_def)
  have nth: "bs' ! j = bs ! j + (if j = i \<and> mn + of_nat j * step \<le> x \<and> x < mn + (of_nat j + 1) * step then 1 else 0)"
    using Suc.prems by (auto simp: bs'_def nth_list_update)
  show ?case using Suc.IH[of "Suc i" bs'] Suc.prems by (auto simp: bs'_def[symmetric] l nth)
qed simp

lemma bucket_one_nth:
  assumes "length bs = nb + 1" "j \<le> nb"
  shows "length (bucket_one mn step nb x bs) = nb + 1 \<and>
    bucket_one mn step nb x bs ! j = bs ! j + (if in_bucket mn step nb j x then 1 else 0)"
  using bucket_scan_nth[of 0 nb bs j mn step x] bucket_scan_nth[of 0 nb bs nb mn step x] assms
  by (auto simp: bucket_one_def in_bucket_def Let_def nth_list_update)

lemma bucket_fold_nth:
  assumes "length bs = nb + 1" "j \<le> nb"
  shows "length (fold (bucket_one mn step nb) xs bs) = nb + 1 \<and>
    fold (bucket_one mn step nb) xs bs ! j = bs ! j + of_nat (length (filter (in_bucket mn step nb j) xs))"
  using assms(1)
proof (induction xs arbitrary: bs)
  case (Cons x xs)
  from Cons.IH[of "bucket_one mn step nb x bs"] bucket_one_nth[OF Cons.prems assms(2), of mn step x]
  show ?case by (simp add: add.assoc)
qed simp

lemma min_max_bounds:
  "min_max xs (a, b) = (mn, mx) \<Longrightarrow> mn \<le> a \<and> b \<le> mx \<and> (\<forall>x \<in> set xs. mn \<le> x \<and> x \<le> mx)"
proof (induction xs arbitrary: a b)
  case (Cons x xs)
  from Cons.prems have "min_max xs (if x < a then x else a, if b < x then x else b) = (mn, mx)" by (simp add: Let_def)
  from Cons.IH[OF this] show ?case by (auto split: if_splits)
qed simp

lemma unat_bucket_step:
  assumes "unat (mx - mn + 1) < 2 ^ 31" "0 < nb" "nb < 2 ^ 31"
  shows "unat (bucket_step mn mx nb) = unat (mx - mn + 1) div nb"
proof -
  let ?r = "mx - mn + 1"
  have small: "scast (ucast w :: u32) = w" if "unat w < 2 ^ 31" for w :: u64
  proof (rule bit_word_eqI)
    fix n assume n: "n < LENGTH(64)"
    have hi: "\<not> bit w k" if "31 \<le> k" for k
    proof -
      have "unat w < 2 ^ k" using \<open>unat w < 2 ^ 31\<close> power_increasing[OF that, of "2::nat"] by linarith
      then have "\<not> bit (unat w) k" by (simp add: bit_iff_odd)
      then show ?thesis by (simp add: bit_unsigned_iff)
    qed
    show "bit (scast (ucast w :: u32) :: u64) n = bit w n"
      using n hi[of n] hi[of 31] by (cases "n < 31") (auto simp: bit_simps min_def)
  qed
  have nb: "unat (of_nat nb :: u64) = nb" using assms(3) by (simp add: unat_of_nat take_bit_nat_eq_self)
  have le: "?r mod of_nat nb \<le> ?r" using nb by (simp add: word_le_nat_alt unat_mod_distrib)
  have "unat (?r - ?r mod of_nat nb) = unat ?r - unat ?r mod nb"
    using unat_sub[OF le] nb by (simp add: unat_mod_distrib)
  then have "unat ((?r - ?r mod of_nat nb) div of_nat nb) = unat (?r div of_nat nb)"
    using nb assms(2) by (simp add: unat_div_distrib minus_mod_eq_mult_div)
  then have "(?r - ?r mod of_nat nb) div of_nat nb = ?r div of_nat nb" by (simp only: word_unat_eq_iff)
  moreover have "unat (?r div of_nat nb) = unat ?r div nb" using nb by (simp add: unat_div_distrib)
  moreover have "unat ?r div nb < 2 ^ 31" using assms(1) div_le_dividend[of "unat ?r" nb] by linarith
  ultimately show ?thesis
    using small[OF assms(1)] small[of "?r div of_nat nb"] by (simp add: bucket_step_def Let_def)
qed

lemma interval_div:
  fixes M S X j :: nat
  assumes "M \<le> X" "0 < S"
  shows "(M + j * S \<le> X \<and> X < M + Suc j * S) = (j = (X - M) div S)"
proof -
  obtain Y where Y: "X = M + Y" using assms(1) le_Suc_ex by blast
  have "(S * j \<le> Y \<and> Y < S * Suc j) = (j = Y div S)"
    using div_nat_eqI[of S j Y] dividend_less_times_div[OF assms(2), of Y] by auto
  then show ?thesis by (simp add: Y mult.commute)
qed

text \<open>Every sample lies in exactly one bucket.\<close>

lemma in_bucket_unique:
  assumes "mn \<le> x" "unat mn + nb * unat step < 2 ^ 64"
  shows "card {j. j \<le> nb \<and> in_bucket mn step nb j x} = 1"
proof -
  let ?M = "unat mn" and ?S = "unat step" and ?X = "unat x"
  have MX: "?M \<le> ?X" using assms(1) by (simp add: word_le_nat_alt)
  have lim: "unat (mn + of_nat j * step) = ?M + j * ?S" if "j \<le> nb" for j
  proof -
    have lt: "?M + j * ?S < 2 ^ 64" using assms(2) mult_le_mono1[OF that, of ?S] by linarith
    have "mn + of_nat j * step = of_nat (?M + j * ?S)" by simp
    then show ?thesis using lt by (simp only: unat_of_nat) (simp add: take_bit_nat_eq_self)
  qed
  have lim1: "unat (mn + (of_nat j + 1) * step) = ?M + Suc j * ?S" if "j < nb" for j
    using lim[of "Suc j"] that by (simp add: add.commute)
  have ib: "in_bucket mn step nb j x \<longleftrightarrow>
      (if j = nb then ?M + nb * ?S \<le> ?X else ?M + j * ?S \<le> ?X \<and> ?X < ?M + Suc j * ?S)" if "j \<le> nb" for j
    using that lim[of j] lim1[of j] lim[of nb] by (simp add: in_bucket_def word_le_nat_alt word_less_nat_alt mult.commute)
  have "{j. j \<le> nb \<and> in_bucket mn step nb j x} = {if ?M + nb * ?S \<le> ?X then nb else (?X - ?M) div ?S}"
  proof (cases "?M + nb * ?S \<le> ?X")
    case True
    have "\<not> ?X < ?M + Suc j * ?S" if "j < nb" for j using True mult_le_mono1[of "Suc j" nb ?S] that by linarith
    with True show ?thesis by (auto simp: ib split: if_splits)
  next
    case False
    then have S: "0 < ?S" using MX by (cases "?S = 0") auto
    define j0 where "j0 = (?X - ?M) div ?S"
    have "?X - ?M < nb * ?S" using False MX by simp
    then have j0: "j0 < nb" unfolding j0_def by (simp only: div_less_iff_less_mult[OF S])
    have "in_bucket mn step nb j x = (j = j0)" if "j \<le> nb" for j
      using ib[OF that] False interval_div[OF MX S, of j, folded j0_def] j0 by (cases "j = nb") simp_all
    then have "{j. j \<le> nb \<and> in_bucket mn step nb j x} = {j0}" using j0 by auto
    then show ?thesis using False by (simp add: j0_def)
  qed
  then show ?thesis by simp
qed

lemma sum_filter_one:
  "(\<And>x. x \<in> set xs \<Longrightarrow> card {j. j \<le> (nb :: nat) \<and> P j x} = 1) \<Longrightarrow> (\<Sum>j \<le> nb. length (filter (P j) xs)) = length xs"
proof (induction xs)
  case (Cons x xs)
  have "{j \<in> {..nb}. P j x} = {j. j \<le> nb \<and> P j x}" by auto
  then have "(\<Sum>j \<le> nb. if P j x then 1 else 0) = card {j. j \<le> nb \<and> P j x}"
    using sum.inter_filter[of "{..nb}" "\<lambda>_. 1 :: nat" "\<lambda>j. P j x"] by simp
  moreover have "(\<Sum>j \<le> nb. length (filter (P j) (x # xs))) =
      (\<Sum>j \<le> nb. (if P j x then 1 else 0) + length (filter (P j) xs))"
    by (intro sum.cong) auto
  ultimately show ?case using Cons by (simp add: sum.distrib)
qed simp

subsection \<open>A concrete string\<close>

text \<open>The text \<open>" -42"\<close> at address \<open>0x100\<close>.\<close>

definition sample_text :: memory where
  "sample_text a = (if a = 0x100 then 32 else if a = 0x101 then 45 else if a = 0x102 then 52 else if a = 0x103 then 50 else 0)"

subsection \<open>Properties\<close>

text \<open>
  C32: the working sets.  The 41 sizes grow strictly from 256 bytes to the 256 MiB of the buffer,
  each a whole number, at least four, of cache lines; and once linked, chasing pointers from
  the start visits every line of the working set exactly once and comes back to the start.
\<close>

theorem cache_working_sets:
  assumes "length sizes = timeslots" "k < timeslots"
  defines "sz \<equiv> initialize_sizes sizes ! k" and "n \<equiv> initialize_sizes sizes ! k div sizeof_element"
  shows "sz = sizeof_element * n \<and> 4 \<le> n \<and> sz \<le> memsize \<and>
         (\<forall>j < k. initialize_sizes sizes ! j < sz) \<and>
         bij_betw (\<lambda>i. chase (init_pchase data n m) i data) {..<n} ((\<lambda>i. data + of_nat (64 * i)) ` {..<n}) \<and>
         chase (init_pchase data n m) n data = data"
proof -
  have sz: "sz = ws_size k" using initialize_sizes_nth assms(1,2) by (simp add: sz_def)
  obtain l where l: "4 \<le> l" "ws_size k = 64 * l" using ws_size_lines by blast
  then have n: "n = l" using initialize_sizes_nth assms(1,2) by (simp add: n_def)
  have "ws_size k \<le> ws_size 40" using ws_size_mono[of k 40] assms(2) by (cases "k = 40") auto
  then have mx: "ws_size k \<le> 2 ^ 28" by (simp add: ws_size_def)
  then have lim: "64 * n \<le> 2 ^ 64" using l n by simp
  have inc: "\<forall>j < k. initialize_sizes sizes ! j < sz"
    using initialize_sizes_nth assms(1,2) ws_size_mono sz by simp
  have ch: "chase (init_pchase data n m) i data = data + of_nat (64 * (i mod n))" for i
    using pchase_at[OF _ lim] l n by simp
  have "bij_betw (\<lambda>i. chase (init_pchase data n m) i data) {..<n} ((\<lambda>i. data + of_nat (64 * i)) ` {..<n})"
    using lines_inj[OF lim, of data] unfolding ch bij_betw_def by (auto simp: inj_on_def simp del: of_nat_mult)
  then show ?thesis using sz l n mx inc ch[of n] by (simp add: memsize_def)
qed

theorem cache_working_sets_witness:
  "initialize_sizes (replicate 41 0) ! 3 = 64 * 12 \<and>
   chase (init_pchase 0x1000 12 sample_mem) 12 0x1000 = 0x1000"
proof -
  have "initialize_sizes (replicate 41 0) ! 3 = 768" using initialize_sizes_nth[of "replicate 41 0" 3] by (simp add: ws_size_def)
  with cache_working_sets[of "replicate 41 0" 3 "0x1000" sample_mem] show ?thesis by simp
qed

text \<open>
  C33: \<open>atol\<close>.  On every NUL-terminated string it returns; and on a string that prints an integer
  below \<open>2^63\<close> in decimal, after white space and with an optional sign, followed by something that
  is not a digit, it returns that integer as a \<open>long\<close>.  From \<open>2^63\<close> on the sum overflows, and nothing
  is claimed of the value.
\<close>

theorem atol_decimal:
  "((\<exists>n. m (p + of_nat n) = 0) \<longrightarrow> (\<exists>r. atol m p = Some r)) \<and>
   (load_bytes m p (length (ws @ sg @ decimal n)) = ws @ sg @ decimal n \<longrightarrow> list_all is_space ws \<longrightarrow>
    sg \<in> {[], [45], [43]} \<longrightarrow> \<not> is_digit (m (p + of_nat (length (ws @ sg @ decimal n)))) \<longrightarrow> n < 2 ^ 63 \<longrightarrow>
    (\<exists>r. atol m p = Some r \<and> sint r = (if sg = [45] then - int n else int n)))"
  using atol_returns[of m p] atol_text[of m p ws sg "decimal n"] decimal_value[of n] sint_of_long[of n] by auto

theorem atol_decimal_witness:
  "load_bytes sample_text 0x100 5 = [32, 45, 52, 50, 0] \<and> (\<exists>r. atol sample_text 0x100 = Some r \<and> sint r = - 42)"
proof -
  have d: "decimal 42 = [52, 50]" by (subst decimal.simps, simp) (subst decimal.simps, simp)
  have l: "load_bytes sample_text 0x100 5 = [32, 45, 52, 50, 0]"
    "load_bytes sample_text 0x100 (length ([32] @ [45] @ [52, 50 :: u8])) = [32] @ [45] @ [52, 50]" by code_simp+
  have "\<not> is_digit (sample_text (0x100 + of_nat (length ([32] @ [45] @ [52, 50 :: u8]))))" by code_simp
  then show ?thesis
    using atol_decimal[of sample_text "0x100" "[32]" "[45]" 42, THEN conjunct2] l unfolding d by (simp add: is_space_def)
qed

text \<open>
  the buckets.  If the samples fit in 32 bits and their range in a positive \<open>int\<close>, bucket \<open>j\<close>
  counts exactly the samples in its interval, the last bucket those above, and every sample is
  counted exactly once, so that the check for a mismatch never fires.
\<close>

lemma bucket_counts:
  assumes "min_max data (push_bit 32 1, 0) = (mn, mx)" "\<forall>x \<in> set data. unat x < 2 ^ 32"
    and "unat (mx - mn + 1) < 2 ^ 31" "0 < nb" "nb < 2 ^ 31" "mn \<le> mx"
  shows "(\<forall>j \<le> nb. bucket_cycles_count data nb ! j =
            of_nat (length (filter (in_bucket mn (bucket_step mn mx nb) nb j) data))) \<and>
         (\<Sum>j \<le> nb. length (filter (in_bucket mn (bucket_step mn mx nb) nb j) data)) = length data"
proof
  let ?st = "bucket_step mn mx nb"
  show "\<forall>j \<le> nb. bucket_cycles_count data nb ! j = of_nat (length (filter (in_bucket mn ?st nb j) data))"
    using bucket_fold_nth[of "replicate (nb + 1) 0" nb _ mn ?st data] assms(1)
    by (simp add: bucket_cycles_count_def nth_append del: replicate_Suc)
  have b: "\<forall>x \<in> set data. mn \<le> x \<and> x \<le> mx" "mn \<le> push_bit 32 1" using min_max_bounds[OF assms(1)] by auto
  then have "unat mn \<le> 2 ^ 32" by (simp add: word_le_nat_alt)
  moreover have "nb * unat ?st \<le> unat (mx - mn + 1)"
    unfolding unat_bucket_step[OF assms(3-5)] by simp
  ultimately have "unat mn + nb * unat ?st < 2 ^ 64" using assms(3) by simp
  then show "(\<Sum>j \<le> nb. length (filter (in_bucket mn ?st nb j) data)) = length data"
    using b(1) by (intro sum_filter_one in_bucket_unique) auto
qed

end
