(* ===== verification/Dhrystone.thy ===== *)
theory Dhrystone
  imports Sample_Device "HOL-Library.Char_ord" "HOL-Library.Monad_Syntax" "HOL-Library.Signed_Division"
begin

text \<open>
  The Dhrystone benchmark of \<open>flexio/bench/compute\<close>, run on a DPA thread.

  The two records of the program live in an explicit store \<open>recs\<close>, because the procedures
  reach them through several pointers at once; a read or a write at an address that holds no
  record, an array index out of range, a string copy that does not fit and a division by zero
  are the value \<open>None\<close>, and so is a loop that does not end.  The C type \<open>int\<close> is a 32-bit word
  that is read with its sign; the \<open>variant\<close> of a record is its first alternative, the only one
  that the program uses.  The values that the C program leaves uninitialised are arguments.
  Printing is left out.
\<close>

subsection \<open>Data\<close>

datatype Enumeration = Ident_1 | Ident_2 | Ident_3 | Ident_4 | Ident_5

record Rec_Type =
  Ptr_Comp :: ptr
  Discr :: Enumeration
  Enum_Comp :: Enumeration
  Int_Comp :: u32
  Str_Comp :: string

record dhry_globals =
  Ptr_Glob :: ptr
  Next_Ptr_Glob :: ptr
  Int_Glob :: u32
  Bool_Glob :: u32
  Ch_1_Glob :: char
  Ch_2_Glob :: char
  Arr_1_Glob :: "u32 list"
  Arr_2_Glob :: "u32 list list"
  recs :: "ptr \<rightharpoonup> Rec_Type"

record dhry_locals =
  Int_1_Loc :: u32
  Int_2_Loc :: u32
  Int_3_Loc :: u32
  Enum_Loc :: Enumeration
  Str_1_Loc :: string
  Str_2_Loc :: string

abbreviation HZ :: int where "HZ \<equiv> 1800000000"
abbreviation Mic_secs_Per_Second :: int where "Mic_secs_Per_Second \<equiv> 1000000"
abbreviation DPA_DHRYSTONE_NUMBER_OF_RUNS :: nat where "DPA_DHRYSTONE_NUMBER_OF_RUNS \<equiv> 500000"

subsection \<open>Arrays, strings and records\<close>

definition get_at :: "'a list \<Rightarrow> u32 \<Rightarrow> 'a option" where
  "get_at xs i = (if 0 \<le> sint i \<and> nat (sint i) < length xs then Some (xs ! nat (sint i)) else None)"

definition set_at :: "'a list \<Rightarrow> u32 \<Rightarrow> 'a \<Rightarrow> 'a list option" where
  "set_at xs i v = (if 0 \<le> sint i \<and> nat (sint i) < length xs then Some (xs[nat (sint i) := v]) else None)"

definition get_at2 :: "'a list list \<Rightarrow> u32 \<Rightarrow> u32 \<Rightarrow> 'a option" where
  "get_at2 xss i j = do { row \<leftarrow> get_at xss i; get_at row j }"

definition set_at2 :: "'a list list \<Rightarrow> u32 \<Rightarrow> u32 \<Rightarrow> 'a \<Rightarrow> 'a list list option" where
  "set_at2 xss i j v = do { row \<leftarrow> get_at xss i; row \<leftarrow> set_at row j v; set_at xss i row }"

abbreviation NUL :: char where "NUL \<equiv> CHR 0x00"

definition strcpy :: "string \<Rightarrow> string \<Rightarrow> string option" where
  "strcpy dst s = (if length s < length dst then Some (s @ NUL # drop (Suc (length s)) dst) else None)"

fun strcmp :: "string \<Rightarrow> string \<Rightarrow> int option" where
  "strcmp (a # as) (b # bs) =
     (if a \<noteq> b then Some (if a < b then - 1 else 1) else if a = NUL then Some 0 else strcmp as bs)"
| "strcmp _ _ = None"

definition upd_rec :: "ptr \<Rightarrow> (Rec_Type \<Rightarrow> Rec_Type) \<Rightarrow> dhry_globals \<Rightarrow> dhry_globals option" where
  "upd_rec p f g = do { r \<leftarrow> recs g p; Some (g\<lparr>recs := (recs g)(p \<mapsto> f r)\<rparr>) }"

subsection \<open>Procedures\<close>

definition Func_3 :: "Enumeration \<Rightarrow> u32" where
  "Func_3 Enum_Par_Val = (if Enum_Par_Val = Ident_3 then 1 else 0)"

text \<open>The value that \<open>Proc_6\<close> and \<open>Proc_7\<close> leave in the variable they are given.\<close>

definition Proc_6 :: "Enumeration \<Rightarrow> u32 \<Rightarrow> Enumeration" where
  "Proc_6 Enum_Val_Par int_glob =
     (let r = (if Func_3 Enum_Val_Par = 0 then Ident_4 else Enum_Val_Par)
      in case Enum_Val_Par of
           Ident_1 \<Rightarrow> Ident_1
         | Ident_2 \<Rightarrow> (if 100 < sint int_glob then Ident_1 else Ident_4)
         | Ident_3 \<Rightarrow> Ident_2
         | Ident_4 \<Rightarrow> r
         | Ident_5 \<Rightarrow> Ident_3)"

definition Proc_7 :: "u32 \<Rightarrow> u32 \<Rightarrow> u32" where
  "Proc_7 Int_1_Par_Val Int_2_Par_Val = (let Int_Loc = Int_1_Par_Val + 2 in Int_2_Par_Val + Int_Loc)"

text \<open>\<open>Proc_3\<close> is given the address of the field \<open>Ptr_Comp\<close> of the record at \<open>p\<close>.\<close>

definition Proc_3 :: "ptr \<Rightarrow> dhry_globals \<Rightarrow> dhry_globals option" where
  "Proc_3 p g = do {
     g \<leftarrow> (if Ptr_Glob g \<noteq> 0
          then do { r \<leftarrow> recs g (Ptr_Glob g); upd_rec p (Ptr_Comp_update (\<lambda>_. Ptr_Comp r)) g }
          else Some g);
     upd_rec (Ptr_Glob g) (Int_Comp_update (\<lambda>_. Proc_7 10 (Int_Glob g))) g }"

definition Proc_1 :: "ptr \<Rightarrow> dhry_globals \<Rightarrow> dhry_globals option" where
  "Proc_1 Ptr_Val_Par g = do {
     r \<leftarrow> recs g Ptr_Val_Par;
     let Next_Record = Ptr_Comp r;
     glob \<leftarrow> recs g (Ptr_Glob g);
     g \<leftarrow> upd_rec (Ptr_Comp r) (\<lambda>_. glob) g;
     g \<leftarrow> upd_rec Ptr_Val_Par (Int_Comp_update (\<lambda>_. 5)) g;
     r \<leftarrow> recs g Ptr_Val_Par;
     g \<leftarrow> upd_rec Next_Record (Int_Comp_update (\<lambda>_. Int_Comp r)) g;
     r \<leftarrow> recs g Ptr_Val_Par;
     g \<leftarrow> upd_rec Next_Record (Ptr_Comp_update (\<lambda>_. Ptr_Comp r)) g;
     g \<leftarrow> Proc_3 Next_Record g;
     n \<leftarrow> recs g Next_Record;
     if Discr n = Ident_1
     then do {
       g \<leftarrow> upd_rec Next_Record (Int_Comp_update (\<lambda>_. 6)) g;
       r \<leftarrow> recs g Ptr_Val_Par;
       g \<leftarrow> upd_rec Next_Record (Enum_Comp_update (\<lambda>_. Proc_6 (Enum_Comp r) (Int_Glob g))) g;
       glob \<leftarrow> recs g (Ptr_Glob g);
       g \<leftarrow> upd_rec Next_Record (Ptr_Comp_update (\<lambda>_. Ptr_Comp glob)) g;
       n \<leftarrow> recs g Next_Record;
       upd_rec Next_Record (Int_Comp_update (\<lambda>_. Proc_7 (Int_Comp n) 10)) g }
     else do {
       r \<leftarrow> recs g Ptr_Val_Par;
       n \<leftarrow> recs g (Ptr_Comp r);
       upd_rec Ptr_Val_Par (\<lambda>_. n) g } }"

text \<open>
  \<open>Proc_2\<close>: \<open>e\<close> is \<open>Enum_Loc\<close>, which the C program does not initialise; \<open>r\<close> is the variable
  that the procedure is given.
\<close>

partial_function (option) proc_2_loop :: "dhry_globals \<Rightarrow> u32 \<Rightarrow> u32 \<Rightarrow> Enumeration \<Rightarrow> u32 option" where
  "proc_2_loop g Int_Loc r e =
     (let (Int_Loc, r, e) =
        (if Ch_1_Glob g = CHR ''A'' then (Int_Loc - 1, Int_Loc - 1 - Int_Glob g, Ident_1) else (Int_Loc, r, e))
      in if e \<noteq> Ident_1 then proc_2_loop g Int_Loc r e else Some r)"

definition Proc_2 :: "Enumeration \<Rightarrow> u32 \<Rightarrow> dhry_globals \<Rightarrow> u32 option" where
  "Proc_2 junk r g = proc_2_loop g (r + 10) r junk"

definition Proc_4 :: "dhry_globals \<Rightarrow> dhry_globals" where
  "Proc_4 g = (let Bool_Loc = (if Ch_1_Glob g = CHR ''A'' then 1 else 0)
               in g\<lparr>Bool_Glob := Bool_Loc OR Bool_Glob g, Ch_2_Glob := CHR ''B''\<rparr>)"

definition Proc_5 :: "dhry_globals \<Rightarrow> dhry_globals" where
  "Proc_5 g = g\<lparr>Ch_1_Glob := CHR ''A'', Bool_Glob := 0\<rparr>"

partial_function (option) proc_8_fill :: "u32 \<Rightarrow> u32 \<Rightarrow> u32 list list \<Rightarrow> u32 list list option" where
  "proc_8_fill Int_Loc Int_Index arr =
     (if sint Int_Index \<le> sint (Int_Loc + 1)
      then do { arr \<leftarrow> set_at2 arr Int_Loc Int_Index Int_Loc; proc_8_fill Int_Loc (Int_Index + 1) arr }
      else Some arr)"

definition Proc_8 :: "u32 list \<Rightarrow> u32 list list \<Rightarrow> u32 \<Rightarrow> u32 \<Rightarrow> dhry_globals \<Rightarrow> (u32 list \<times> u32 list list \<times> dhry_globals) option" where
  "Proc_8 a1 a2 Int_1_Par_Val Int_2_Par_Val g = do {
     let Int_Loc = Int_1_Par_Val + 5;
     a1 \<leftarrow> set_at a1 Int_Loc Int_2_Par_Val;
     v \<leftarrow> get_at a1 Int_Loc;
     a1 \<leftarrow> set_at a1 (Int_Loc + 1) v;
     a1 \<leftarrow> set_at a1 (Int_Loc + 30) Int_Loc;
     a2 \<leftarrow> proc_8_fill Int_Loc Int_Loc a2;
     w \<leftarrow> get_at2 a2 Int_Loc (Int_Loc - 1);
     a2 \<leftarrow> set_at2 a2 Int_Loc (Int_Loc - 1) (w + 1);
     v \<leftarrow> get_at a1 Int_Loc;
     a2 \<leftarrow> set_at2 a2 (Int_Loc + 20) Int_Loc v;
     Some (a1, a2, g\<lparr>Int_Glob := 5\<rparr>) }"

definition Func_1 :: "char \<Rightarrow> char \<Rightarrow> dhry_globals \<Rightarrow> Enumeration \<times> dhry_globals" where
  "Func_1 Ch_1_Par_Val Ch_2_Par_Val g =
     (let Ch_1_Loc = Ch_1_Par_Val; Ch_2_Loc = Ch_1_Loc
      in if Ch_2_Loc \<noteq> Ch_2_Par_Val then (Ident_1, g) else (Ident_2, g\<lparr>Ch_1_Glob := Ch_1_Loc\<rparr>))"

partial_function (option) func_2_loop ::
    "string \<Rightarrow> string \<Rightarrow> u32 \<Rightarrow> char \<Rightarrow> dhry_globals \<Rightarrow> (u32 \<times> char \<times> dhry_globals) option" where
  "func_2_loop s1 s2 Int_Loc Ch_Loc g =
     (if sint Int_Loc \<le> 2
      then do {
        c1 \<leftarrow> get_at s1 Int_Loc;
        c2 \<leftarrow> get_at s2 (Int_Loc + 1);
        let (e, g) = Func_1 c1 c2 g;
        if e = Ident_1 then func_2_loop s1 s2 (Int_Loc + 1) (CHR ''A'') g
        else func_2_loop s1 s2 Int_Loc Ch_Loc g }
      else Some (Int_Loc, Ch_Loc, g))"

definition Func_2 :: "string \<Rightarrow> string \<Rightarrow> char \<Rightarrow> dhry_globals \<Rightarrow> (u32 \<times> dhry_globals) option" where
  "Func_2 s1 s2 junk g = do {
     (Int_Loc, Ch_Loc, g) \<leftarrow> func_2_loop s1 s2 2 junk g;
     let Int_Loc = (if CHR ''W'' \<le> Ch_Loc \<and> Ch_Loc < CHR ''Z'' then 7 else Int_Loc);
     if Ch_Loc = CHR ''R'' then Some (1, g)
     else do {
       c \<leftarrow> strcmp s1 s2;
       if 0 < c then Some (1, g\<lparr>Int_Glob := Int_Loc + 7\<rparr>) else Some (0, g) } }"

subsection \<open>One run, all runs, the benchmark\<close>

partial_function (option) int_loop :: "u32 \<Rightarrow> u32 \<Rightarrow> u32 \<Rightarrow> (u32 \<times> u32) option" where
  "int_loop i1 i2 i3 =
     (if sint i1 < sint i2
      then (let i3 = 5 * i1 - i2; i3 = Proc_7 i1 i2 in int_loop (i1 + 1) i2 i3)
      else Some (i1, i3))"

partial_function (option) ch_loop ::
    "u32 \<Rightarrow> char \<Rightarrow> dhry_locals \<Rightarrow> dhry_globals \<Rightarrow> (dhry_locals \<times> dhry_globals) option" where
  "ch_loop Run_Index Ch_Index l g =
     (if Ch_Index \<le> Ch_2_Glob g
      then do {
        let (e, g) = Func_1 Ch_Index (CHR ''C'') g;
        if Enum_Loc l = e
        then do {
          s2 \<leftarrow> strcpy (Str_2_Loc l) ''DHRYSTONE PROGRAM, 3'RD STRING'';
          ch_loop Run_Index (char_of (of_char Ch_Index + 1 :: nat))
            (l\<lparr>Enum_Loc := Proc_6 Ident_1 (Int_Glob g), Str_2_Loc := s2, Int_2_Loc := Run_Index\<rparr>)
            (g\<lparr>Int_Glob := Run_Index\<rparr>) }
        else ch_loop Run_Index (char_of (of_char Ch_Index + 1 :: nat)) l g }
      else Some (l, g))"

definition div_int :: "u32 \<Rightarrow> u32 \<Rightarrow> u32 option" where
  "div_int a b = (if b = 0 then None else Some (word_of_int (sint a sdiv sint b)))"

definition dhry_run ::
    "char \<Rightarrow> Enumeration \<Rightarrow> u32 \<Rightarrow> dhry_locals \<Rightarrow> dhry_globals \<Rightarrow> (dhry_locals \<times> dhry_globals) option" where
  "dhry_run junk_c junk_e Run_Index l g = do {
     let g = Proc_4 (Proc_5 g);
     s2 \<leftarrow> strcpy (Str_2_Loc l) ''DHRYSTONE PROGRAM, 2'ND STRING'';
     let l = l\<lparr>Int_1_Loc := 2, Int_2_Loc := 3, Str_2_Loc := s2, Enum_Loc := Ident_2\<rparr>;
     (b, g) \<leftarrow> Func_2 (Str_1_Loc l) (Str_2_Loc l) junk_c g;
     let g = g\<lparr>Bool_Glob := (if b = 0 then 1 else 0)\<rparr>;
     (i1, i3) \<leftarrow> int_loop (Int_1_Loc l) (Int_2_Loc l) (Int_3_Loc l);
     let l = l\<lparr>Int_1_Loc := i1, Int_3_Loc := i3\<rparr>;
     (a1, a2, g) \<leftarrow> Proc_8 (Arr_1_Glob g) (Arr_2_Glob g) (Int_1_Loc l) (Int_3_Loc l) g;
     let g = g\<lparr>Arr_1_Glob := a1, Arr_2_Glob := a2\<rparr>;
     g \<leftarrow> Proc_1 (Ptr_Glob g) g;
     (l, g) \<leftarrow> ch_loop Run_Index (CHR ''A'') l g;
     let l = l\<lparr>Int_2_Loc := Int_2_Loc l * Int_1_Loc l\<rparr>;
     i1 \<leftarrow> div_int (Int_2_Loc l) (Int_3_Loc l);
     let l = l\<lparr>Int_1_Loc := i1, Int_2_Loc := 7 * (Int_2_Loc l - Int_3_Loc l) - i1\<rparr>;
     i1 \<leftarrow> Proc_2 junk_e (Int_1_Loc l) g;
     Some (l\<lparr>Int_1_Loc := i1\<rparr>, g) }"

fun dhry_runs ::
    "char \<Rightarrow> Enumeration \<Rightarrow> nat \<Rightarrow> dhry_locals \<Rightarrow> dhry_globals \<Rightarrow> (dhry_locals \<times> dhry_globals) option" where
  "dhry_runs junk_c junk_e 0 l g = Some (l, g)"
| "dhry_runs junk_c junk_e (Suc n) l g = do {
     (l, g) \<leftarrow> dhry_runs junk_c junk_e n l g;
     dhry_run junk_c junk_e (of_nat (Suc n)) l g }"

text \<open>
  The initialisations: \<open>a0\<close> and \<open>a1\<close> are the addresses of the local records \<open>temp0\<close> and \<open>temp1\<close>.
\<close>

definition dhry_start :: "ptr \<Rightarrow> ptr \<Rightarrow> dhry_locals \<Rightarrow> dhry_globals \<Rightarrow> (dhry_locals \<times> dhry_globals) option" where
  "dhry_start a0 a1 l g = do {
     let g = g\<lparr>Next_Ptr_Glob := a0, Ptr_Glob := a1\<rparr>;
     g \<leftarrow> upd_rec (Ptr_Glob g) (Ptr_Comp_update (\<lambda>_. Next_Ptr_Glob g)) g;
     g \<leftarrow> upd_rec (Ptr_Glob g) (Discr_update (\<lambda>_. Ident_1)) g;
     g \<leftarrow> upd_rec (Ptr_Glob g) (Enum_Comp_update (\<lambda>_. Ident_3)) g;
     g \<leftarrow> upd_rec (Ptr_Glob g) (Int_Comp_update (\<lambda>_. 40)) g;
     r \<leftarrow> recs g (Ptr_Glob g);
     s \<leftarrow> strcpy (Str_Comp r) ''DHRYSTONE PROGRAM, SOME STRING'';
     g \<leftarrow> upd_rec (Ptr_Glob g) (Str_Comp_update (\<lambda>_. s)) g;
     s1 \<leftarrow> strcpy (Str_1_Loc l) ''DHRYSTONE PROGRAM, 1'ST STRING'';
     a2 \<leftarrow> set_at2 (Arr_2_Glob g) 8 7 10;
     Some (l\<lparr>Str_1_Loc := s1\<rparr>, g\<lparr>Arr_2_Glob := a2\<rparr>) }"

text \<open>The two numbers that the benchmark reports; \<open>long\<close> is 64 bits wide.\<close>

definition dhry_microseconds :: "u64 \<Rightarrow> nat \<Rightarrow> u64" where
  "dhry_microseconds User_Time n =
     word_of_int (sint (word_of_int ((sint User_Time sdiv int n) * Mic_secs_Per_Second) :: u64) sdiv HZ)"

definition dhry_per_second :: "u64 \<Rightarrow> nat \<Rightarrow> u64 option" where
  "dhry_per_second User_Time n = (if User_Time = 0 then None else Some (word_of_int HZ * of_nat n div User_Time))"

definition dhrystone_bench ::
    "flexio \<Rightarrow> nat \<Rightarrow> char \<Rightarrow> Enumeration \<Rightarrow> ptr \<Rightarrow> ptr \<Rightarrow> dhry_locals \<Rightarrow> dhry_globals \<Rightarrow> dpa \<Rightarrow>
     (u64 \<times> u64 \<times> dhry_locals \<times> dhry_globals \<times> dpa) option" where
  "dhrystone_bench fx Number_Of_Runs junk_c junk_e a0 a1 l g d = do {
     (l, g) \<leftarrow> dhry_start a0 a1 l g;
     let (Begin_Time, d) = read_cycles fx d;
     (l, g) \<leftarrow> dhry_runs junk_c junk_e Number_Of_Runs l g;
     let (End_Time, d) = read_cycles fx d;
     let User_Time = End_Time - Begin_Time;
     let Microseconds = dhry_microseconds User_Time Number_Of_Runs;
     Dhrystones_Per_Second \<leftarrow> dhry_per_second User_Time Number_Of_Runs;
     Some (Microseconds, Dhrystones_Per_Second, l, g, d) }"

text \<open>The entry point on the device, \<open>bench_func\<close>.\<close>

definition bench_func_compute ::
    "flexio \<Rightarrow> char \<Rightarrow> Enumeration \<Rightarrow> ptr \<Rightarrow> ptr \<Rightarrow> dhry_locals \<Rightarrow> dhry_globals \<Rightarrow> dpa \<Rightarrow>
     (u64 \<times> (u64 \<times> u64 \<times> dhry_locals \<times> dhry_globals \<times> dpa)) option" where
  "bench_func_compute fx junk_c junk_e a0 a1 l g d = do {
     r \<leftarrow> dhrystone_bench fx DPA_DHRYSTONE_NUMBER_OF_RUNS junk_c junk_e a0 a1 l g d;
     Some (0, r) }"

subsection \<open>The procedures on the states of a run\<close>

lemma Proc_1_run:
  assumes "Ptr_Glob g = a1" "recs g a1 = Some (Rec_Type.make a0 Ident_1 Ident_3 i s)" "recs g a0 = Some r0"
    and "a0 \<noteq> a1" "a1 \<noteq> 0" "Int_Glob g = 5"
  shows "Proc_1 a1 g = Some (g\<lparr>recs := (recs g)(a1 \<mapsto> Rec_Type.make a0 Ident_1 Ident_3 17 s,
                                             a0 \<mapsto> Rec_Type.make a0 Ident_1 Ident_2 18 s)\<rparr>)"
  using assms by (simp add: Proc_1_def Proc_3_def upd_rec_def Proc_7_def Proc_6_def Func_3_def Rec_Type.make_def)

lemma Proc_2_run: "Ch_1_Glob g = CHR ''A'' \<Longrightarrow> Proc_2 e r g = Some (r + 9 - Int_Glob g)"
  unfolding Proc_2_def by (subst proc_2_loop.simps) simp

lemma proc_8_fill_run:
  "length a2 = 50 \<Longrightarrow> length (a2 ! 8) = 50 \<Longrightarrow> proc_8_fill 8 8 a2 = Some (a2[8 := (a2 ! 8)[8 := 8, 9 := 8]])"
  by (simp add: proc_8_fill.simps set_at2_def get_at_def set_at_def)

lemma Proc_8_run:
  assumes "length a1 = 50" "length a2 = 50" "length (a2 ! 8) = 50" "length (a2 ! 28) = 50"
  shows "Proc_8 a1 a2 3 7 g = Some (a1[8 := 7, 9 := 7, 38 := 8],
           a2[8 := (a2 ! 8)[8 := 8, 9 := 8, 7 := a2 ! 8 ! 7 + 1], 28 := (a2 ! 28)[8 := 7]], g\<lparr>Int_Glob := 5\<rparr>)"
  using assms by (simp add: Proc_8_def proc_8_fill_run get_at2_def set_at2_def get_at_def set_at_def)

lemma Func_2_run:
  "Func_2 (''DHRYSTONE PROGRAM, 1'ST STRING'' @ [NUL]) (''DHRYSTONE PROGRAM, 2'ND STRING'' @ [NUL]) c g = Some (0, g)"
  unfolding Func_2_def by (simp add: func_2_loop.simps get_at_def Func_1_def less_char_def less_eq_char_def)

lemma int_loop_run: "int_loop 2 3 i = Some (3, 7)"
  by (simp add: int_loop.simps Proc_7_def)

lemma next_chars: "char_of (66 :: nat) = CHR ''B''" "char_of (67 :: nat) = CHR ''C''"
  by code_simp+

lemma ch_loop_run:
  "Ch_2_Glob g = CHR ''B'' \<Longrightarrow> Enum_Loc l = Ident_2 \<Longrightarrow> ch_loop k (CHR ''A'') l g = Some (l, g)"
  by (simp add: ch_loop.simps Func_1_def less_eq_char_def next_chars)

subsection \<open>The state between two runs\<close>

text \<open>
  \<open>dhry_inv a0 a1 i k l g\<close> holds after \<open>k\<close> runs, with \<open>i\<close> in the field \<open>Int_Comp\<close> of the first record;
  \<open>dhry_final a0 a1 l g\<close> says that every variable has the value that the benchmark prints after
  the words \<^emph>\<open>should be\<close>.
\<close>

definition dhry_inv :: "ptr \<Rightarrow> ptr \<Rightarrow> u32 \<Rightarrow> nat \<Rightarrow> dhry_locals \<Rightarrow> dhry_globals \<Rightarrow> bool" where
  "dhry_inv a0 a1 i k l g \<longleftrightarrow>
     Ptr_Glob g = a1 \<and> Next_Ptr_Glob g = a0 \<and> length (Arr_1_Glob g) = 50 \<and> length (Arr_2_Glob g) = 50 \<and>
     length (Arr_2_Glob g ! 8) = 50 \<and> length (Arr_2_Glob g ! 28) = 50 \<and>
     Arr_2_Glob g ! 8 ! 7 = of_nat k + 10 \<and>
     recs g a1 = Some (Rec_Type.make a0 Ident_1 Ident_3 i (''DHRYSTONE PROGRAM, SOME STRING'' @ [NUL])) \<and>
     (\<exists>r. recs g a0 = Some r) \<and>
     Str_1_Loc l = ''DHRYSTONE PROGRAM, 1'ST STRING'' @ [NUL] \<and> length (Str_2_Loc l) = 31"

definition dhry_final :: "ptr \<Rightarrow> ptr \<Rightarrow> dhry_locals \<Rightarrow> dhry_globals \<Rightarrow> bool" where
  "dhry_final a0 a1 l g \<longleftrightarrow>
     Int_Glob g = 5 \<and> Bool_Glob g = 1 \<and> Ch_1_Glob g = CHR ''A'' \<and> Ch_2_Glob g = CHR ''B'' \<and> Arr_1_Glob g ! 8 = 7 \<and>
     recs g (Ptr_Glob g) = Some (Rec_Type.make a0 Ident_1 Ident_3 17 (''DHRYSTONE PROGRAM, SOME STRING'' @ [NUL])) \<and>
     recs g (Next_Ptr_Glob g) = Some (Rec_Type.make a0 Ident_1 Ident_2 18 (''DHRYSTONE PROGRAM, SOME STRING'' @ [NUL])) \<and>
     l = dhry_locals.make 5 13 7 Ident_2 (''DHRYSTONE PROGRAM, 1'ST STRING'' @ [NUL]) (''DHRYSTONE PROGRAM, 2'ND STRING'' @ [NUL])"

lemma strcpy_31: "length s = 30 \<Longrightarrow> length d = 31 \<Longrightarrow> strcpy d s = Some (s @ [NUL])"
  by (simp add: strcpy_def)

lemma dhry_run_step:
  assumes "dhry_inv a0 a1 i k l g" "a0 \<noteq> a1" "a1 \<noteq> 0"
  shows "\<exists>l' g'. dhry_run c e x l g = Some (l', g') \<and> dhry_inv a0 a1 17 (Suc k) l' g' \<and> dhry_final a0 a1 l' g'"
  using assms Func_2_run[of c]
  by (auto simp: dhry_inv_def dhry_run_def strcpy_31 Proc_4_def Proc_5_def int_loop_run Proc_8_run Proc_1_run ch_loop_run
      div_int_def Proc_2_run dhry_final_def dhry_locals.make_def)

lemma dhry_runs_final:
  assumes "dhry_inv a0 a1 i k l g" "a0 \<noteq> a1" "a1 \<noteq> 0"
  shows "\<exists>l' g'. dhry_runs c e (Suc n) l g = Some (l', g') \<and> dhry_inv a0 a1 17 (k + Suc n) l' g' \<and> dhry_final a0 a1 l' g'"
proof (induction n)
  case 0
  show ?case using dhry_run_step[OF assms, of c e 1] by simp
next
  case (Suc n)
  then obtain l' g' where g: "dhry_runs c e (Suc n) l g = Some (l', g')" "dhry_inv a0 a1 17 (k + Suc n) l' g'" by blast
  then show ?case using dhry_run_step[OF g(2) assms(2,3), of c e "of_nat (Suc (Suc n))"] by simp
qed

lemma dhry_start_inv:
  assumes "a0 \<noteq> a1" "recs g a0 = Some r0" "recs g a1 = Some r1" "length (Str_Comp r1) = 31"
    and "length (Str_1_Loc l) = 31" "length (Str_2_Loc l) = 31"
    and "length (Arr_1_Glob g) = 50" "length (Arr_2_Glob g) = 50" "\<forall>row \<in> set (Arr_2_Glob g). length row = 50"
  shows "\<exists>l' g'. dhry_start a0 a1 l g = Some (l', g') \<and> dhry_inv a0 a1 40 0 l' g'"
proof -
  have "length (Arr_2_Glob g ! 8) = 50" "length (Arr_2_Glob g ! 28) = 50" using assms(8,9) by auto
  then show ?thesis
    using assms by (simp add: dhry_start_def dhry_inv_def upd_rec_def strcpy_31 set_at2_def get_at_def set_at_def Rec_Type.make_def)
qed

subsection \<open>The reported numbers\<close>

lemma sdiv_nonneg: "0 \<le> a \<Longrightarrow> 0 \<le> b \<Longrightarrow> a sdiv b = a div (b :: int)"
  by (simp add: signed_divide_int_def sgn_if)

lemma sint_of_nat_small: "k < 2 ^ 63 \<Longrightarrow> sint (word_of_int (int k) :: u64) = int k"
  by transfer (simp add: signed_take_bit_int_eq_self)

lemma dhry_microseconds_exact:
  assumes "unat t < 2 ^ 63" "unat t div n * 1000000 < 2 ^ 63"
  shows "unat (dhry_microseconds t n) = unat t div n * 1000000 div 1800000000"
proof -
  obtain q where q: "q = unat t div n * 1000000" by blast
  have "sint t = int (unat t)" using sint_of_nat_small[OF assms(1)] by simp
  then have "sint t sdiv int n * Mic_secs_Per_Second = int q" unfolding q by (simp add: sdiv_nonneg zdiv_int)
  moreover have "sint (word_of_int (int q) :: u64) = int q" using sint_of_nat_small assms(2) q by blast
  moreover have "int q sdiv HZ = int (q div 1800000000)" by (simp add: sdiv_nonneg zdiv_int)
  ultimately have "dhry_microseconds t n = of_nat (q div 1800000000)" unfolding dhry_microseconds_def by (simp only: of_int_of_nat_eq)
  moreover have "q div 1800000000 < 2 ^ 64" using assms(2) unfolding q[symmetric] by (simp add: div_less_dividend)
  ultimately show ?thesis unfolding q[symmetric] by (simp add: unat_of_nat)
qed

lemma dhry_per_second_exact:
  assumes "t \<noteq> 0" "1800000000 * n < 2 ^ 64"
  shows "\<exists>r. dhry_per_second t n = Some r \<and> unat r = 1800000000 * n div unat t"
proof -
  have "unat (word_of_int HZ * of_nat n :: u64) = 1800000000 * n" using assms(2) by (simp add: unat_word_ariths unat_of_nat)
  then show ?thesis using assms(1) by (simp add: dhry_per_second_def unat_div)
qed

subsection \<open>A concrete start\<close>

definition sample_dhry_locals :: dhry_locals where
  "sample_dhry_locals = dhry_locals.make 0 0 0 Ident_5 (replicate 31 NUL) (replicate 31 NUL)"

definition sample_rec :: Rec_Type where
  "sample_rec = Rec_Type.make 0 Ident_5 Ident_5 0 (replicate 31 NUL)"

definition sample_dhry_globals :: dhry_globals where
  "sample_dhry_globals = dhry_globals.make 0 0 0 0 NUL NUL (replicate 50 0) (replicate 50 (replicate 50 0))
     [0x1000 \<mapsto> sample_rec, 0x2000 \<mapsto> sample_rec]"

subsection \<open>Properties\<close>

text \<open>
  C25: Dhrystone.  Whatever the uninitialised variables hold, every loop of the benchmark ends and
  no access is out of range; after at least one run all the variables have the values that the
  benchmark announces, the element of the second array is the number of runs plus ten, and
  the reported rate and time are the exact quotients when nothing overflows.
\<close>

theorem dhrystone_values:
  assumes "0 < n" "a0 \<noteq> a1" "a1 \<noteq> 0" "recs g a0 = Some r0" "recs g a1 = Some r1" "length (Str_Comp r1) = 31"
    and "length (Str_1_Loc l) = 31" "length (Str_2_Loc l) = 31"
    and "length (Arr_1_Glob g) = 50" "length (Arr_2_Glob g) = 50" "\<forall>row \<in> set (Arr_2_Glob g). length row = 50"
    and "t = thread_cycles fx (Suc (clk d)) - thread_cycles fx (clk d)" "t \<noteq> 0" "unat t < 2 ^ 63" "unat t div n * 1000000 < 2 ^ 63" "1800000000 * n < 2 ^ 64"
  shows "\<exists>us ps l' g' d'. dhrystone_bench fx n c e a0 a1 l g d = Some (us, ps, l', g', d') \<and>
           dhry_final a0 a1 l' g' \<and> Arr_2_Glob g' ! 8 ! 7 = of_nat n + 10 \<and>
           unat us = unat t div n * 1000000 div 1800000000 \<and> unat ps = 1800000000 * n div unat t"
proof -
  obtain l0 g0 where s: "dhry_start a0 a1 l g = Some (l0, g0)" "dhry_inv a0 a1 40 0 l0 g0"
    using dhry_start_inv[OF assms(2,4-11)] by blast
  obtain k where n: "n = Suc k" using assms(1) by (cases n) auto
  obtain l' g' where r: "dhry_runs c e n l0 g0 = Some (l', g')" "dhry_inv a0 a1 17 n l' g'" "dhry_final a0 a1 l' g'"
    using dhry_runs_final[OF s(2) assms(2,3), of c e k] unfolding n by auto
  obtain ps where p: "dhry_per_second t n = Some ps" "unat ps = 1800000000 * n div unat t"
    using dhry_per_second_exact[OF assms(13,16)] by blast
  show ?thesis
    using s(1) r p dhry_microseconds_exact[OF assms(14,15)]
    by (simp add: dhrystone_bench_def read_cycles_def assms(12) dhry_inv_def)
qed

theorem dhrystone_values_witness:
  "\<exists>us ps l' g' d'. dhrystone_bench sample_fx DPA_DHRYSTONE_NUMBER_OF_RUNS NUL Ident_5 0x1000 0x2000 sample_dhry_locals sample_dhry_globals sample_dpa =
       Some (us, ps, l', g', d') \<and> Arr_2_Glob g' ! 8 ! 7 = 500010"
proof -
  have t: "25 = thread_cycles sample_fx (Suc (clk sample_dpa)) - thread_cycles sample_fx (clk sample_dpa)" by code_simp
  have g: "recs sample_dhry_globals 0x1000 = Some sample_rec" "recs sample_dhry_globals 0x2000 = Some sample_rec"
    "length (Str_Comp sample_rec) = 31" "length (Str_1_Loc sample_dhry_locals) = 31" "length (Str_2_Loc sample_dhry_locals) = 31"
    "length (Arr_1_Glob sample_dhry_globals) = 50" "length (Arr_2_Glob sample_dhry_globals) = 50"
    "\<forall>row \<in> set (Arr_2_Glob sample_dhry_globals). length row = 50"
    by (simp_all add: sample_dhry_globals_def sample_dhry_locals_def dhry_globals.make_def dhry_locals.make_def Rec_Type.make_def sample_rec_def)
  show ?thesis
    using dhrystone_values[of 500000 "0x1000" "0x2000", OF _ _ _ g t, of NUL Ident_5] by auto
qed

end
