(* ===== verification/Host_Prelude.thy ===== *)
theory Host_Prelude
  imports Dpa_Prelude
begin

text \<open>
  Prelude of the host programs: the results of the DOCA functions, and statements that may
  return early.  An attempt maps a state to a result and the next state; \<open>then_try\<close> is a
  statement followed by \<open>if (result != DOCA_SUCCESS) return result\<close>, \<open>try_all\<close> a sequence or a loop of
  such statements, \<open>on_error\<close> a statement whose failure runs a cleanup before it returns.

  \<open>PROGRAM_ABORT\<close> is not a value of \<open>doca_error_t\<close>: it stands for a failed \<open>assert\<close>, after which no
  cleanup runs.
\<close>

datatype doca_error =
  DOCA_SUCCESS | DOCA_ERROR_INVALID_VALUE | DOCA_ERROR_DRIVER | DOCA_ERROR_NOT_FOUND | PROGRAM_ABORT

type_synonym 's attempt = "'s \<Rightarrow> doca_error \<times> 's"

definition ok :: "'s attempt" where
  "ok st = (DOCA_SUCCESS, st)"

definition then_try :: "'s attempt \<Rightarrow> 's attempt \<Rightarrow> 's attempt" where
  "then_try s t st = (case s st of (DOCA_SUCCESS, st') \<Rightarrow> t st' | (e, st') \<Rightarrow> (e, st'))"

primrec try_all :: "'s attempt list \<Rightarrow> 's attempt" where
  "try_all [] = ok"
| "try_all (s # ss) = then_try s (try_all ss)"

definition on_error :: "'s attempt \<Rightarrow> ('s \<Rightarrow> 's) \<Rightarrow> 's attempt" where
  "on_error s cleanup st =
     (case s st of (e, st') \<Rightarrow> if e \<in> {DOCA_SUCCESS, PROGRAM_ABORT} then (e, st') else (e, cleanup st'))"

lemma then_try_ok [simp]: "then_try ok s = s" "then_try s ok = s"
  by (auto simp: then_try_def ok_def fun_eq_iff split: prod.splits doca_error.splits)

lemma then_try_assoc [simp]: "then_try (then_try s t) u = then_try s (then_try t u)"
  by (auto simp: then_try_def fun_eq_iff split: prod.splits doca_error.splits)

lemma try_all_append: "try_all (xs @ ys) = then_try (try_all xs) (try_all ys)"
  by (induction xs) auto

lemma try_all_concat: "try_all (map (\<lambda>x. try_all (f x)) xs) = try_all (concat (map f xs))"
  by (induction xs) (auto simp: try_all_append)

lemma then_try_cases:
  assumes "then_try s t st = (r, st')"
  obtains (first) "s st = (r, st')" "r \<noteq> DOCA_SUCCESS"
  | (second) st1 where "s st = (DOCA_SUCCESS, st1)" "t st1 = (r, st')"
  using assms by (auto simp: then_try_def split: prod.splits doca_error.splits)

lemma on_error_cases:
  assumes "on_error s cleanup st = (r, st')"
  obtains (kept) "s st = (r, st')" "r = DOCA_SUCCESS \<or> r = PROGRAM_ABORT"
  | (cleaned) st1 where "s st = (r, st1)" "st' = cleanup st1" "r \<noteq> DOCA_SUCCESS" "r \<noteq> PROGRAM_ABORT"
  using assms by (auto simp: on_error_def split: prod.splits if_splits)

end
