(* ===== verification/Offload_Rules.thy ===== *)
theory Offload_Rules
  imports Host_Prelude
begin

text \<open>
  The steering rules of the host programs, \<open>utils/dpdk/offload_rules.h\<close> and \<open>.c\<close>: which rules are
  given to the card, in which order and with which attributes, where their handles are kept,
  what happens when the driver refuses one, and how the counters are summed up.

  The flow library of DPDK is the parameter \<open>rte\<close> of type \<open>rte_flow\<close>.  A driver has a state that
  the sources do not show, so its answers may depend on all earlier calls, which the state
  \<open>sft_state\<close> records in \<open>calls\<close>.  A handle is a 64-bit pointer, \<open>0\<close> for \<open>NULL\<close>.  The configuration of
  an RSS action is passed through unread; it is a value of a type variable.  Logging is left out.
\<close>

subsection \<open>Constants\<close>

abbreviation GROUP_POST_SFT :: u32 where "GROUP_POST_SFT \<equiv> 1001"
abbreviation INITIAL_GROUP :: u32 where "INITIAL_GROUP \<equiv> 0"
abbreviation SFT_PORTS_NUM :: nat where "SFT_PORTS_NUM \<equiv> 2"
abbreviation SFT_IP_VERSIONS_NUM :: nat where "SFT_IP_VERSIONS_NUM \<equiv> 2"
abbreviation SFT_IP_PROTOCOLS_NUM :: nat where "SFT_IP_PROTOCOLS_NUM \<equiv> 2"
abbreviation SFT_POST_RULES_NUM :: nat where "SFT_POST_RULES_NUM \<equiv> 2"
abbreviation SET_STATE_PRIORITY :: u32 where "SET_STATE_PRIORITY \<equiv> 0"
abbreviation SFT_TO_RSS_PRIORITY :: u32 where "SFT_TO_RSS_PRIORITY \<equiv> 1"
abbreviation FRAG_PRIORITY :: u32 where "FRAG_PRIORITY \<equiv> 0"
abbreviation JUMP_TO_SFT_PRIORITY :: u32 where "JUMP_TO_SFT_PRIORITY \<equiv> 1"
abbreviation HAIRPIN_NON_L4_PRIORITY :: u32 where "HAIRPIN_NON_L4_PRIORITY \<equiv> 3"
abbreviation HAIRPIN_MATCHED_FLOW :: u8 where "HAIRPIN_MATCHED_FLOW \<equiv> 1"
abbreviation DROP_FLOW :: u8 where "DROP_FLOW \<equiv> 2"

definition RULE_INDX :: "nat \<Rightarrow> nat \<Rightarrow> nat \<Rightarrow> nat" where
  "RULE_INDX port_id ip_ver l4_proto = port_id + 2 * ((2 * ip_ver) + l4_proto)"

subsection \<open>Configuration, rules and driver\<close>

record application_port_config =
  nb_ports :: int
  nb_queues :: int
  nb_hairpin_q :: int
  enable_mbuf_metadata :: bool
  self_hairpin :: bool
  rss_support :: bool
  lpbk_support :: bool
  isolated_mode :: bool

record application_sft_config =
  sft_enable :: bool
  enable_ct :: bool
  enable_frag :: bool
  enable_state_hairpin :: bool
  enable_state_drop :: bool

record application_dpdk_config =
  port_config :: application_port_config
  sft_config :: application_sft_config
  reserve_main_thread :: bool
  mbuf_pool :: u64

datatype item_type = ITEM_ETH | ITEM_IPV4 | ITEM_IPV6 | ITEM_UDP | ITEM_TCP | ITEM_SFT | ITEM_END

datatype item_conf = Conf_sft bool u8 | Conf_ipv4 u16 | Conf_ipv6 bool

record rte_flow_item =
  item_kind :: item_type
  spec :: "item_conf option"
  last_conf :: "item_conf option"
  mask_conf :: "item_conf option"

datatype 'rss rte_flow_action = ACTION_COUNT | ACTION_RSS 'rss | ACTION_DROP | ACTION_SFT u16 | ACTION_JUMP u32 | ACTION_END

record rte_flow_attr =
  ingress :: bool
  priority :: u32
  group :: u32

record 'rss flow_rule =
  rule_port :: nat
  rule_attr :: rte_flow_attr
  rule_pattern :: "rte_flow_item list"
  rule_action :: "'rss rte_flow_action list"

datatype 'rss flow_call = Validate "'rss flow_rule" | Create "'rss flow_rule"

record 'rss rte_flow =
  rte_flow_validate :: "'rss flow_call list \<Rightarrow> 'rss flow_rule \<Rightarrow> int"
  rte_flow_create :: "'rss flow_call list \<Rightarrow> 'rss flow_rule \<Rightarrow> u64"
  rte_cpu_to_be_16 :: "u16 \<Rightarrow> u16"

record application_rules =
  set_jump_to_sft_action :: "u64 list"
  query_hairpin :: "u64 list"
  rss_non_state :: "u64 list"
  hairpin_non_l4 :: "u64 list"
  forward_fragments :: "u64 list"
  hairpin_fragments :: "u64 list"

record 'rss sft_state =
  app_rules :: application_rules
  calls :: "'rss flow_call list"

text \<open>The structure filled with zeros.\<close>

definition no_rules :: application_rules where
  "no_rules = \<lparr>set_jump_to_sft_action = replicate (SFT_PORTS_NUM * SFT_IP_PROTOCOLS_NUM * SFT_IP_VERSIONS_NUM) 0,
               query_hairpin = replicate (SFT_PORTS_NUM * SFT_POST_RULES_NUM) 0,
               rss_non_state = replicate SFT_PORTS_NUM 0, hairpin_non_l4 = replicate SFT_PORTS_NUM 0,
               forward_fragments = replicate (SFT_PORTS_NUM * SFT_IP_VERSIONS_NUM * SFT_IP_PROTOCOLS_NUM) 0,
               hairpin_fragments = replicate (SFT_PORTS_NUM * SFT_IP_VERSIONS_NUM * SFT_IP_PROTOCOLS_NUM) 0\<rparr>"

definition supported_ip_versions :: "item_type list" where "supported_ip_versions = [ITEM_IPV4, ITEM_IPV6]"
definition supported_l4_protocols :: "item_type list" where "supported_l4_protocols = [ITEM_UDP, ITEM_TCP]"

subsection \<open>One rule\<close>

text \<open>
  The end of every function that makes a rule: validate, create, write \<open>*out_rule\<close>.  \<open>upd\<close> is
  the array that \<open>out_rule\<close> points into and \<open>i\<close> the index.  A refused creation writes \<open>NULL\<close>.
\<close>

type_synonym array_upd = "(u64 list \<Rightarrow> u64 list) \<Rightarrow> application_rules \<Rightarrow> application_rules"

definition validate_and_create ::
    "'rss rte_flow \<Rightarrow> 'rss flow_rule \<Rightarrow> array_upd \<Rightarrow> nat \<Rightarrow> 'rss sft_state \<Rightarrow> doca_error \<times> 'rss sft_state" where
  "validate_and_create rte rule upd i st =
     (let ret = rte_flow_validate rte (calls st) rule;
          st = st\<lparr>calls := calls st @ [Validate rule]\<rparr>
      in if ret \<noteq> 0 then (DOCA_ERROR_DRIVER, st)
         else let out_rule = rte_flow_create rte (calls st) rule;
                  st = st\<lparr>calls := calls st @ [Create rule], app_rules := upd (\<lambda>xs. xs[i := out_rule]) (app_rules st)\<rparr>
              in (if out_rule \<noteq> 0 then DOCA_SUCCESS else DOCA_ERROR_DRIVER, st))"

abbreviation plain_item :: "item_type \<Rightarrow> rte_flow_item" where
  "plain_item k \<equiv> \<lparr>item_kind = k, spec = None, last_conf = None, mask_conf = None\<rparr>"

text \<open>The rules; each definition is named after the function that builds it.\<close>

definition post_sft_rule :: "nat \<Rightarrow> 'rss \<Rightarrow> u8 \<Rightarrow> 'rss flow_rule" where
  "post_sft_rule port_id action_rss sft_state =
     \<lparr>rule_port = port_id,
      rule_attr = \<lparr>ingress = True, priority = SET_STATE_PRIORITY, group = GROUP_POST_SFT\<rparr>,
      rule_pattern = [\<lparr>item_kind = ITEM_SFT, spec = Some (Conf_sft True sft_state), last_conf = None,
                        mask_conf = Some (Conf_sft True sft_state)\<rparr>, plain_item ITEM_END],
      rule_action = [ACTION_COUNT, if sft_state = DROP_FLOW then ACTION_DROP else ACTION_RSS action_rss, ACTION_END]\<rparr>"

definition create_rule_post_sft where
  "create_rule_post_sft rte port_id action_rss sft_state = validate_and_create rte (post_sft_rule port_id action_rss sft_state)"

definition forward_to_sft_rule :: "nat \<Rightarrow> rte_flow_item list \<Rightarrow> u32 \<Rightarrow> 'rss flow_rule" where
  "forward_to_sft_rule port_id pattern prio =
     \<lparr>rule_port = port_id,
      rule_attr = \<lparr>ingress = True, priority = prio, group = INITIAL_GROUP\<rparr>,
      rule_pattern = pattern,
      rule_action = [ACTION_COUNT, ACTION_SFT 0xcafe, ACTION_JUMP GROUP_POST_SFT, ACTION_END]\<rparr>"

definition create_rule_forward_to_sft_by_pattern where
  "create_rule_forward_to_sft_by_pattern rte port_id pattern prio =
     validate_and_create rte (forward_to_sft_rule port_id pattern prio)"

definition l4_pattern :: "item_type \<Rightarrow> item_type \<Rightarrow> rte_flow_item list" where
  "l4_pattern l3_protocol l4_protocol =
     [plain_item ITEM_ETH, plain_item l3_protocol, plain_item l4_protocol, plain_item ITEM_END]"

definition create_rule_forward_l4_to_sft where
  "create_rule_forward_l4_to_sft rte port_id l3_protocol l4_protocol =
     create_rule_forward_to_sft_by_pattern rte port_id (l4_pattern l3_protocol l4_protocol) JUMP_TO_SFT_PRIORITY"

definition frag_pattern :: "(u16 \<Rightarrow> u16) \<Rightarrow> item_type \<Rightarrow> item_type \<Rightarrow> rte_flow_item list" where
  "frag_pattern to_be16 l3_protocol l4_protocol =
     (let ipv6_spec_and_mask = Conf_ipv6 True;
          ipv4_spec = Conf_ipv4 (to_be16 1);
          ipv4_mask_and_last = Conf_ipv4 (to_be16 0x3fff);
          ipv4_opt = \<lparr>item_kind = ITEM_IPV4, spec = Some ipv4_spec, last_conf = Some ipv4_mask_and_last,
                      mask_conf = Some ipv4_mask_and_last\<rparr>;
          ipv6_opt = \<lparr>item_kind = ITEM_IPV6, spec = Some ipv6_spec_and_mask, last_conf = None,
                      mask_conf = Some ipv6_spec_and_mask\<rparr>
      in [plain_item ITEM_ETH, if l3_protocol = ITEM_IPV4 then ipv4_opt else ipv6_opt, plain_item l4_protocol, plain_item ITEM_END])"

definition create_rule_forward_fragments_to_sft where
  "create_rule_forward_fragments_to_sft rte port_id l3_protocol l4_protocol =
     create_rule_forward_to_sft_by_pattern rte port_id (frag_pattern (rte_cpu_to_be_16 rte) l3_protocol l4_protocol) FRAG_PRIORITY"

definition rss_rule :: "nat \<Rightarrow> 'rss \<Rightarrow> rte_flow_attr \<Rightarrow> rte_flow_item list \<Rightarrow> 'rss flow_rule" where
  "rss_rule port_id action_rss attr pattern =
     \<lparr>rule_port = port_id, rule_attr = attr, rule_pattern = pattern,
      rule_action = [ACTION_COUNT, ACTION_RSS action_rss, ACTION_END]\<rparr>"

definition create_rule_action_rss where
  "create_rule_action_rss rte port_id action_rss attr pattern =
     validate_and_create rte (rss_rule port_id action_rss attr pattern)"

definition eth_pattern :: "rte_flow_item list" where
  "eth_pattern = [plain_item ITEM_ETH, plain_item ITEM_END]"

definition create_rule_action_eth_rss where
  "create_rule_action_eth_rss rte port_id action_rss attr = create_rule_action_rss rte port_id action_rss attr eth_pattern"

definition create_rule_hairpin_fragments where
  "create_rule_hairpin_fragments rte port_id l3_protocol l4_protocol action_rss =
     create_rule_action_rss rte port_id action_rss \<lparr>ingress = True, priority = FRAG_PRIORITY, group = INITIAL_GROUP\<rparr>
       (frag_pattern (rte_cpu_to_be_16 rte) l3_protocol l4_protocol)"

definition create_rule_hairpin_non_l4 where
  "create_rule_hairpin_non_l4 rte port_id action_rss =
     create_rule_action_eth_rss rte port_id action_rss \<lparr>ingress = True, priority = HAIRPIN_NON_L4_PRIORITY, group = INITIAL_GROUP\<rparr>"

definition create_rule_rss_post_sft where
  "create_rule_rss_post_sft rte port_id action_rss =
     create_rule_action_eth_rss rte port_id action_rss \<lparr>ingress = True, priority = SFT_TO_RSS_PRIORITY, group = GROUP_POST_SFT\<rparr>"

subsection \<open>All rules\<close>

text \<open>The two inner loops over the IP versions and the transport protocols.\<close>

definition ip_l4_loop :: "(nat \<Rightarrow> nat \<Rightarrow> 'rss sft_state attempt) \<Rightarrow> 'rss sft_state attempt" where
  "ip_l4_loop body =
     try_all (map (\<lambda>v. try_all (map (body v) [0..<SFT_IP_PROTOCOLS_NUM])) [0..<SFT_IP_VERSIONS_NUM])"

definition port_rules ::
    "'rss rte_flow \<Rightarrow> application_sft_config \<Rightarrow> 'rss \<Rightarrow> 'rss \<Rightarrow> nat \<Rightarrow> 'rss sft_state attempt" where
  "port_rules rte sc action_rss action_rss_hairpin port_id =
     try_all
      [ip_l4_loop (\<lambda>v p. create_rule_forward_l4_to_sft rte port_id (supported_ip_versions ! v) (supported_l4_protocols ! p)
         set_jump_to_sft_action_update (RULE_INDX port_id v p)),
       create_rule_rss_post_sft rte port_id action_rss rss_non_state_update port_id,
       create_rule_hairpin_non_l4 rte port_id action_rss_hairpin hairpin_non_l4_update port_id,
       (if enable_state_hairpin sc
        then create_rule_post_sft rte port_id action_rss_hairpin HAIRPIN_MATCHED_FLOW query_hairpin_update port_id
        else ok),
       (if enable_state_drop sc
        then create_rule_post_sft rte port_id action_rss_hairpin DROP_FLOW query_hairpin_update (port_id + 2)
        else ok),
       (if enable_frag sc
        then ip_l4_loop (\<lambda>v p. create_rule_forward_fragments_to_sft rte port_id (supported_ip_versions ! v) (supported_l4_protocols ! p)
               forward_fragments_update (RULE_INDX port_id v p))
        else ip_l4_loop (\<lambda>v p. create_rule_hairpin_fragments rte port_id (supported_ip_versions ! v) (supported_l4_protocols ! p)
               action_rss_hairpin hairpin_fragments_update (RULE_INDX port_id v p)))]"

text \<open>\<open>nb_ports\<close> is read into a \<open>uint8_t\<close>.\<close>

definition create_rules_sft_offload ::
    "'rss rte_flow \<Rightarrow> application_dpdk_config \<Rightarrow> 'rss \<Rightarrow> 'rss \<Rightarrow> 'rss sft_state attempt" where
  "create_rules_sft_offload rte cfg action_rss action_rss_hairpin st =
     (let n = unat (word_of_int (nb_ports (port_config cfg)) :: u8)
      in if SFT_PORTS_NUM < n then (DOCA_ERROR_INVALID_VALUE, st)
         else try_all (map (port_rules rte (sft_config cfg) action_rss action_rss_hairpin) [0..<n]) (st\<lparr>app_rules := no_rules\<rparr>))"

subsection \<open>Counters\<close>

record counter_totals =
  total_ingress :: u64
  total_rss :: u64
  total_dropped :: u64
  total_egress :: u64
  total_ingress_non_l4 :: u64
  total_fragments :: u64

definition no_totals :: counter_totals where
  "no_totals = \<lparr>total_ingress = 0, total_rss = 0, total_dropped = 0, total_egress = 0, total_ingress_non_l4 = 0, total_fragments = 0\<rparr>"

text \<open>
  \<open>query port_id rule\<close> stands for \<open>rte_flow_query\<close>: the number of hits, or \<open>None\<close> if it fails.
\<close>

definition query_rules ::
    "(nat \<Rightarrow> u64 \<Rightarrow> u64 option) \<Rightarrow> u64 list \<Rightarrow> (nat \<Rightarrow> u64 \<Rightarrow> counter_totals \<Rightarrow> counter_totals) \<Rightarrow> nat \<Rightarrow> counter_totals \<Rightarrow> counter_totals" where
  "query_rules query rules add n t =
     fold (\<lambda>flow_i t. case query (flow_i mod 2) (rules ! flow_i) of None \<Rightarrow> t | Some hits \<Rightarrow> add flow_i hits t) [0..<n] t"

definition print_offload_rules_counter :: "(nat \<Rightarrow> u64 \<Rightarrow> u64 option) \<Rightarrow> application_rules \<Rightarrow> counter_totals" where
  "print_offload_rules_counter query ar =
     (let t = query_rules query (set_jump_to_sft_action ar) (\<lambda>_ h t. t\<lparr>total_ingress := total_ingress t + h\<rparr>) 8 no_totals;
          t = query_rules query (hairpin_non_l4 ar)
                (\<lambda>_ h t. t\<lparr>total_ingress := total_ingress t + h, total_ingress_non_l4 := total_ingress_non_l4 t + h\<rparr>) 2 t;
          t = query_rules (\<lambda>p r. if r = 0 then None else query p r) (query_hairpin ar)
                (\<lambda>i h t. if i < 2 then t\<lparr>total_egress := total_egress t + h\<rparr> else t\<lparr>total_dropped := total_dropped t + h\<rparr>) 4 t;
          t = query_rules query (rss_non_state ar) (\<lambda>_ h t. t\<lparr>total_rss := total_rss t + h\<rparr>) 2 t;
          t = (if forward_fragments ar ! 0 \<noteq> 0
               then query_rules query (forward_fragments ar)
                      (\<lambda>_ h t. t\<lparr>total_fragments := total_fragments t + h, total_ingress := total_ingress t + h\<rparr>) 8 t
               else t)
      in if hairpin_fragments ar ! 0 \<noteq> 0
         then query_rules query (hairpin_fragments ar)
                (\<lambda>_ h t. t\<lparr>total_fragments := total_fragments t + h, total_egress := total_egress t + h\<rparr>) 8 t
         else t)"

subsection \<open>The list of rules\<close>

text \<open>
  What the nested loops come down to: a list of slots, each with the rule whose handle it keeps.
\<close>

datatype slot = Jump nat | Query nat | Rss nat | Non_l4 nat | Forward nat | Hairpin nat

fun slot_index :: "slot \<Rightarrow> nat" where
  "slot_index (Jump i) = i" | "slot_index (Query i) = i" | "slot_index (Rss i) = i"
| "slot_index (Non_l4 i) = i" | "slot_index (Forward i) = i" | "slot_index (Hairpin i) = i"

fun slot_array :: "slot \<Rightarrow> application_rules \<Rightarrow> u64 list" where
  "slot_array (Jump _) = set_jump_to_sft_action" | "slot_array (Query _) = query_hairpin"
| "slot_array (Rss _) = rss_non_state" | "slot_array (Non_l4 _) = hairpin_non_l4"
| "slot_array (Forward _) = forward_fragments" | "slot_array (Hairpin _) = hairpin_fragments"

fun slot_update :: "slot \<Rightarrow> array_upd" where
  "slot_update (Jump _) = set_jump_to_sft_action_update" | "slot_update (Query _) = query_hairpin_update"
| "slot_update (Rss _) = rss_non_state_update" | "slot_update (Non_l4 _) = hairpin_non_l4_update"
| "slot_update (Forward _) = forward_fragments_update" | "slot_update (Hairpin _) = hairpin_fragments_update"

definition slot_ok :: "slot \<Rightarrow> application_rules \<Rightarrow> bool" where
  "slot_ok s ar \<longleftrightarrow> slot_index s < length (slot_array s ar)"

definition handle :: "slot \<Rightarrow> application_rules \<Rightarrow> u64" where
  "handle s ar = slot_array s ar ! slot_index s"

definition ip_l4_rules :: "(nat \<Rightarrow> slot) \<Rightarrow> nat \<Rightarrow> (item_type \<Rightarrow> item_type \<Rightarrow> 'rss flow_rule) \<Rightarrow> (slot \<times> 'rss flow_rule) list" where
  "ip_l4_rules slot p rule =
     [(slot p, rule ITEM_IPV4 ITEM_UDP), (slot (p + 2), rule ITEM_IPV4 ITEM_TCP),
      (slot (p + 4), rule ITEM_IPV6 ITEM_UDP), (slot (p + 6), rule ITEM_IPV6 ITEM_TCP)]"

definition port_rule_list ::
    "'rss rte_flow \<Rightarrow> application_sft_config \<Rightarrow> 'rss \<Rightarrow> 'rss \<Rightarrow> nat \<Rightarrow> (slot \<times> 'rss flow_rule) list" where
  "port_rule_list rte sc rss hairpin p =
     ip_l4_rules Jump p (\<lambda>l3 l4. forward_to_sft_rule p (l4_pattern l3 l4) JUMP_TO_SFT_PRIORITY) @
     [(Rss p, rss_rule p rss \<lparr>ingress = True, priority = SFT_TO_RSS_PRIORITY, group = GROUP_POST_SFT\<rparr> eth_pattern),
      (Non_l4 p, rss_rule p hairpin \<lparr>ingress = True, priority = HAIRPIN_NON_L4_PRIORITY, group = INITIAL_GROUP\<rparr> eth_pattern)] @
     (if enable_state_hairpin sc then [(Query p, post_sft_rule p hairpin HAIRPIN_MATCHED_FLOW)] else []) @
     (if enable_state_drop sc then [(Query (p + 2), post_sft_rule p hairpin DROP_FLOW)] else []) @
     (if enable_frag sc
      then ip_l4_rules Forward p (\<lambda>l3 l4. forward_to_sft_rule p (frag_pattern (rte_cpu_to_be_16 rte) l3 l4) FRAG_PRIORITY)
      else ip_l4_rules Hairpin p (\<lambda>l3 l4. rss_rule p hairpin \<lparr>ingress = True, priority = FRAG_PRIORITY, group = INITIAL_GROUP\<rparr>
             (frag_pattern (rte_cpu_to_be_16 rte) l3 l4)))"

definition rule_list ::
    "'rss rte_flow \<Rightarrow> application_sft_config \<Rightarrow> 'rss \<Rightarrow> 'rss \<Rightarrow> nat \<Rightarrow> (slot \<times> 'rss flow_rule) list" where
  "rule_list rte sc rss hairpin n = concat (map (port_rule_list rte sc rss hairpin) [0..<n])"

definition install :: "'rss rte_flow \<Rightarrow> slot \<times> 'rss flow_rule \<Rightarrow> 'rss sft_state attempt" where
  "install rte sr = validate_and_create rte (snd sr) (slot_update (fst sr)) (slot_index (fst sr))"

lemma ip_l4_loop_list: "ip_l4_loop body = try_all [body 0 0, body 0 1, body 1 0, body 1 1]"
  by (simp add: ip_l4_loop_def upt_rec numeral_2_eq_2)

lemmas create_rule_defs =
  create_rule_forward_l4_to_sft_def create_rule_forward_to_sft_by_pattern_def create_rule_rss_post_sft_def
  create_rule_action_eth_rss_def create_rule_action_rss_def create_rule_hairpin_non_l4_def create_rule_post_sft_def
  create_rule_forward_fragments_to_sft_def create_rule_hairpin_fragments_def

lemma port_rules_list:
  "port_rules rte sc rss hairpin p = try_all (map (install rte) (port_rule_list rte sc rss hairpin p))"
  by (simp add: port_rules_def port_rule_list_def ip_l4_loop_list ip_l4_rules_def
      RULE_INDX_def supported_ip_versions_def supported_l4_protocols_def install_def create_rule_defs)

lemma all_ports_list:
  "try_all (map (port_rules rte sc rss hairpin) [0..<n]) = try_all (map (install rte) (rule_list rte sc rss hairpin n))"
  using try_all_concat[of "\<lambda>p. map (install rte) (port_rule_list rte sc rss hairpin p)" "[0..<n]"]
  by (simp add: port_rules_list[abs_def] rule_list_def map_concat comp_def)

subsection \<open>Handles\<close>

lemma slot_array_update [simp]: "slot_array s (slot_update s f ar) = f (slot_array s ar)"
  by (cases s) simp_all

lemma handle_update:
  "slot_ok s ar \<Longrightarrow> handle t (slot_update s (\<lambda>xs. xs[slot_index s := v]) ar) = (if t = s then v else handle t ar)"
  by (cases s; cases t) (simp_all add: handle_def slot_ok_def)

lemma slot_ok_update [simp]: "slot_ok t (slot_update s (\<lambda>xs. xs[i := v]) ar) = slot_ok t ar"
  by (cases s; cases t) (simp_all add: slot_ok_def)

text \<open>What one call does, on each of its three branches.\<close>

lemma install_cases:
  obtains (refused) "install rte sr st = (DOCA_ERROR_DRIVER, st\<lparr>calls := calls st @ [Validate (snd sr)]\<rparr>)"
  | (made) h where "h = rte_flow_create rte (calls st @ [Validate (snd sr)]) (snd sr)"
      "install rte sr st = (if h \<noteq> 0 then DOCA_SUCCESS else DOCA_ERROR_DRIVER,
         st\<lparr>calls := calls st @ [Validate (snd sr), Create (snd sr)],
            app_rules := slot_update (fst sr) (\<lambda>xs. xs[slot_index (fst sr) := h]) (app_rules st)\<rparr>)"
  by (cases "rte_flow_validate rte (calls st) (snd sr) = 0") (auto simp: install_def validate_and_create_def Let_def)

definition made_calls :: "(slot \<times> 'rss flow_rule) list \<Rightarrow> 'rss flow_call list" where
  "made_calls srs = concat (map (\<lambda>sr. [Validate (snd sr), Create (snd sr)]) srs)"

text \<open>
  A run over a list of slots ends after the rules \<open>ys\<close>: with success if these are all of them,
  with a driver error at the next one otherwise.
\<close>

definition stopped_after ::
    "'rss rte_flow \<Rightarrow> 'rss sft_state \<Rightarrow> (slot \<times> 'rss flow_rule) list \<Rightarrow> (slot \<times> 'rss flow_rule) list \<Rightarrow> doca_error \<Rightarrow> 'rss sft_state \<Rightarrow> bool" where
  "stopped_after rte st ys zs r st' \<longleftrightarrow>
     r = (if zs = [] then DOCA_SUCCESS else DOCA_ERROR_DRIVER) \<and>
     (\<exists>rest. calls st' = calls st @ made_calls ys @ rest \<and>
        (if zs = [] then rest = [] else rest \<in> {[Validate (snd (hd zs))], [Validate (snd (hd zs)), Create (snd (hd zs))]})) \<and>
     (\<forall>s rule. (s, rule) \<in> set ys \<longrightarrow>
        handle s (app_rules st') \<noteq> 0 \<and> (\<exists>h. handle s (app_rules st') = rte_flow_create rte h rule)) \<and>
     (\<forall>s. s \<notin> fst ` set ys \<longrightarrow> handle s (app_rules st) = 0 \<longrightarrow> handle s (app_rules st') = 0)"

lemma install_all:
  assumes "distinct (map fst xs)" "\<forall>s \<in> fst ` set xs. slot_ok s (app_rules st)" "try_all (map (install rte) xs) st = (r, st')"
  shows "\<exists>ys zs. xs = ys @ zs \<and> stopped_after rte st ys zs r st' \<and>
           (\<forall>s. s \<notin> fst ` set xs \<longrightarrow> handle s (app_rules st') = handle s (app_rules st))"
  using assms
proof (induction xs arbitrary: st)
  case Nil
  then show ?case by (simp add: stopped_after_def made_calls_def ok_def)
next
  case (Cons sr xs)
  show ?case
  proof (cases rule: install_cases[of rte sr st])
    case refused
    then have "stopped_after rte st [] (sr # xs) r st' \<and> app_rules st' = app_rules st"
      using Cons.prems(3) by (auto simp: then_try_def stopped_after_def made_calls_def)
    then show ?thesis by (intro exI[of _ "[]"] exI[of _ "sr # xs"]) simp
  next
    case (made h)
    let ?st = "st\<lparr>calls := calls st @ [Validate (snd sr), Create (snd sr)],
            app_rules := slot_update (fst sr) (\<lambda>xs. xs[slot_index (fst sr) := h]) (app_rules st)\<rparr>"
    have hu: "handle t (app_rules ?st) = (if t = fst sr then h else handle t (app_rules st))" for t
      using handle_update Cons.prems(2) by simp
    show ?thesis
    proof (cases "h = 0")
      case True
      then have "stopped_after rte st [] (sr # xs) r ?st \<and> st' = ?st"
        using Cons.prems(3) made(2) hu by (auto simp: then_try_def stopped_after_def made_calls_def)
      then show ?thesis using hu by (intro exI[of _ "[]"] exI[of _ "sr # xs"]) auto
    next
      case False
      then have "try_all (map (install rte) xs) ?st = (r, st')" using Cons.prems(3) made(2) by (simp add: then_try_def)
      then obtain ys zs where yz: "xs = ys @ zs" "stopped_after rte ?st ys zs r st'"
        "\<forall>s. s \<notin> fst ` set xs \<longrightarrow> handle s (app_rules st') = handle s (app_rules ?st)"
        using Cons.IH[of ?st] Cons.prems(1,2) by auto
      have "handle (fst sr) (app_rules st') = h" using yz(3) hu Cons.prems(1) by simp
      then have "stopped_after rte st (sr # ys) zs r st'"
        using yz(2) hu False made(1) unfolding stopped_after_def made_calls_def by (auto split: if_splits)
      then show ?thesis using yz(1,3) hu by (intro exI[of _ "sr # ys"] exI[of _ zs]) auto
    qed
  qed
qed

subsection \<open>The slots\<close>

lemma two_ports_list: "rule_list rte sc rss hairpin 2 = port_rule_list rte sc rss hairpin 0 @ port_rule_list rte sc rss hairpin 1"
  by (simp add: rule_list_def upt_rec numeral_2_eq_2)

lemmas rule_defs = forward_to_sft_rule_def rss_rule_def post_sft_rule_def

lemma mod_2_offsets: "(p + 4) mod 2 = p mod (2 :: nat)" "(p + 6) mod 2 = p mod (2 :: nat)"
  by presburger+

lemma port_rule_slots:
  "p < 2 \<Longrightarrow> (s, rule) \<in> set (port_rule_list rte sc rss hairpin p) \<Longrightarrow> slot_ok s no_rules \<and> slot_index s mod 2 = p \<and> rule_port rule = p"
  by (auto simp: port_rule_list_def ip_l4_rules_def slot_ok_def no_rules_def rule_defs mod_2_offsets split: if_splits)

lemma port_rule_distinct: "distinct (map fst (port_rule_list rte sc rss hairpin p))"
  by (simp add: port_rule_list_def ip_l4_rules_def)

lemma rule_list_slots:
  assumes "n \<le> 2" "(s, rule) \<in> set (rule_list rte sc rss hairpin n)"
  shows "slot_ok s no_rules \<and> slot_index s mod 2 = rule_port rule \<and> slot_index s mod 2 < n"
proof -
  obtain p where "p < n" "(s, rule) \<in> set (port_rule_list rte sc rss hairpin p)"
    using assms(2) by (auto simp: rule_list_def)
  then show ?thesis using port_rule_slots[of p s rule] assms(1) by simp
qed

lemma rule_list_ok:
  assumes "n \<le> 2"
  shows "\<forall>s \<in> fst ` set (rule_list rte sc rss hairpin n). slot_ok s no_rules"
proof
  fix s assume "s \<in> fst ` set (rule_list rte sc rss hairpin n)"
  then obtain rule where "(s, rule) \<in> set (rule_list rte sc rss hairpin n)" by force
  then show "slot_ok s no_rules" using rule_list_slots[OF assms, of s rule rte sc rss hairpin] by simp
qed

lemma rule_list_distinct: "n \<le> 2 \<Longrightarrow> distinct (map fst (rule_list rte sc rss hairpin n))"
proof (induction n)
  case (Suc n)
  have "slot_index s mod 2 < n" if "s \<in> fst ` set (rule_list rte sc rss hairpin n)" for s
    using that rule_list_slots[of n] Suc.prems by fastforce
  moreover have "slot_index s mod 2 = n" if "s \<in> fst ` set (port_rule_list rte sc rss hairpin n)" for s
    using that port_rule_slots[of n] Suc.prems by fastforce
  ultimately have "fst ` set (rule_list rte sc rss hairpin n) \<inter> fst ` set (port_rule_list rte sc rss hairpin n) = {}"
    by fastforce
  moreover have "rule_list rte sc rss hairpin (Suc n) = rule_list rte sc rss hairpin n @ port_rule_list rte sc rss hairpin n"
    by (simp add: rule_list_def)
  ultimately show ?case using Suc port_rule_distinct by simp
qed (simp add: rule_list_def)

lemma no_rules_handle: "slot_ok s no_rules \<Longrightarrow> handle s no_rules = 0"
  by (cases s) (simp_all add: handle_def no_rules_def slot_ok_def)

subsection \<open>The totals\<close>

lemma fold_totals:
  "fold (\<lambda>i t. t\<lparr>total_ingress := total_ingress t + f i\<rparr>) [0..<n] t = t\<lparr>total_ingress := total_ingress t + (\<Sum>i < n. f i)\<rparr>"
  "fold (\<lambda>i t. t\<lparr>total_rss := total_rss t + f i\<rparr>) [0..<n] t = t\<lparr>total_rss := total_rss t + (\<Sum>i < n. f i)\<rparr>"
  "fold (\<lambda>i t. t\<lparr>total_ingress := total_ingress t + f i, total_ingress_non_l4 := total_ingress_non_l4 t + f i\<rparr>) [0..<n] t =
     t\<lparr>total_ingress := total_ingress t + (\<Sum>i < n. f i), total_ingress_non_l4 := total_ingress_non_l4 t + (\<Sum>i < n. f i)\<rparr>"
  "fold (\<lambda>i t. t\<lparr>total_fragments := total_fragments t + f i, total_ingress := total_ingress t + f i\<rparr>) [0..<n] t =
     t\<lparr>total_fragments := total_fragments t + (\<Sum>i < n. f i), total_ingress := total_ingress t + (\<Sum>i < n. f i)\<rparr>"
  "fold (\<lambda>i t. t\<lparr>total_fragments := total_fragments t + f i, total_egress := total_egress t + f i\<rparr>) [0..<n] t =
     t\<lparr>total_fragments := total_fragments t + (\<Sum>i < n. f i), total_egress := total_egress t + (\<Sum>i < n. f i)\<rparr>"
  by (induction n) (simp_all add: add.assoc)

lemma upt_4: "[0..<4] = [0, 1, 2, 3 :: nat]"
  by code_simp

fun slot_listed :: "application_sft_config \<Rightarrow> slot \<Rightarrow> bool" where
  "slot_listed sc (Jump i) = (i < 8)" | "slot_listed sc (Rss i) = (i < 2)" | "slot_listed sc (Non_l4 i) = (i < 2)"
| "slot_listed sc (Query i) = (if i < 2 then enable_state_hairpin sc else i < 4 \<and> enable_state_drop sc)"
| "slot_listed sc (Forward i) = (i < 8 \<and> enable_frag sc)" | "slot_listed sc (Hairpin i) = (i < 8 \<and> \<not> enable_frag sc)"

lemma port_slots:
  "fst ` set (port_rule_list rte sc rss hairpin p) =
     Jump ` {p, p + 2, p + 4, p + 6} \<union> {Rss p, Non_l4 p} \<union> (if enable_state_hairpin sc then {Query p} else {}) \<union>
     (if enable_state_drop sc then {Query (p + 2)} else {}) \<union>
     (if enable_frag sc then Forward ` {p, p + 2, p + 4, p + 6} else Hairpin ` {p, p + 2, p + 4, p + 6})"
  by (simp add: port_rule_list_def ip_l4_rules_def image_Un Un_assoc insert_commute)

lemma slot_listed_iff: "s \<in> fst ` set (rule_list rte sc rss hairpin 2) \<longleftrightarrow> slot_listed sc s"
  unfolding two_ports_list set_append image_Un port_slots
  by (cases s) (simp_all add: image_iff, auto)

lemma query_rules_hits:
  "(\<And>i. i < n \<Longrightarrow> query (i mod 2) (rules ! i) = Some (f i)) \<Longrightarrow>
   query_rules query rules add n t = fold (\<lambda>i. add i (f i)) [0..<n] t"
  by (auto simp: query_rules_def intro!: fold_cong)

lemma query_rules_skip:
  "(\<And>i. i < n \<Longrightarrow> query (i mod 2) (rules ! i) = (if P i then Some (f i) else None)) \<Longrightarrow>
   query_rules query rules add n t = fold (\<lambda>i t. if P i then add i (f i) t else t) [0..<n] t"
  by (auto simp: query_rules_def intro!: fold_cong)

definition expected_totals :: "application_sft_config \<Rightarrow> (slot \<Rightarrow> u64) \<Rightarrow> counter_totals" where
  "expected_totals sc hits =
     \<lparr>total_ingress = (\<Sum>i < 8. hits (Jump i)) + (\<Sum>i < 2. hits (Non_l4 i)) + (if enable_frag sc then (\<Sum>i < 8. hits (Forward i)) else 0),
      total_rss = (\<Sum>i < 2. hits (Rss i)),
      total_dropped = (if enable_state_drop sc then hits (Query 2) + hits (Query 3) else 0),
      total_egress = (if enable_state_hairpin sc then hits (Query 0) + hits (Query 1) else 0) +
                     (if enable_frag sc then 0 else (\<Sum>i < 8. hits (Hairpin i))),
      total_ingress_non_l4 = (\<Sum>i < 2. hits (Non_l4 i)),
      total_fragments = (if enable_frag sc then (\<Sum>i < 8. hits (Forward i)) else (\<Sum>i < 8. hits (Hairpin i)))\<rparr>"

lemma print_totals:
  assumes q: "\<And>s. slot_listed sc s \<Longrightarrow> handle s ar \<noteq> 0 \<and> query (slot_index s mod 2) (handle s ar) = Some (hits s)"
    and z: "\<And>s. slot_ok s no_rules \<Longrightarrow> \<not> slot_listed sc s \<Longrightarrow> handle s ar = 0"
  shows "print_offload_rules_counter query ar = expected_totals sc hits"
proof -
  have j: "query_rules query (set_jump_to_sft_action ar) add 8 u = fold (\<lambda>i. add i (hits (Jump i))) [0..<8] u" for add u
    using q[of "Jump _"] by (intro query_rules_hits) (simp add: handle_def)
  have n: "query_rules query (hairpin_non_l4 ar) add 2 u = fold (\<lambda>i. add i (hits (Non_l4 i))) [0..<2] u" for add u
    using q[of "Non_l4 _"] by (intro query_rules_hits) (simp add: handle_def)
  have r: "query_rules query (rss_non_state ar) add 2 u = fold (\<lambda>i. add i (hits (Rss i))) [0..<2] u" for add u
    using q[of "Rss _"] by (intro query_rules_hits) (simp add: handle_def)
  have h: "query_rules (\<lambda>p r. if r = 0 then None else query p r) (query_hairpin ar) add 4 u =
      fold (\<lambda>i t. if slot_listed sc (Query i) then add i (hits (Query i)) t else t) [0..<4] u" for add u
    using q[of "Query _"] z[of "Query _"] by (intro query_rules_skip) (auto simp: handle_def slot_ok_def no_rules_def)
  have f: "query_rules query (forward_fragments ar) add 8 u = fold (\<lambda>i. add i (hits (Forward i))) [0..<8] u" if "enable_frag sc" for add u
    using that q[of "Forward _"] by (intro query_rules_hits) (simp add: handle_def)
  have g: "query_rules query (hairpin_fragments ar) add 8 u = fold (\<lambda>i. add i (hits (Hairpin i))) [0..<8] u" if "\<not> enable_frag sc" for add u
    using that q[of "Hairpin _"] by (intro query_rules_hits) (simp add: handle_def)
  have fz: "forward_fragments ar ! 0 \<noteq> 0 \<longleftrightarrow> enable_frag sc" "hairpin_fragments ar ! 0 \<noteq> 0 \<longleftrightarrow> \<not> enable_frag sc"
    using q[of "Forward 0"] z[of "Forward 0"] q[of "Hairpin 0"] z[of "Hairpin 0"]
    by (auto simp: handle_def slot_ok_def no_rules_def)
  have hr: "fold (\<lambda>i t. if slot_listed sc (Query i)
        then (if i < 2 then t\<lparr>total_egress := total_egress t + hits (Query i)\<rparr> else t\<lparr>total_dropped := total_dropped t + hits (Query i)\<rparr>) else t) [0..<4] u =
      u\<lparr>total_egress := total_egress u + (if enable_state_hairpin sc then hits (Query 0) + hits (Query 1) else 0),
        total_dropped := total_dropped u + (if enable_state_drop sc then hits (Query 2) + hits (Query 3) else 0)\<rparr>" for u
    by (simp add: upt_4 add.assoc)
  show ?thesis
    by (simp add: print_offload_rules_counter_def j n r h f g fz no_totals_def Let_def fold_totals hr expected_totals_def del: slot_listed.simps)
qed

subsection \<open>A concrete driver\<close>

text \<open>It accepts every rule and counts: the handle is the number of calls so far, and odd handles have a hit.\<close>

definition sample_rte :: "'rss rte_flow" where
  "sample_rte = \<lparr>rte_flow_validate = (\<lambda>_ _. 0), rte_flow_create = (\<lambda>h _. of_nat (length h)),
                 rte_cpu_to_be_16 = (\<lambda>w. push_bit 8 w OR drop_bit 8 w)\<rparr>"

definition sample_dpdk_config :: application_dpdk_config where
  "sample_dpdk_config =
     \<lparr>port_config = \<lparr>nb_ports = 2, nb_queues = 4, nb_hairpin_q = 2, enable_mbuf_metadata = False, self_hairpin = False,
        rss_support = True, lpbk_support = False, isolated_mode = False\<rparr>,
      sft_config = \<lparr>sft_enable = True, enable_ct = True, enable_frag = True, enable_state_hairpin = True, enable_state_drop = False\<rparr>,
      reserve_main_thread = False, mbuf_pool = 0\<rparr>"

subsection \<open>Properties\<close>

text \<open>
  C14: the steering rules.  With at most two ports, the rules are given to the driver in the order
  of \<open>rule_list\<close> until one is refused; every rule given before has its handle in its own slot, every
  other slot is \<open>NULL\<close>, and the result says whether all rules are in place.  When all are, on two
  ports, the slots in use are those of \<open>slot_listed\<close>: the rules that forward fragments exactly when
  \<open>enable_frag\<close> is set, and those that hairpin fragments exactly when it is not.  The comments on
  \<open>forward_fragments\<close> and \<open>create_rule_forward_fragments_to_sft\<close> say that the former are for fragmentation
  not enabled; the code does the opposite.  Every rule is queried on the port it was made for, and the
  totals add up the hits of exactly the rules of each kind.
\<close>

theorem offload_rules_installed:
  assumes "create_rules_sft_offload rte cfg rss hairpin st = (r, st')"
    and "n = unat (word_of_int (nb_ports (port_config cfg)) :: u8)" "n \<le> 2"
  shows "(\<exists>ys zs. rule_list rte (sft_config cfg) rss hairpin n = ys @ zs \<and>
            stopped_after rte (st\<lparr>app_rules := no_rules\<rparr>) ys zs r st') \<and>
         (r = DOCA_SUCCESS \<and> n = 2 \<longrightarrow>
          (\<forall>s. slot_ok s no_rules \<longrightarrow> (handle s (app_rules st') \<noteq> 0 \<longleftrightarrow> slot_listed (sft_config cfg) s))) \<and>
         (r = DOCA_SUCCESS \<and> n = 2 \<and>
          (\<forall>s rule. (s, rule) \<in> set (rule_list rte (sft_config cfg) rss hairpin n) \<longrightarrow>
             query (rule_port rule) (handle s (app_rules st')) = Some (hits s)) \<longrightarrow>
          print_offload_rules_counter query (app_rules st') = expected_totals (sft_config cfg) hits)"
proof -
  let ?rl = "rule_list rte (sft_config cfg) rss hairpin n"
  have "try_all (map (install rte) ?rl) (st\<lparr>app_rules := no_rules\<rparr>) = (r, st')"
    using assms by (simp add: create_rules_sft_offload_def all_ports_list)
  moreover have ok: "\<forall>s \<in> fst ` set ?rl. slot_ok s (app_rules (st\<lparr>app_rules := no_rules\<rparr>))"
    using rule_list_ok[OF assms(3)] by simp
  ultimately obtain ys zs where yz: "?rl = ys @ zs" "stopped_after rte (st\<lparr>app_rules := no_rules\<rparr>) ys zs r st'"
    using install_all[OF rule_list_distinct[OF assms(3)] ok] by meson
  have y: "?rl = ys" if "r = DOCA_SUCCESS" using yz that by (simp add: stopped_after_def split: if_splits)
  have used: "handle s (app_rules st') \<noteq> 0" if "r = DOCA_SUCCESS" "(s, rule) \<in> set ?rl" for s rule
    using that yz(2) unfolding y[OF that(1)] stopped_after_def by blast
  have free: "handle s (app_rules st') = 0"
    if "r = DOCA_SUCCESS" "n = 2" "slot_ok s no_rules" "\<not> slot_listed (sft_config cfg) s" for s
  proof -
    have "s \<notin> fst ` set ys"
      using that(4) slot_listed_iff[of s rte "sft_config cfg" rss hairpin] unfolding y[OF that(1), symmetric] that(2) by simp
    then show ?thesis using no_rules_handle[OF that(3)] yz(2) by (simp add: stopped_after_def)
  qed
  have listed: "\<exists>rule. (s, rule) \<in> set ?rl" if "n = 2" "slot_listed (sft_config cfg) s" for s
    using that slot_listed_iff[of s rte "sft_config cfg" rss hairpin] by force
  have "print_offload_rules_counter query (app_rules st') = expected_totals (sft_config cfg) hits"
    if p: "r = DOCA_SUCCESS" "n = 2" "\<forall>s rule. (s, rule) \<in> set ?rl \<longrightarrow> query (rule_port rule) (handle s (app_rules st')) = Some (hits s)"
  proof (rule print_totals)
    fix s
    show "handle s (app_rules st') \<noteq> 0 \<and> query (slot_index s mod 2) (handle s (app_rules st')) = Some (hits s)"
      if l: "slot_listed (sft_config cfg) s"
    proof -
      obtain rule where rule: "(s, rule) \<in> set ?rl" using listed[OF p(2) l] ..
      then have "slot_index s mod 2 = rule_port rule"
        using rule_list_slots[OF assms(3), of s rule rte "sft_config cfg" rss hairpin] by simp
      then show ?thesis using rule p(3) used[OF p(1) rule] by simp
    qed
    show "handle s (app_rules st') = 0" if "slot_ok s no_rules" "\<not> slot_listed (sft_config cfg) s" using free p that by simp
  qed
  moreover have "\<forall>s. slot_ok s no_rules \<longrightarrow> (handle s (app_rules st') \<noteq> 0 \<longleftrightarrow> slot_listed (sft_config cfg) s)" if "r = DOCA_SUCCESS" "n = 2"
    using that used free listed by metis
  ultimately show ?thesis using yz by blast
qed

theorem offload_rules_installed_witness:
  "\<exists>st'. create_rules_sft_offload sample_rte sample_dpdk_config () () \<lparr>app_rules = no_rules, calls = []\<rparr> = (DOCA_SUCCESS, st') \<and>
     print_offload_rules_counter (\<lambda>_ h. Some (h AND 1)) (app_rules st') = expected_totals (sft_config sample_dpdk_config) (\<lambda>_. 1) \<and>
     total_ingress (expected_totals (sft_config sample_dpdk_config) (\<lambda>_. 1)) = 18 \<and>
     enable_frag (sft_config sample_dpdk_config) \<and> handle (Forward 3) (app_rules st') \<noteq> 0 \<and> handle (Hairpin 3) (app_rules st') = 0"
proof -
  let ?n = "unat (word_of_int (nb_ports (port_config sample_dpdk_config)) :: u8)"
  let ?rl = "rule_list sample_rte (sft_config sample_dpdk_config) () () ?n"
  have n: "?n = 2" by code_simp
  obtain r st' where e: "create_rules_sft_offload sample_rte sample_dpdk_config () () \<lparr>app_rules = no_rules, calls = []\<rparr> = (r, st')"
    by fastforce
  have c: "r = DOCA_SUCCESS \<and> list_all (\<lambda>(s, rule). handle s (app_rules st') AND 1 = 1) ?rl"
  proof -
    have "(case create_rules_sft_offload sample_rte sample_dpdk_config () () \<lparr>app_rules = no_rules, calls = []\<rparr> of (r, st') \<Rightarrow>
             r = DOCA_SUCCESS \<and> list_all (\<lambda>(s, rule). handle s (app_rules st') AND 1 = 1) ?rl)" by code_simp
    then show ?thesis unfolding e by simp
  qed
  have t: "total_ingress (expected_totals (sft_config sample_dpdk_config) (\<lambda>_. 1)) = 18"
    by (simp add: expected_totals_def sample_dpdk_config_def)
  have f: "slot_ok (Forward 3) no_rules" "slot_ok (Hairpin 3) no_rules" "enable_frag (sft_config sample_dpdk_config)" by code_simp+
  note o = offload_rules_installed[OF e refl, of "\<lambda>_ h. Some (h AND 1)" "\<lambda>_. 1", THEN conjunct2, unfolded n]
  have s: "\<forall>s. slot_ok s no_rules \<longrightarrow> (handle s (app_rules st') \<noteq> 0 \<longleftrightarrow> slot_listed (sft_config sample_dpdk_config) s)" using o c by blast
  have "handle (Forward 3) (app_rules st') \<noteq> 0" "handle (Hairpin 3) (app_rules st') = 0"
    using s[rule_format, OF f(1)] s[rule_format, OF f(2)] f(3) by simp_all
  then show ?thesis using o e n c t f(3) by (auto simp: list_all_iff)
qed

end
