(* ===== verification/Dpdk_Utils.thy ===== *)
theory Dpdk_Utils
  imports Offload_Rules
begin

text \<open>
  Bringing up and taking down the DPDK ports, \<open>utils/dpdk/dpdk_utils.c\<close> as built without GPU support.

  The Ethernet library of DPDK is the parameter \<open>env\<close> of type \<open>rte_eth\<close>: what each call returns may
  depend on all calls made before, which the state records in \<open>dcalls\<close>, and so may which ports
  are valid.  The configuration that the functions are given by reference is part of the state.
  Logging is left out, and so are the calls that only feed it.
\<close>

subsection \<open>Calls and state\<close>

abbreviation RSS_KEY_LEN :: nat where "RSS_KEY_LEN \<equiv> 40"
abbreviation RX_RING_SIZE :: nat where "RX_RING_SIZE \<equiv> 1024"
abbreviation TX_RING_SIZE :: nat where "TX_RING_SIZE \<equiv> 1024"
abbreviation NUM_MBUFS :: int where "NUM_MBUFS \<equiv> 8 * 1024"

record rte_eth_hairpin_conf =
  peer_count :: nat
  manual_bind :: bool
  tx_explicit :: bool
  peer_port :: nat
  peer_queue :: u16

record rte_sft_conf =
  sft_nb_queues :: u8
  nb_max_entries :: nat
  tcp_ct_enable :: bool
  ipfrag_enable :: bool
  reorder_enable :: bool
  default_aging :: nat
  nb_max_ipfrag :: nat
  app_data_len :: nat

record rte_eth_rss_conf =
  rss_key :: "u8 list"
  rss_key_len :: nat
  rss_hf :: u64

record rte_flow_action_rss =
  queue_num :: u8
  queue :: "u16 list"
  types :: u64
  key_len :: nat
  key :: "u8 list"
  func :: nat
  level :: u32

record rte_eth_conf =
  lpbk_mode :: bool
  mq_mode_rss :: bool
  rss_conf :: rte_eth_rss_conf

datatype dpdk_call =
  Peer_ports nat bool | Hairpin_bind nat nat | Hairpin_unbind nat nat
| Tx_hairpin_setup nat u16 nat rte_eth_hairpin_conf | Rx_hairpin_setup nat u16 nat rte_eth_hairpin_conf
| Sft_init rte_sft_conf | Sft_fini | Rss_conf_get nat
| Pool_create u32 | Pool_free u64 | Metadata_register
| Dev_info_get nat | Dev_configure nat u16 u16 rte_eth_conf | Promiscuous nat
| Rx_queue_setup nat nat nat u64 | Tx_queue_setup nat nat nat | Flow_isolate nat bool
| Dev_start nat | Dev_stop nat | Dev_close nat | Eal_init | Eal_cleanup

record rte_eth =
  RTE_MAX_ETHPORTS :: nat
  RTE_ETH_RSS_IP :: u64
  RTE_ETH_RSS_UDP :: u64
  RTE_ETH_RSS_TCP :: u64
  RTE_ETH_HASH_FUNCTION_DEFAULT :: nat
  call_result :: "dpdk_call list \<Rightarrow> dpdk_call \<Rightarrow> int"
  is_valid_port :: "dpdk_call list \<Rightarrow> nat \<Rightarrow> bool"
  peer_list :: "dpdk_call list \<Rightarrow> nat \<Rightarrow> bool \<Rightarrow> nat list"
  rss_conf_of :: "dpdk_call list \<Rightarrow> nat \<Rightarrow> rte_eth_rss_conf \<Rightarrow> rte_eth_rss_conf"
  pool_create :: "dpdk_call list \<Rightarrow> u32 \<Rightarrow> u64"
  dev_count_avail :: "dpdk_call list \<Rightarrow> int"
  lcore_count :: "dpdk_call list \<Rightarrow> int"

record dpdk =
  dcalls :: "dpdk_call list"
  cfg :: application_dpdk_config
  sft :: "rte_flow_action_rss sft_state"

definition log_call :: "dpdk_call \<Rightarrow> dpdk \<Rightarrow> dpdk" where
  "log_call c d = d\<lparr>dcalls := dcalls d @ [c]\<rparr>"

text \<open>A call whose result is thrown away, and one that is followed by \<open>if (ret < 0) return DOCA_ERROR_DRIVER\<close>.\<close>

definition check :: "rte_eth \<Rightarrow> dpdk_call \<Rightarrow> dpdk attempt" where
  "check env c d = (if call_result env (dcalls d) c < 0 then DOCA_ERROR_DRIVER else DOCA_SUCCESS, log_call c d)"

subsection \<open>Hairpin queues\<close>

text \<open>The peers of a port: \<open>tx\<close> is the last argument of \<open>rte_eth_hairpin_get_peer_ports\<close>.\<close>

definition with_peers :: "rte_eth \<Rightarrow> nat \<Rightarrow> bool \<Rightarrow> (nat \<Rightarrow> dpdk_call) \<Rightarrow> dpdk attempt" where
  "with_peers env port_id tx c d =
     then_try (check env (Peer_ports port_id tx))
       (try_all (map (\<lambda>q. check env (c q)) (take (nat (call_result env (dcalls d) (Peer_ports port_id tx))) (peer_list env (dcalls d) port_id tx)))) d"

definition bind_hairpin_queues :: "rte_eth \<Rightarrow> nat \<Rightarrow> dpdk attempt" where
  "bind_hairpin_queues env port_id =
     then_try (with_peers env port_id True (\<lambda>peer. Hairpin_bind port_id peer))
       (with_peers env port_id False (\<lambda>peer. Hairpin_bind peer port_id))"

definition unbind_hairpin_queues :: "rte_eth \<Rightarrow> nat \<Rightarrow> dpdk attempt" where
  "unbind_hairpin_queues env port_id =
     then_try (with_peers env port_id True (\<lambda>peer. Hairpin_unbind port_id peer))
       (with_peers env port_id False (\<lambda>peer. Hairpin_unbind peer port_id))"

definition setup_hairpin_queues :: "rte_eth \<Rightarrow> nat \<Rightarrow> nat \<Rightarrow> u16 list \<Rightarrow> dpdk attempt" where
  "setup_hairpin_queues env port_id peer_port_id reserved_hairpin_q_list =
     try_all (map (\<lambda>q.
       let hairpin_conf = \<lparr>peer_count = 1, manual_bind = True, tx_explicit = True, peer_port = peer_port_id, peer_queue = q\<rparr>
       in then_try (check env (Tx_hairpin_setup port_id q 2048 hairpin_conf)) (check env (Rx_hairpin_setup port_id q 2048 hairpin_conf)))
       reserved_hairpin_q_list)"

definition disable_hairpin_queues :: "rte_eth \<Rightarrow> nat \<Rightarrow> dpdk \<Rightarrow> dpdk" where
  "disable_hairpin_queues env nb d =
     fold (\<lambda>port_id d. if is_valid_port env (dcalls d) port_id then snd (unbind_hairpin_queues env port_id d) else d) [0..<nb] d"

text \<open>
  The loop over the valid ports that \<open>enable_hairpin_queues\<close> and \<open>dpdk_ports_init\<close> share: it skips
  invalid ports, cleans up and returns on a failure, and ends after \<open>nb\<close> ports.
\<close>

fun for_valid_ports :: "rte_eth \<Rightarrow> (nat \<Rightarrow> dpdk attempt) \<Rightarrow> (nat \<Rightarrow> dpdk \<Rightarrow> dpdk) \<Rightarrow> nat \<Rightarrow> nat \<Rightarrow> nat list \<Rightarrow> dpdk attempt" where
  "for_valid_ports env body cleanup nb n [] d = (DOCA_SUCCESS, d)"
| "for_valid_ports env body cleanup nb n (port_id # ports) d =
     (if \<not> is_valid_port env (dcalls d) port_id then for_valid_ports env body cleanup nb n ports d
      else then_try (on_error (body port_id) (cleanup port_id))
             (if nb \<le> Suc n then ok else for_valid_ports env body cleanup nb (Suc n) ports) d)"

definition enable_hairpin_queues :: "rte_eth \<Rightarrow> u8 \<Rightarrow> dpdk attempt" where
  "enable_hairpin_queues env nb =
     for_valid_ports env (bind_hairpin_queues env) (disable_hairpin_queues env) (unat nb) 0 [0..<RTE_MAX_ETHPORTS env]"

subsection \<open>Stateful flow table\<close>

definition update_flow_action_rss :: "u16 list \<Rightarrow> u8 \<Rightarrow> rte_eth_rss_conf \<Rightarrow> nat \<Rightarrow> u32 \<Rightarrow> rte_flow_action_rss" where
  "update_flow_action_rss queue_list nb conf hash_func lvl =
     \<lparr>queue_num = nb, queue = queue_list, types = rss_hf conf, key_len = rss_key_len conf, key = rss_key conf,
      func = hash_func, level = lvl\<rparr>"

text \<open>\<open>junk\<close>: the bytes of the uninitialised key and hash functions before the port fills them in.\<close>

definition dpdk_sft_init :: "rte_flow_action_rss rte_flow \<Rightarrow> rte_eth \<Rightarrow> u8 list \<Rightarrow> dpdk attempt" where
  "dpdk_sft_init rte env junk d =
     (let nb_q = word_of_int (nb_queues (port_config (cfg d))) :: u8;
          nb_hq = word_of_int (nb_hairpin_q (port_config (cfg d))) :: u8;
          conf = \<lparr>sft_nb_queues = nb_q, nb_max_entries = 2 ^ 20, tcp_ct_enable = enable_ct (sft_config (cfg d)),
                  ipfrag_enable = enable_frag (sft_config (cfg d)), reorder_enable = True, default_aging = 60,
                  nb_max_ipfrag = 4096, app_data_len = 1\<rparr>
      in then_try (check env (Sft_init conf))
        (then_try (on_error (check env (Rss_conf_get 0)) (log_call Sft_fini))
          (\<lambda>d. let rc = rss_conf_of env (butlast (dcalls d)) 0 \<lparr>rss_key = junk, rss_key_len = RSS_KEY_LEN, rss_hf = 0\<rparr>;
                   queue_list = map of_nat [0..<unat nb_q];
                   rc = (if ipfrag_enable conf then rc\<lparr>rss_hf := RTE_ETH_RSS_IP env\<rparr> else rc);
                   action_rss = update_flow_action_rss queue_list nb_q rc (RTE_ETH_HASH_FUNCTION_DEFAULT env) 0;
                   hairpin_queue_list = map (\<lambda>i. ucast nb_q + of_nat i) [0..<unat nb_hq];
                   action_rss_hairpin = update_flow_action_rss hairpin_queue_list nb_hq rc (RTE_ETH_HASH_FUNCTION_DEFAULT env) 0;
                   (r, s) = create_rules_sft_offload rte (cfg d) action_rss action_rss_hairpin (sft d)
               in (r, d\<lparr>sft := s\<rparr>))) d)"

subsection \<open>Ports\<close>

definition allocate_mempool :: "rte_eth \<Rightarrow> u32 \<Rightarrow> dpdk attempt" where
  "allocate_mempool env total_nb_mbufs d =
     (let pool = pool_create env (dcalls d) total_nb_mbufs
      in (if pool = 0 then DOCA_ERROR_DRIVER else DOCA_SUCCESS,
          log_call (Pool_create total_nb_mbufs) (d\<lparr>cfg := (cfg d)\<lparr>mbuf_pool := pool\<rparr>\<rparr>)))"

definition symmetric_hash_key :: "u8 list" where
  "symmetric_hash_key = concat (replicate 20 [0x6D, 0x5A])"

definition port_hairpin :: "rte_eth \<Rightarrow> nat \<Rightarrow> dpdk attempt" where
  "port_hairpin env port d =
     (let pc = port_config (cfg d);
          nb_hq = unat (word_of_int (nb_hairpin_q pc) :: u16);
          nb_q = word_of_int (nb_queues pc) :: u16;
          peer = (if even port then port + 1 else port - 1);
          peer_ok = is_valid_port env (dcalls d) peer
      in (if nb_hq \<noteq> 0 \<and> self_hairpin pc \<and> peer_ok
          then (if odd nb_hq then (\<lambda>d. (PROGRAM_ABORT, d))
                else then_try (setup_hairpin_queues env port port (map (\<lambda>i. nb_q + of_nat (i * 2)) [0..<nb_hq div 2]))
                       (setup_hairpin_queues env port peer (map (\<lambda>i. nb_q + of_nat (i * 2 + 1)) [0..<nb_hq div 2])))
          else if nb_hq \<noteq> 0
          then setup_hairpin_queues env port (if peer_ok then peer else port) (map (\<lambda>i. nb_q + of_nat i) [0..<nb_hq])
          else ok) d)"

definition port_setup :: "rte_eth \<Rightarrow> u64 \<Rightarrow> nat \<Rightarrow> dpdk attempt" where
  "port_setup env pool port d =
     (let pc = port_config (cfg d);
          nb_hq = word_of_int (nb_hairpin_q pc) :: u16;
          rings = word_of_int (nb_queues pc) :: u16;
          port_conf = \<lparr>lpbk_mode = lpbk_support pc, mq_mode_rss = (rss_support pc \<and> 1 < nb_queues pc),
                       rss_conf = \<lparr>rss_key = symmetric_hash_key, rss_key_len = RSS_KEY_LEN,
                                   rss_hf = RTE_ETH_RSS_IP env OR RTE_ETH_RSS_UDP env OR RTE_ETH_RSS_TCP env\<rparr>\<rparr>
      in try_all
          ([check env (Dev_info_get port), check env (Dev_configure port (rings + nb_hq) (rings + nb_hq) port_conf),
            check env (Promiscuous port)] @
           map (\<lambda>q. check env (Rx_queue_setup port q RX_RING_SIZE pool)) [0..<unat rings] @
           map (\<lambda>q. check env (Tx_queue_setup port q TX_RING_SIZE)) [0..<unat rings] @
           [port_hairpin env port, check env (Flow_isolate port (isolated_mode pc))]) d)"

text \<open>The argument \<open>port\<close> of \<open>port_init\<close> is a \<open>uint8_t\<close>.\<close>

definition port_init :: "rte_eth \<Rightarrow> u64 \<Rightarrow> nat \<Rightarrow> dpdk attempt" where
  "port_init env pool port_id =
     (let port = unat (of_nat port_id :: u8)
      in then_try (port_setup env pool port) (check env (Dev_start port)))"

fun fini_ports :: "rte_eth \<Rightarrow> int \<Rightarrow> nat \<Rightarrow> nat list \<Rightarrow> dpdk \<Rightarrow> dpdk" where
  "fini_ports env nb n [] d = d"
| "fini_ports env nb n (port_id # ports) d =
     (if \<not> is_valid_port env (dcalls d) port_id then fini_ports env nb n ports d
      else let d = log_call (Dev_close port_id) (log_call (Dev_stop port_id) d)
           in if nb \<le> int (Suc n) then d else fini_ports env nb (Suc n) ports d)"

definition dpdk_ports_fini :: "rte_eth \<Rightarrow> nat \<Rightarrow> dpdk \<Rightarrow> dpdk" where
  "dpdk_ports_fini env nb d =
     (let d = fini_ports env (nb_ports (port_config (cfg d))) 0 (rev [0..<Suc nb]) d
      in if mbuf_pool (cfg d) \<noteq> 0 then log_call (Pool_free (mbuf_pool (cfg d))) d else d)"

definition dpdk_ports_init :: "rte_eth \<Rightarrow> dpdk attempt" where
  "dpdk_ports_init env d =
     (let pc = port_config (cfg d);
          nb = unat (word_of_int (nb_ports pc) :: u16);
          total_nb_mbufs = word_of_int (nb_queues pc * int nb * NUM_MBUFS) :: u32
      in then_try (allocate_mempool env total_nb_mbufs)
          (then_try (if enable_mbuf_metadata pc \<or> sft_enable (sft_config (cfg d)) then check env Metadata_register else ok)
            (\<lambda>d. for_valid_ports env (port_init env (mbuf_pool (cfg d))) (dpdk_ports_fini env) nb 0 [0..<RTE_MAX_ETHPORTS env] d)) d)"

text \<open>The part of \<open>dpdk_queues_and_ports_init\<close> after the number of queues is known, with its cleanup labels.\<close>

definition bring_up :: "rte_flow_action_rss rte_flow \<Rightarrow> rte_eth \<Rightarrow> u8 list \<Rightarrow> dpdk attempt" where
  "bring_up rte env junk d =
     (let pc = port_config (cfg d)
      in then_try (if 0 < nb_ports pc then dpdk_ports_init env else ok)
          (on_error
            (then_try (if 0 < nb_hairpin_q pc then enable_hairpin_queues env (word_of_int (nb_ports pc)) else ok)
              (on_error (if sft_enable (sft_config (cfg d)) then dpdk_sft_init rte env junk else ok)
                (disable_hairpin_queues env (RTE_MAX_ETHPORTS env))))
            (dpdk_ports_fini env (RTE_MAX_ETHPORTS env))) d)"

text \<open>One queue for each core, except for the main thread if it is reserved.\<close>

definition with_queues :: "rte_eth \<Rightarrow> dpdk \<Rightarrow> dpdk" where
  "with_queues env d =
     (let cores = lcore_count env (dcalls d)
      in d\<lparr>cfg := (cfg d)\<lparr>port_config := (port_config (cfg d))\<lparr>nb_queues := (if reserve_main_thread (cfg d) then cores - 1 else cores)\<rparr>\<rparr>\<rparr>)"

definition dpdk_queues_and_ports_init :: "rte_flow_action_rss rte_flow \<Rightarrow> rte_eth \<Rightarrow> u8 list \<Rightarrow> dpdk attempt" where
  "dpdk_queues_and_ports_init rte env junk d =
     (let pc = port_config (cfg d);
          avail = dev_count_avail env (dcalls d);
          cores = lcore_count env (dcalls d)
      in if 0 < nb_ports pc \<and> avail < nb_ports pc then (DOCA_ERROR_DRIVER, d)
         else if 0 < nb_queues pc \<and> cores < nb_queues pc then (DOCA_ERROR_DRIVER, d)
         else bring_up rte env junk (with_queues env d))"

definition dpdk_queues_and_ports_fini :: "rte_eth \<Rightarrow> dpdk \<Rightarrow> dpdk" where
  "dpdk_queues_and_ports_fini env d =
     (let d = (if sft_enable (sft_config (cfg d)) then log_call Sft_fini d else d);
          d = disable_hairpin_queues env (RTE_MAX_ETHPORTS env) d
      in dpdk_ports_fini env (RTE_MAX_ETHPORTS env) d)"

definition dpdk_init :: "rte_eth \<Rightarrow> dpdk attempt" where
  "dpdk_init env = check env Eal_init"

definition dpdk_fini :: "dpdk \<Rightarrow> dpdk" where
  "dpdk_fini d = log_call Eal_cleanup d"

subsection \<open>Which calls an attempt adds\<close>

text \<open>
  \<open>adds P s\<close>: whatever the result, \<open>s\<close> leaves the configuration alone and makes only calls that
  satisfy \<open>P\<close>.
\<close>

definition adds :: "(dpdk_call \<Rightarrow> bool) \<Rightarrow> dpdk attempt \<Rightarrow> bool" where
  "adds P s \<longleftrightarrow> (\<forall>d. \<exists>cs. dcalls (snd (s d)) = dcalls d @ cs \<and> list_all P cs \<and> cfg (snd (s d)) = cfg d)"

named_theorems adds_intros "which calls the functions make"

lemma adds_ok [adds_intros]: "adds P ok"
  by (simp add: adds_def ok_def)

lemma adds_abort [adds_intros]: "adds P (\<lambda>d. (PROGRAM_ABORT, d))"
  by (simp add: adds_def)

lemma adds_check [adds_intros]: "P c \<Longrightarrow> adds P (check env c)"
  by (simp add: adds_def check_def log_call_def)

lemma snd_then_try: "snd (then_try s t d) = (if fst (s d) = DOCA_SUCCESS then snd (t (snd (s d))) else snd (s d))"
proof (cases "s d")
  case (Pair e d')
  then show ?thesis by (cases e) (simp_all add: then_try_def)
qed

lemma adds_then_try [adds_intros]:
  assumes "adds P s" "adds P t"
  shows "adds P (then_try s t)"
  unfolding adds_def
proof
  fix d
  obtain cs where s: "dcalls (snd (s d)) = dcalls d @ cs" "list_all P cs" "cfg (snd (s d)) = cfg d"
    using assms(1) unfolding adds_def by blast
  obtain cs' where t: "dcalls (snd (t (snd (s d)))) = dcalls (snd (s d)) @ cs'" "list_all P cs'" "cfg (snd (t (snd (s d)))) = cfg (snd (s d))"
    using assms(2) unfolding adds_def by blast
  show "\<exists>cs. dcalls (snd (then_try s t d)) = dcalls d @ cs \<and> list_all P cs \<and> cfg (snd (then_try s t d)) = cfg d"
  proof (cases "fst (s d) = DOCA_SUCCESS")
    case True
    then show ?thesis using s t by (intro exI[of _ "cs @ cs'"]) (simp add: snd_then_try)
  next
    case False
    then show ?thesis using s by (intro exI[of _ cs]) (simp add: snd_then_try)
  qed
qed

lemma adds_try_all [adds_intros]: "(\<And>s. s \<in> set ss \<Longrightarrow> adds P s) \<Longrightarrow> adds P (try_all ss)"
  by (induction ss) (auto intro: adds_intros)

lemma adds_forget: "adds P s \<Longrightarrow> adds P (\<lambda>d. (f (s d), snd (s d)))"
  by (simp add: adds_def)

lemma adds_on_error [adds_intros]:
  assumes "adds P s" "adds P (\<lambda>d. (DOCA_SUCCESS, f d))"
  shows "adds P (on_error s f)"
proof -
  let ?t = "then_try (\<lambda>d. (DOCA_SUCCESS, snd (s d))) (\<lambda>d. (DOCA_SUCCESS, f d))"
  have "adds P ?t" using assms adds_forget[OF assms(1), of "\<lambda>_. DOCA_SUCCESS"] by (intro adds_then_try)
  moreover have "snd (on_error s f d) = (if fst (s d) \<in> {DOCA_SUCCESS, PROGRAM_ABORT} then snd (s d) else snd (?t d))" for d
    by (simp add: on_error_def then_try_def split: prod.splits)
  ultimately show ?thesis using assms(1) by (simp add: adds_def)
qed

lemma adds_with_peers [adds_intros]:
  assumes "P (Peer_ports port tx)" "\<And>q. P (c q)"
  shows "adds P (with_peers env port tx c)"
proof -
  have "adds P (then_try (check env (Peer_ports port tx)) (try_all (map (\<lambda>q. check env (c q)) xs)))" for xs
    using assms by (auto intro!: adds_then_try adds_check adds_try_all)
  then show ?thesis unfolding adds_def with_peers_def by simp
qed

fun quiet :: "dpdk_call \<Rightarrow> bool" where
  "quiet (Dev_start _) = False" | "quiet (Dev_stop _) = False" | "quiet (Dev_close _) = False" | "quiet _ = True"

lemma adds_bind [adds_intros]: "adds quiet (bind_hairpin_queues env p)"
  unfolding bind_hairpin_queues_def by (intro adds_then_try adds_with_peers) simp_all

lemma adds_unbind [adds_intros]: "adds quiet (unbind_hairpin_queues env p)"
  unfolding unbind_hairpin_queues_def by (intro adds_then_try adds_with_peers) simp_all

lemma adds_setup_hairpin [adds_intros]: "adds quiet (setup_hairpin_queues env p q xs)"
  unfolding setup_hairpin_queues_def by (auto simp: Let_def intro!: adds_try_all adds_then_try adds_check)

text \<open>The same for functions without a result.\<close>

abbreviation adds_to :: "(dpdk_call \<Rightarrow> bool) \<Rightarrow> (dpdk \<Rightarrow> dpdk) \<Rightarrow> bool" where
  "adds_to P f \<equiv> adds P (\<lambda>d. (DOCA_SUCCESS, f d))"

lemma adds_to_comp: "adds_to P f \<Longrightarrow> adds_to P g \<Longrightarrow> adds_to P (\<lambda>d. g (f d))"
  using adds_then_try[of P "\<lambda>d. (DOCA_SUCCESS, f d)" "\<lambda>d. (DOCA_SUCCESS, g d)"] by (simp add: then_try_def[abs_def])

lemma adds_to_id: "adds_to P (\<lambda>d. d)"
  by (simp add: adds_def)

lemma adds_to_if: "adds_to P f \<Longrightarrow> adds_to P g \<Longrightarrow> adds_to P (\<lambda>d. if b d then f d else g d)"
  by (simp add: adds_def)

lemma adds_to_fold: "(\<And>x. adds_to P (f x)) \<Longrightarrow> adds_to P (fold f xs)"
  by (induction xs) (auto simp: adds_to_id comp_def intro: adds_to_comp)

lemma adds_to_log: "P c \<Longrightarrow> adds_to P (log_call c)"
  by (simp add: adds_def log_call_def)

lemma adds_disable: "adds_to quiet (disable_hairpin_queues env nb)"
  unfolding disable_hairpin_queues_def
  by (intro adds_to_fold adds_to_if adds_to_id adds_forget[OF adds_unbind, where f = "\<lambda>_. DOCA_SUCCESS"])

lemma adds_for_valid_ports:
  assumes "\<And>p. adds P (body p)" "\<And>p. adds_to P (cleanup p)"
  shows "adds P (for_valid_ports env body cleanup nb n ports)"
proof (induction ports arbitrary: n)
  case Nil
  show ?case by (simp add: adds_def)
next
  case (Cons p ports)
  let ?then = "then_try (on_error (body p) (cleanup p)) (if nb \<le> Suc n then ok else for_valid_ports env body cleanup nb (Suc n) ports)"
  have "adds P ?then" using Cons assms by (intro adds_then_try adds_on_error) (simp_all add: adds_ok)
  then show ?case using Cons[of n] unfolding adds_def by (cases "nb \<le> Suc n") simp_all
qed

lemma adds_enable: "adds quiet (enable_hairpin_queues env nb)"
  unfolding enable_hairpin_queues_def by (intro adds_for_valid_ports adds_bind adds_disable)

lemma adds_sft_init: "adds quiet (dpdk_sft_init rte env junk)"
proof -
  have "adds quiet (\<lambda>d. (fst (f d), d\<lparr>sft := snd (f d)\<rparr>))" for f by (simp add: adds_def)
  then have "adds quiet (then_try (check env (Sft_init c)) (then_try (on_error (check env (Rss_conf_get 0)) (log_call Sft_fini))
      (\<lambda>d. (fst (f d), d\<lparr>sft := snd (f d)\<rparr>))))" for c f
    by (intro adds_then_try adds_on_error adds_check adds_to_log) simp_all
  then show ?thesis unfolding adds_def dpdk_sft_init_def Let_def split_beta by simp
qed

lemma adds_port_hairpin: "adds quiet (port_hairpin env port)"
proof -
  have "adds quiet (if a then if b then (\<lambda>d. (PROGRAM_ABORT, d)) else then_try (setup_hairpin_queues env p q xs) (setup_hairpin_queues env p' q' ys)
      else if c then setup_hairpin_queues env p'' q'' zs else ok)" for a b c p q xs p' q' ys p'' q'' zs
    by (auto intro!: adds_then_try adds_setup_hairpin adds_ok adds_abort)
  then show ?thesis unfolding adds_def port_hairpin_def Let_def by simp
qed

lemma adds_port_setup: "adds quiet (port_setup env pool port)"
proof -
  have "adds quiet (try_all ([check env (Dev_info_get port), check env (Dev_configure port a b c), check env (Promiscuous port)] @
       map (\<lambda>q. check env (Rx_queue_setup port q e pool)) xs @ map (\<lambda>q. check env (Tx_queue_setup port q f)) xs @
       [port_hairpin env port, check env (Flow_isolate port g)]))" for a b c e f g xs
    by (rule adds_try_all) (auto intro!: adds_check adds_port_hairpin)
  then show ?thesis unfolding adds_def port_setup_def Let_def by simp
qed

subsection \<open>Started and closed ports\<close>

fun started :: "dpdk_call list \<Rightarrow> nat list" where
  "started [] = []" | "started (Dev_start p # cs) = p # started cs" | "started (_ # cs) = started cs"

fun stopped :: "dpdk_call list \<Rightarrow> nat list" where
  "stopped [] = []" | "stopped (Dev_stop p # cs) = p # stopped cs" | "stopped (_ # cs) = stopped cs"

fun closed :: "dpdk_call list \<Rightarrow> nat list" where
  "closed [] = []" | "closed (Dev_close p # cs) = p # closed cs" | "closed (_ # cs) = closed cs"

lemma trace_append [simp]:
  "started (as @ bs) = started as @ started bs" "stopped (as @ bs) = stopped as @ stopped bs" "closed (as @ bs) = closed as @ closed bs"
  by (induction as rule: started.induct) simp_all

lemma trace_quiet: "list_all quiet cs \<Longrightarrow> started cs = [] \<and> stopped cs = [] \<and> closed cs = []"
proof (induction cs)
  case (Cons c cs)
  then show ?case by (cases c) simp_all
qed simp

lemma closed_iff: "p \<in> set (closed cs) \<longleftrightarrow> Dev_close p \<in> set cs"
  by (induction cs rule: closed.induct) auto

lemma adds_quiet_trace:
  assumes "adds quiet s" "s d = (r, d')"
  shows "started (dcalls d') = started (dcalls d)" "stopped (dcalls d') = stopped (dcalls d)" "closed (dcalls d') = closed (dcalls d)"
    "cfg d' = cfg d"
proof -
  obtain cs where "dcalls d' = dcalls d @ cs" "list_all quiet cs" "cfg d' = cfg d"
    using assms unfolding adds_def by (metis snd_conv)
  then show "started (dcalls d') = started (dcalls d)" "stopped (dcalls d') = stopped (dcalls d)" "closed (dcalls d') = closed (dcalls d)"
    "cfg d' = cfg d"
    using trace_quiet[of cs] by simp_all
qed

text \<open>
  What the documentation of DPDK says about validity: a port is valid until it is closed.
\<close>

definition valid_until_closed :: "rte_eth \<Rightarrow> nat set \<Rightarrow> bool" where
  "valid_until_closed env V \<longleftrightarrow> (\<forall>h p. is_valid_port env h p \<longleftrightarrow> p \<in> V \<and> Dev_close p \<notin> set h)"

lemma fini_ports_trace:
  assumes "valid_until_closed env V" "distinct ports" "set ports \<inter> set (closed (dcalls d)) = {}" "int n < nb"
  shows "closed (dcalls (fini_ports env nb n ports d)) = closed (dcalls d) @ take (nat nb - n) (filter (\<lambda>p. p \<in> V) ports) \<and>
         stopped (dcalls (fini_ports env nb n ports d)) = stopped (dcalls d) @ take (nat nb - n) (filter (\<lambda>p. p \<in> V) ports) \<and>
         started (dcalls (fini_ports env nb n ports d)) = started (dcalls d) \<and> cfg (fini_ports env nb n ports d) = cfg d"
  using assms(2-)
proof (induction ports arbitrary: n d)
  case (Cons p ports)
  have v: "is_valid_port env (dcalls d) p \<longleftrightarrow> p \<in> V"
    using assms(1) Cons.prems(2) closed_iff by (auto simp: valid_until_closed_def)
  let ?d = "log_call (Dev_close p) (log_call (Dev_stop p) d)"
  have d: "closed (dcalls ?d) = closed (dcalls d) @ [p]" "stopped (dcalls ?d) = stopped (dcalls d) @ [p]"
    "started (dcalls ?d) = started (dcalls d)" "cfg ?d = cfg d" by (simp_all add: log_call_def)
  show ?case
  proof (cases "p \<in> V")
    case True
    have t: "nat nb - n = Suc (nat nb - Suc n)" using Cons.prems(3) by linarith
    show ?thesis
    proof (cases "nb \<le> int (Suc n)")
      case True
      then have "nat nb - Suc n = 0" by linarith
      then show ?thesis using True \<open>p \<in> V\<close> v d t by (simp add: Let_def)
    next
      case False
      then show ?thesis using Cons.IH[of ?d "Suc n"] Cons.prems \<open>p \<in> V\<close> v d t by (simp add: Let_def)
    qed
  next
    case False
    then show ?thesis using Cons.IH[of d n] Cons.prems v by simp
  qed
qed simp

lemma dpdk_ports_fini_trace:
  assumes "valid_until_closed env V" "closed (dcalls d) = []" "0 < nb_ports (port_config (cfg d))"
    and ps: "ps = take (nat (nb_ports (port_config (cfg d)))) (rev (filter (\<lambda>p. p \<in> V) [0..<Suc nb]))"
  shows "closed (dcalls (dpdk_ports_fini env nb d)) = ps" "stopped (dcalls (dpdk_ports_fini env nb d)) = stopped (dcalls d) @ ps"
    "started (dcalls (dpdk_ports_fini env nb d)) = started (dcalls d)" "cfg (dpdk_ports_fini env nb d) = cfg d"
proof -
  let ?nb = "nb_ports (port_config (cfg d))" and ?d = "fini_ports env (nb_ports (port_config (cfg d))) 0 (rev [0..<Suc nb]) d"
  have "closed (dcalls ?d) = ps \<and> stopped (dcalls ?d) = stopped (dcalls d) @ ps \<and> started (dcalls ?d) = started (dcalls d) \<and> cfg ?d = cfg d"
    using fini_ports_trace[OF assms(1), of "rev [0..<Suc nb]" d 0 ?nb] assms(2,3) by (simp add: ps rev_filter del: upt_Suc)
  then show "closed (dcalls (dpdk_ports_fini env nb d)) = ps" "stopped (dcalls (dpdk_ports_fini env nb d)) = stopped (dcalls d) @ ps"
    "started (dcalls (dpdk_ports_fini env nb d)) = started (dcalls d)" "cfg (dpdk_ports_fini env nb d) = cfg d"
    by (simp_all add: dpdk_ports_fini_def log_call_def Let_def)
qed

lemma port_init_trace:
  assumes "port_init env pool p d = (r, d')" "p < 256"
  shows "closed (dcalls d') = closed (dcalls d)" "stopped (dcalls d') = stopped (dcalls d)" "cfg d' = cfg d"
    "\<exists>xs. started (dcalls d') = started (dcalls d) @ xs \<and> (xs = [] \<or> xs = [p]) \<and> (r = DOCA_SUCCESS \<longrightarrow> xs = [p])"
proof -
  have p: "unat (of_nat p :: u8) = p" using assms(2) by (simp add: unat_of_nat)
  have i: "then_try (port_setup env pool p) (check env (Dev_start p)) d = (r, d')"
    using assms(1) by (simp add: port_init_def p)
  have "closed (dcalls d') = closed (dcalls d) \<and> stopped (dcalls d') = stopped (dcalls d) \<and> cfg d' = cfg d \<and>
      (\<exists>xs. started (dcalls d') = started (dcalls d) @ xs \<and> (xs = [] \<or> xs = [p]) \<and> (r = DOCA_SUCCESS \<longrightarrow> xs = [p]))"
    using i
  proof (cases rule: then_try_cases)
    case first
    then show ?thesis using adds_quiet_trace[OF adds_port_setup] by simp
  next
    case (second d1)
    have d': "d' = log_call (Dev_start p) d1" using second(2) by (simp add: check_def)
    show ?thesis using adds_quiet_trace[OF adds_port_setup second(1)] by (simp add: d' log_call_def)
  qed
  then show "closed (dcalls d') = closed (dcalls d)" "stopped (dcalls d') = stopped (dcalls d)" "cfg d' = cfg d"
    "\<exists>xs. started (dcalls d') = started (dcalls d) @ xs \<and> (xs = [] \<or> xs = [p]) \<and> (r = DOCA_SUCCESS \<longrightarrow> xs = [p])"
    by blast+
qed

text \<open>The first \<open>j\<close> of the valid ports were set up, the last of them perhaps not started, and are closed in
  the opposite order.\<close>

definition brought_down :: "nat list \<Rightarrow> nat \<Rightarrow> dpdk \<Rightarrow> bool" where
  "brought_down vs nb d \<longleftrightarrow> (\<exists>j \<le> nb. j \<le> length vs \<and> closed (dcalls d) = rev (take j vs) \<and> stopped (dcalls d) = rev (take j vs) \<and>
     (started (dcalls d) = take j vs \<or> started (dcalls d) = take (j - 1) vs))"

lemma brought_down_none:
  "closed (dcalls d) = [] \<Longrightarrow> stopped (dcalls d) = [] \<Longrightarrow> started (dcalls d) = [] \<Longrightarrow> brought_down vs nb d"
  unfolding brought_down_def by (rule exI[of _ 0]) simp

lemma filter_upt_split: "k \<le> n \<Longrightarrow> filter P [0..<n] = filter P [0..<k] @ filter P [k..<n]"
  using upt_add_eq_append[of 0 k "n - k"] by (metis filter_append le0 le_add_diff_inverse)

lemma take_filter_upt: "k \<le> n \<Longrightarrow> take (length (filter P [0..<k])) (filter P [0..<n]) = filter P [0..<k]"
  by (simp add: filter_upt_split[of k n])

lemma ports_loop:
  assumes V: "valid_until_closed env V" "RTE_MAX_ETHPORTS env \<le> 256"
    and "closed (dcalls d) = []" "stopped (dcalls d) = []" "started (dcalls d) = filter (\<lambda>p. p \<in> V) [0..<k]"
    and "length (filter (\<lambda>p. p \<in> V) [0..<k]) < nb" "nb_ports (port_config (cfg d)) = int nb" "k \<le> RTE_MAX_ETHPORTS env"
    and "for_valid_ports env (port_init env pool) (dpdk_ports_fini env) nb (length (filter (\<lambda>p. p \<in> V) [0..<k])) [k..<RTE_MAX_ETHPORTS env] d = (r, d')"
  shows "cfg d' = cfg d \<and>
    (r = DOCA_SUCCESS \<longrightarrow> closed (dcalls d') = [] \<and> stopped (dcalls d') = [] \<and>
       started (dcalls d') = take nb (filter (\<lambda>p. p \<in> V) [0..<RTE_MAX_ETHPORTS env])) \<and>
    (r \<noteq> DOCA_SUCCESS \<and> r \<noteq> PROGRAM_ABORT \<longrightarrow> brought_down (filter (\<lambda>p. p \<in> V) [0..<RTE_MAX_ETHPORTS env]) nb d')"
  using assms(3-)
proof (induction "RTE_MAX_ETHPORTS env - k" arbitrary: k d)
  case 0
  then show ?case by (simp add: upt_conv_Nil)
next
  case (Suc j)
  let ?M = "RTE_MAX_ETHPORTS env" and ?vs = "\<lambda>k. filter (\<lambda>p. p \<in> V) [0..<k]"
  have k: "[k..<?M] = k # [Suc k..<?M]" "k < ?M" "j = ?M - Suc k" using Suc.hyps(2) by (simp_all add: upt_conv_Cons)
  have v: "is_valid_port env (dcalls d) k \<longleftrightarrow> k \<in> V"
    using V(1) Suc.prems(1) closed_iff[of k "dcalls d"] by (simp add: valid_until_closed_def)
  show ?case
  proof (cases "k \<in> V")
    case False
    then show ?thesis using Suc.hyps(1)[OF k(3), of d] Suc.prems k v by simp
  next
    case True
    then have vk: "?vs (Suc k) = ?vs k @ [k]" by simp
    have run: "then_try (on_error (port_init env pool k) (dpdk_ports_fini env k))
        (if nb \<le> Suc (length (?vs k)) then ok
         else for_valid_ports env (port_init env pool) (dpdk_ports_fini env) nb (length (?vs (Suc k))) [Suc k..<?M]) d = (r, d')"
      using Suc.prems(7) True v k(1) by (cases "nb \<le> Suc (length (?vs k))") simp_all
    show ?thesis
      using run
    proof (cases rule: then_try_cases)
      case first
      then show ?thesis
      proof (cases rule: on_error_cases)
        case kept
        then show ?thesis using first(2) port_init_trace(3) k(2) V(2) by auto
      next
        case (cleaned d1)
        have p: "k < 256" using k(2) V(2) by simp
        note t = port_init_trace[OF cleaned(1) p]
        obtain xs where xs: "started (dcalls d1) = ?vs k @ xs" "xs = [] \<or> xs = [k]" using t(4) Suc.prems(3) by auto
        have "take nb (rev (?vs (Suc k))) = rev (?vs (Suc k))" using Suc.prems(4) vk by simp
        then have f: "closed (dcalls d') = rev (?vs (Suc k))" "stopped (dcalls d') = rev (?vs (Suc k))"
          "started (dcalls d') = ?vs k @ xs" "cfg d' = cfg d"
          using dpdk_ports_fini_trace[OF V(1) _ _ refl, of d1 k] t xs Suc.prems(1,2,4,5) cleaned(2) by (simp_all del: upt_Suc)
        have j: "take (length (?vs (Suc k))) (?vs ?M) = ?vs (Suc k)" "take (length (?vs k)) (?vs ?M) = ?vs k"
          using k(2) by (simp_all add: take_filter_upt del: upt_Suc)
        have "length (?vs (Suc k)) \<le> length (?vs ?M)" using k(2) filter_upt_split[of "Suc k" ?M] by (simp del: upt_Suc)
        then have "brought_down (?vs ?M) nb d'"
          unfolding brought_down_def using f j xs(2) vk Suc.prems(4)
          by (intro exI[of _ "length (?vs (Suc k))"]) (auto simp del: upt_Suc)
        then show ?thesis using cleaned(3) first(2) f(4) by simp
      qed
    next
      case (second d1)
      have "port_init env pool k d = (DOCA_SUCCESS, d1)"
        using second(1) by (auto simp: on_error_def split: prod.splits if_splits)
      moreover have "k < 256" using k(2) V(2) by simp
      ultimately have d1: "closed (dcalls d1) = []" "stopped (dcalls d1) = []" "cfg d1 = cfg d" "started (dcalls d1) = ?vs (Suc k)"
        using port_init_trace[of env pool k d DOCA_SUCCESS d1] Suc.prems(1-3) vk by auto
      show ?thesis
      proof (cases "nb \<le> Suc (length (?vs k))")
        case True
        then have "length (?vs (Suc k)) = nb" using Suc.prems(4) vk by simp
        moreover have "?vs ?M = ?vs (Suc k) @ filter (\<lambda>p. p \<in> V) [Suc k..<?M]" using k(2) by (intro filter_upt_split) simp
        ultimately have "take nb (?vs ?M) = ?vs (Suc k)" by simp
        then show ?thesis using second(2) True d1 by (simp add: ok_def del: upt_Suc)
      next
        case False
        then show ?thesis using Suc.hyps(1)[OF k(3), of d1] second(2) d1 Suc.prems(5) k(2) vk by simp
      qed
    qed
  qed
qed

definition up :: "rte_eth \<Rightarrow> nat set \<Rightarrow> nat \<Rightarrow> dpdk \<Rightarrow> bool" where
  "up env V nb d \<longleftrightarrow> closed (dcalls d) = [] \<and> stopped (dcalls d) = [] \<and>
     started (dcalls d) = take nb (filter (\<lambda>p. p \<in> V) [0..<RTE_MAX_ETHPORTS env])"

lemma ports_init_trace:
  assumes V: "valid_until_closed env V" "RTE_MAX_ETHPORTS env \<le> 256"
    and d: "closed (dcalls d) = []" "stopped (dcalls d) = []" "started (dcalls d) = []"
    and nb: "nb_ports (port_config (cfg d)) = int nb" "0 < nb" "nb < 2 ^ 16"
    and run: "dpdk_ports_init env d = (r, d')"
  shows "port_config (cfg d') = port_config (cfg d) \<and> (r = DOCA_SUCCESS \<longrightarrow> up env V nb d') \<and>
    (r \<noteq> DOCA_SUCCESS \<and> r \<noteq> PROGRAM_ABORT \<longrightarrow> brought_down (filter (\<lambda>p. p \<in> V) [0..<RTE_MAX_ETHPORTS env]) nb d')"
proof -
  have u: "unat (word_of_int (int nb) :: u16) = nb" using nb(3) by (simp add: unat_of_nat)
  let ?mb = "word_of_int (nb_queues (port_config (cfg d)) * int nb * NUM_MBUFS) :: u32"
  let ?meta = "if enable_mbuf_metadata (port_config (cfg d)) \<or> sft_enable (sft_config (cfg d)) then check env Metadata_register else ok"
  have "adds quiet ?meta" by (simp add: adds_check adds_ok)
  have a: "closed (dcalls d1) = [] \<and> stopped (dcalls d1) = [] \<and> started (dcalls d1) = [] \<and> port_config (cfg d1) = port_config (cfg d)"
    if "allocate_mempool env ?mb d = (e, d1)" for e d1
    using that d by (auto simp: allocate_mempool_def log_call_def Let_def)
  have "then_try (allocate_mempool env ?mb) (then_try ?meta
      (\<lambda>d. for_valid_ports env (port_init env (mbuf_pool (cfg d))) (dpdk_ports_fini env) nb 0 [0..<RTE_MAX_ETHPORTS env] d)) d = (r, d')"
    using run by (simp only: dpdk_ports_init_def Let_def nb(1) u)
  then show ?thesis
  proof (cases rule: then_try_cases)
    case first
    then show ?thesis using a[OF first(1)] by (simp add: brought_down_none)
  next
    case (second d1)
    show ?thesis
      using second(2)
    proof (cases rule: then_try_cases)
      case first
      then show ?thesis using a[OF second(1)] adds_quiet_trace[OF \<open>adds quiet ?meta\<close> first(1)] by (simp add: brought_down_none)
    next
      case (second d2)
      note t = adds_quiet_trace[OF \<open>adds quiet ?meta\<close> second(1)] a[OF \<open>allocate_mempool env ?mb d = (DOCA_SUCCESS, d1)\<close>]
      show ?thesis
        using ports_loop[OF V, of d2 0 nb "mbuf_pool (cfg d2)" r d'] t nb second(2) by (simp add: up_def)
    qed
  qed
qed

lemma adds_mid:
  "adds quiet (then_try (if a then enable_hairpin_queues env nb else ok)
     (on_error (if b then dpdk_sft_init rte env junk else ok) (disable_hairpin_queues env n)))"
  by (intro adds_then_try adds_on_error) (simp_all add: adds_enable adds_sft_init adds_disable adds_ok)

lemma bring_up_trace:
  assumes V: "valid_until_closed env V" "RTE_MAX_ETHPORTS env \<le> 256" "\<forall>p \<in> V. p < RTE_MAX_ETHPORTS env"
    and d: "closed (dcalls d) = []" "stopped (dcalls d) = []" "started (dcalls d) = []"
    and nb: "nb_ports (port_config (cfg d)) = int nb" "0 < nb" "nb < 2 ^ 16"
    and run: "bring_up rte env junk d = (r, d')" and vs: "vs = filter (\<lambda>p. p \<in> V) [0..<RTE_MAX_ETHPORTS env]"
  shows "(r = DOCA_SUCCESS \<longrightarrow> up env V nb d') \<and>
    (r \<noteq> DOCA_SUCCESS \<and> r \<noteq> PROGRAM_ABORT \<longrightarrow>
       (if fst (dpdk_ports_init env d) = DOCA_SUCCESS
        then started (dcalls d') = take nb vs \<and> closed (dcalls d') = take nb (rev vs) \<and> stopped (dcalls d') = take nb (rev vs)
        else brought_down vs nb d'))"
proof -
  let ?mid = "then_try (if 0 < nb_hairpin_q (port_config (cfg d)) then enable_hairpin_queues env (word_of_int (int nb)) else ok)
      (on_error (if sft_enable (sft_config (cfg d)) then dpdk_sft_init rte env junk else ok) (disable_hairpin_queues env (RTE_MAX_ETHPORTS env)))"
  have n0: "(0 < int nb) = True" using nb(2) by simp
  have "then_try (dpdk_ports_init env) (on_error ?mid (dpdk_ports_fini env (RTE_MAX_ETHPORTS env))) d = (r, d')"
    using run by (simp only: bring_up_def Let_def nb(1) n0 if_True)
  then show ?thesis
  proof (cases rule: then_try_cases)
    case first
    then show ?thesis using ports_init_trace[OF V(1,2) d nb first(1)] vs by simp
  next
    case (second d1)
    note u = ports_init_trace[OF V(1,2) d nb second(1)]
    show ?thesis
      using second(2)
    proof (cases rule: on_error_cases)
      case kept
      then show ?thesis using u adds_quiet_trace[OF adds_mid kept(1)] by (auto simp: up_def)
    next
      case (cleaned d2)
      note q = adds_quiet_trace[OF adds_mid cleaned(1)]
      have rv: "filter (\<lambda>p. p \<in> V) [0..<Suc (RTE_MAX_ETHPORTS env)] = vs" using V(3) vs by auto
      have "closed (dcalls d') = take nb (rev vs)" "stopped (dcalls d') = take nb (rev vs)" "started (dcalls d') = take nb vs"
        using dpdk_ports_fini_trace[OF V(1) _ _ refl, of d2 "RTE_MAX_ETHPORTS env"] u q cleaned(2) nb(1,2) vs rv
        by (simp_all add: up_def del: upt_Suc)
      then show ?thesis using cleaned(3,4) second(1) by simp
    qed
  qed
qed

subsection \<open>A concrete environment\<close>

text \<open>Three ports of which two are wanted, and a driver that refuses to bind hairpin queues.\<close>

definition sample_eth :: rte_eth where
  "sample_eth = \<lparr>RTE_MAX_ETHPORTS = 4, RTE_ETH_RSS_IP = 1, RTE_ETH_RSS_UDP = 2, RTE_ETH_RSS_TCP = 4, RTE_ETH_HASH_FUNCTION_DEFAULT = 0,
     call_result = (\<lambda>_ c. case c of Peer_ports _ _ \<Rightarrow> 1 | Hairpin_bind _ _ \<Rightarrow> - 1 | _ \<Rightarrow> 0),
     is_valid_port = (\<lambda>h p. p < 3 \<and> Dev_close p \<notin> set h), peer_list = (\<lambda>_ p _. [p + 1]), rss_conf_of = (\<lambda>_ _ c. c),
     pool_create = (\<lambda>_ _. 0x1000), dev_count_avail = (\<lambda>_. 3), lcore_count = (\<lambda>_. 1)\<rparr>"

definition sample_dpdk :: dpdk where
  "sample_dpdk = \<lparr>dcalls = [],
     cfg = sample_dpdk_config\<lparr>port_config := (port_config sample_dpdk_config)\<lparr>nb_queues := 1, nb_hairpin_q := 1\<rparr>\<rparr>, sft = \<lparr>app_rules = no_rules, calls = []\<rparr>\<rparr>"

subsection \<open>Properties\<close>

text \<open>
  C15: bringing up the ports.  Let \<open>vs\<close> be the valid ports in ascending order.  A successful
  initialisation has started exactly the first \<open>nb_ports\<close> of them and closed none.  Of the failures, a
  missing port or core is noticed before anything is done.  If \<open>dpdk_ports_init\<close> fails, at the packet pool, the
  metadata or a port, exactly the ports it has touched are stopped and closed, the last first; only the
  last of them may not have been started.  If all ports are up and the hairpin queues or the flow tables fail, the last
  \<open>nb_ports\<close> valid ports are stopped and closed, and not the first, which were started: with more valid ports
  than \<open>nb_ports\<close> started ports are left running.
\<close>

theorem dpdk_init_ports:
  assumes "valid_until_closed env V" "RTE_MAX_ETHPORTS env \<le> 256" "\<forall>p \<in> V. p < RTE_MAX_ETHPORTS env"
    and "dcalls d = []" "nb_ports (port_config (cfg d)) = int nb" "0 < nb" "nb < 2 ^ 16"
    and "dpdk_queues_and_ports_init rte env junk d = (r, d')" "vs = filter (\<lambda>p. p \<in> V) [0..<RTE_MAX_ETHPORTS env]"
    and "q = nb_queues (port_config (cfg d))"
  shows "(r = DOCA_SUCCESS \<longrightarrow> started (dcalls d') = take nb vs \<and> stopped (dcalls d') = [] \<and> closed (dcalls d') = []) \<and>
    (r \<noteq> DOCA_SUCCESS \<and> r \<noteq> PROGRAM_ABORT \<longrightarrow>
      (if dev_count_avail env [] < int nb \<or> 0 < q \<and> lcore_count env [] < q then d' = d
       else if fst (dpdk_ports_init env (with_queues env d)) \<noteq> DOCA_SUCCESS
       then \<exists>j \<le> nb. j \<le> length vs \<and> closed (dcalls d') = rev (take j vs) \<and> stopped (dcalls d') = rev (take j vs) \<and>
              (started (dcalls d') = take j vs \<or> started (dcalls d') = take (j - 1) vs)
       else started (dcalls d') = take nb vs \<and> closed (dcalls d') = take nb (rev vs) \<and> stopped (dcalls d') = take nb (rev vs)))"
proof (cases "dev_count_avail env [] < int nb \<or> 0 < q \<and> lcore_count env [] < q")
  case True
  then have "(DOCA_ERROR_DRIVER, d) = (r, d')"
    using assms(4-6,8,10) by (auto simp: dpdk_queues_and_ports_init_def Let_def split: if_splits)
  with True show ?thesis by auto
next
  case False
  then have b: "bring_up rte env junk (with_queues env d) = (r, d')"
    using assms(4,5,8,10) by (auto simp: dpdk_queues_and_ports_init_def Let_def split: if_splits)
  have w: "dcalls (with_queues env d) = []" "nb_ports (port_config (cfg (with_queues env d))) = int nb"
    using assms(4,5) by (simp_all add: with_queues_def Let_def)
  have "(r = DOCA_SUCCESS \<longrightarrow> up env V nb d') \<and> (r \<noteq> DOCA_SUCCESS \<and> r \<noteq> PROGRAM_ABORT \<longrightarrow>
       (if fst (dpdk_ports_init env (with_queues env d)) = DOCA_SUCCESS
        then started (dcalls d') = take nb vs \<and> closed (dcalls d') = take nb (rev vs) \<and> stopped (dcalls d') = take nb (rev vs)
        else brought_down vs nb d'))"
    by (rule bring_up_trace[OF assms(1-3) _ _ _ w(2) assms(6,7) b assms(9)]) (simp_all add: w)
  with False show ?thesis unfolding up_def brought_down_def assms(9)[symmetric] by auto
qed

theorem dpdk_init_ports_witness:
  "\<exists>d'. dpdk_queues_and_ports_init sample_rte sample_eth [] sample_dpdk = (DOCA_ERROR_DRIVER, d') \<and>
     started (dcalls d') = [0, 1] \<and> closed (dcalls d') = [2, 1]"
proof -
  obtain r d' where e: "dpdk_queues_and_ports_init sample_rte sample_eth [] sample_dpdk = (r, d')" by fastforce
  have "(case dpdk_queues_and_ports_init sample_rte sample_eth [] sample_dpdk of (r, d') \<Rightarrow>
      r = DOCA_ERROR_DRIVER \<and> started (dcalls d') = [0, 1] \<and> 0 \<notin> set (closed (dcalls d')))" by code_simp
  then have c: "r = DOCA_ERROR_DRIVER" "started (dcalls d') = [0, 1]" "0 \<notin> set (closed (dcalls d'))" unfolding e by auto
  have v: "valid_until_closed sample_eth {..<3}" by (simp add: valid_until_closed_def sample_eth_def)
  have vs: "[0, 1, 2] = filter (\<lambda>p. p \<in> {..<3}) [0..<RTE_MAX_ETHPORTS sample_eth]" by code_simp
  have m: "RTE_MAX_ETHPORTS sample_eth = 4" by (simp add: sample_eth_def)
  have h: "RTE_MAX_ETHPORTS sample_eth \<le> 256" "\<forall>p \<in> {..<3}. p < RTE_MAX_ETHPORTS sample_eth" "dcalls sample_dpdk = []"
    "nb_ports (port_config (cfg sample_dpdk)) = int 2" "0 < (2 :: nat)" "(2 :: nat) < 2 ^ 16"
    unfolding m by (simp_all add: sample_dpdk_def sample_dpdk_config_def)
  have "fst (dpdk_ports_init sample_eth (with_queues sample_eth sample_dpdk)) = DOCA_SUCCESS \<and> \<not> dev_count_avail sample_eth [] < int 2 \<and>
      \<not> lcore_count sample_eth [] < nb_queues (port_config (cfg sample_dpdk))" by code_simp
  then have "closed (dcalls d') = take 2 (rev [0, 1, 2])" using dpdk_init_ports[OF v h e vs refl] c(1) by auto
  then show ?thesis using e c by simp
qed

end
