(* ===== verification/Roofline.thy ===== *)
theory Roofline
  imports Sample_Device
begin

text \<open>
  The roofline benchmark: the arithmetic kernels of \<open>flexio/roofline/device/roofline_device.c\<close> and of
  \<open>test_suite/roofline/roofline.h\<close>, with the device program around the first.

  A kernel keeps its accumulators \<open>sum1\<close>, \<open>sum2\<close>, \dots in a list; each \<open>sumN op= x\<close> of the source is an update
  of entry \<open>N - 1\<close>.  The macros \<open>REPk\<close> repeat a block \<open>k\<close> times, here as the \<open>k\<close>-th power of its function.
  The accumulators are 64-bit words that wrap, as they do on both machines.
\<close>

subsection \<open>Building blocks\<close>

type_synonym kernel = "memory \<Rightarrow> ptr \<Rightarrow> int \<Rightarrow> nat \<Rightarrow> u64"

text \<open>\<open>sum1 op= tmp; sum2 op= tmp; \<dots>\<close>\<close>

definition each :: "(u64 \<Rightarrow> u64 \<Rightarrow> u64) \<Rightarrow> u64 \<Rightarrow> u64 list \<Rightarrow> u64 list" where
  "each f tmp s = map (\<lambda>x. f x tmp) s"

text \<open>\<open>sumI op= sumJ\<close>\<close>

definition upd :: "(u64 \<Rightarrow> u64 \<Rightarrow> u64) \<Rightarrow> nat \<times> nat \<Rightarrow> u64 list \<Rightarrow> u64 list" where
  "upd f ij s = s[fst ij - 1 := f (s ! (fst ij - 1)) (s ! (snd ij - 1))]"

definition halves :: "(u64 \<Rightarrow> u64 \<Rightarrow> u64) \<Rightarrow> u64 list \<Rightarrow> u64 list" where
  "halves f = fold (upd f) [(1, 5), (2, 6), (3, 7), (4, 8)]"

definition chain :: "(u64 \<Rightarrow> u64 \<Rightarrow> u64) \<Rightarrow> u64 list \<Rightarrow> u64 list" where
  "chain f = fold (upd f) [(1, 5), (2, 6), (3, 7), (4, 8), (5, 1), (6, 2), (7, 3), (8, 4)]"

text \<open>\<open>sum8 += tmp\<close>\<close>

definition into_8 :: "u64 \<Rightarrow> u64 list \<Rightarrow> u64 list" where
  "into_8 tmp s = s[7 := s ! 7 + tmp]"

text \<open>The two loops around a body, with and without a read.\<close>

definition read_kernel :: "(u64 \<Rightarrow> u64 list \<Rightarrow> u64 list) \<Rightarrow> u64 list \<Rightarrow> kernel" where
  "read_kernel body sums m data num_ele loop =
     sum_list ((fold (\<lambda>i s. body (load64 m (data + of_nat (8 * i))) s) [0..<nat num_ele] ^^ loop) sums)"

definition pure_kernel :: "(u64 list \<Rightarrow> u64 list) \<Rightarrow> u64 list \<Rightarrow> int \<Rightarrow> nat \<Rightarrow> u64" where
  "pure_kernel body sums num_ele loop = sum_list ((fold (\<lambda>i s. body s) [0..<nat num_ele] ^^ loop) sums)"

subsection \<open>Kernels on the device\<close>

definition add_read_1 :: kernel where "add_read_1 = read_kernel (each (+)) [1]"
definition add_read_2 :: kernel where "add_read_2 = read_kernel (each (+)) [1, 2]"
definition add_read_3 :: kernel where "add_read_3 = read_kernel (each (+)) [1, 2, 3]"
definition add_read_4 :: kernel where "add_read_4 = read_kernel (each (+)) [1, 2, 3, 4]"
definition add_read_6 :: kernel where "add_read_6 = read_kernel (each (+)) [1, 2, 3, 4, 5, 6]"
definition add_read_8 :: kernel where "add_read_8 = read_kernel (each (+)) [1, 2, 3, 4, 5, 6, 7, 8]"
definition add_read_12 :: kernel where "add_read_12 = read_kernel (\<lambda>tmp s. halves (+) (each (+) tmp s)) [1, 2, 3, 4, 5, 6, 7, 8]"
definition add_read_16 :: kernel where "add_read_16 = read_kernel (\<lambda>tmp s. (chain (+) ^^ 2) (into_8 tmp s)) [1, 2, 3, 4, 5, 6, 7, 8]"
definition add_read_24 :: kernel where "add_read_24 = read_kernel (\<lambda>tmp s. (chain (+) ^^ 3) (into_8 tmp s)) [1, 2, 3, 4, 5, 6, 7, 8]"
definition add_read_32 :: kernel where "add_read_32 = read_kernel (\<lambda>tmp s. (chain (+) ^^ 4) (into_8 tmp s)) [1, 2, 3, 4, 5, 6, 7, 8]"
definition add_read_64 :: kernel where "add_read_64 = read_kernel (\<lambda>tmp s. (chain (+) ^^ 8) (into_8 tmp s)) [1, 2, 3, 4, 5, 6, 7, 8]"
definition add_read_128 :: kernel where "add_read_128 = read_kernel (\<lambda>tmp s. (chain (+) ^^ 16) (into_8 tmp s)) [1, 2, 3, 4, 5, 6, 7, 8]"
definition add_read_256 :: kernel where "add_read_256 = read_kernel (\<lambda>tmp s. (chain (+) ^^ 32) (into_8 tmp s)) [1, 2, 3, 4, 5, 6, 7, 8]"
definition add_read_512 :: kernel where "add_read_512 = read_kernel (\<lambda>tmp s. (chain (+) ^^ 64) (into_8 tmp s)) [1, 2, 3, 4, 5, 6, 7, 8]"
definition add_read_1024 :: kernel where "add_read_1024 = read_kernel (\<lambda>tmp s. (chain (+) ^^ 128) (into_8 tmp s)) [1, 2, 3, 4, 5, 6, 7, 8]"
definition add_read_2048 :: kernel where "add_read_2048 = read_kernel (\<lambda>tmp s. (chain (+) ^^ 256) (into_8 tmp s)) [1, 2, 3, 4, 5, 6, 7, 8]"

definition mul_read_1 :: kernel where "mul_read_1 = read_kernel (each (*)) [1]"
definition mul_read_2 :: kernel where "mul_read_2 = read_kernel (each (*)) [1, 2]"
definition mul_read_3 :: kernel where "mul_read_3 = read_kernel (each (*)) [1, 2, 3]"
definition mul_read_4 :: kernel where "mul_read_4 = read_kernel (each (*)) [1, 2, 3, 4]"
definition mul_read_6 :: kernel where "mul_read_6 = read_kernel (each (*)) [1, 2, 3, 4, 5, 6]"
definition mul_read_8 :: kernel where "mul_read_8 = read_kernel (each (*)) [1, 2, 3, 4, 5, 6, 7, 8]"
definition mul_read_12 :: kernel where "mul_read_12 = read_kernel (\<lambda>tmp s. halves (*) (each (*) tmp s)) [1, 2, 3, 4, 5, 6, 7, 8]"
definition mul_read_16 :: kernel where "mul_read_16 = read_kernel (\<lambda>tmp s. (chain (*) ^^ 2) (into_8 tmp s)) [1, 2, 3, 4, 5, 6, 7, 8]"
definition mul_read_24 :: kernel where "mul_read_24 = read_kernel (\<lambda>tmp s. (chain (*) ^^ 3) (into_8 tmp s)) [1, 2, 3, 4, 5, 6, 7, 8]"
definition mul_read_32 :: kernel where "mul_read_32 = read_kernel (\<lambda>tmp s. (chain (*) ^^ 4) (into_8 tmp s)) [1, 2, 3, 4, 5, 6, 7, 8]"
definition mul_read_64 :: kernel where "mul_read_64 = read_kernel (\<lambda>tmp s. (chain (*) ^^ 8) (into_8 tmp s)) [1, 2, 3, 4, 5, 6, 7, 8]"
definition mul_read_128 :: kernel where "mul_read_128 = read_kernel (\<lambda>tmp s. (chain (*) ^^ 16) (into_8 tmp s)) [1, 2, 3, 4, 5, 6, 7, 8]"
definition mul_read_256 :: kernel where "mul_read_256 = read_kernel (\<lambda>tmp s. (chain (*) ^^ 32) (into_8 tmp s)) [1, 2, 3, 4, 5, 6, 7, 8]"
definition mul_read_512 :: kernel where "mul_read_512 = read_kernel (\<lambda>tmp s. (chain (*) ^^ 64) (into_8 tmp s)) [1, 2, 3, 4, 5, 6, 7, 8]"
definition mul_read_1024 :: kernel where "mul_read_1024 = read_kernel (\<lambda>tmp s. (chain (*) ^^ 128) (into_8 tmp s)) [1, 2, 3, 4, 5, 6, 7, 8]"
definition mul_read_2048 :: kernel where "mul_read_2048 = read_kernel (\<lambda>tmp s. (chain (*) ^^ 256) (into_8 tmp s)) [1, 2, 3, 4, 5, 6, 7, 8]"

definition roofline_sizet_add_read :: "memory \<Rightarrow> ptr \<Rightarrow> int \<Rightarrow> int \<Rightarrow> nat \<Rightarrow> u64" where
  "roofline_sizet_add_read m data num_ele compute_count loop =
     (let sum = 0 in
      if compute_count = 1 then sum + add_read_1 m data num_ele loop else
      if compute_count = 2 then sum + add_read_2 m data num_ele loop else
      if compute_count = 3 then sum + add_read_3 m data num_ele loop else
      if compute_count = 4 then sum + add_read_4 m data num_ele loop else
      if compute_count = 6 then sum + add_read_6 m data num_ele loop else
      if compute_count = 8 then sum + add_read_8 m data num_ele loop else
      if compute_count = 12 then sum + add_read_12 m data num_ele loop else
      if compute_count = 16 then sum + add_read_16 m data num_ele loop else
      if compute_count = 24 then sum + add_read_24 m data num_ele loop else
      if compute_count = 32 then sum + add_read_32 m data num_ele loop else
      if compute_count = 64 then sum + add_read_64 m data num_ele loop else
      if compute_count = 128 then sum + add_read_128 m data num_ele loop else
      if compute_count = 256 then sum + add_read_256 m data num_ele loop else
      if compute_count = 512 then sum + add_read_512 m data num_ele loop else
      if compute_count = 1024 then sum + add_read_1024 m data num_ele loop else
      if compute_count = 2048 then sum + add_read_2048 m data num_ele loop else
      sum)"

definition roofline_sizet_mul_read :: "memory \<Rightarrow> ptr \<Rightarrow> int \<Rightarrow> int \<Rightarrow> nat \<Rightarrow> u64" where
  "roofline_sizet_mul_read m data num_ele compute_count loop =
     (let sum = 1 in
      if compute_count = 1 then sum + mul_read_1 m data num_ele loop else
      if compute_count = 2 then sum + mul_read_2 m data num_ele loop else
      if compute_count = 3 then sum + mul_read_3 m data num_ele loop else
      if compute_count = 4 then sum + mul_read_4 m data num_ele loop else
      if compute_count = 6 then sum + mul_read_6 m data num_ele loop else
      if compute_count = 8 then sum + mul_read_8 m data num_ele loop else
      if compute_count = 12 then sum + mul_read_12 m data num_ele loop else
      if compute_count = 16 then sum + mul_read_16 m data num_ele loop else
      if compute_count = 24 then sum + mul_read_24 m data num_ele loop else
      if compute_count = 32 then sum + mul_read_32 m data num_ele loop else
      if compute_count = 64 then sum + mul_read_64 m data num_ele loop else
      if compute_count = 128 then sum + mul_read_128 m data num_ele loop else
      if compute_count = 256 then sum + mul_read_256 m data num_ele loop else
      if compute_count = 512 then sum + mul_read_512 m data num_ele loop else
      if compute_count = 1024 then sum + mul_read_1024 m data num_ele loop else
      if compute_count = 2048 then sum + mul_read_2048 m data num_ele loop else
      sum)"

subsection \<open>The device program\<close>

abbreviation HOST_MEM :: int where "HOST_MEM \<equiv> 0"
abbreviation PRIVATE_MEM :: int where "PRIVATE_MEM \<equiv> 1"

record RooflineArg =
  r_stream_id :: nat
  r_window_id :: u32
  r_mkey :: u32
  r_mem_type :: int
  r_size :: u64
  r_compute_count :: int
  r_loop :: nat
  r_haddr :: ptr
  r_ddata :: ptr

text \<open>
  The result is the cycle count; besides, the value that keeps the compiler from removing the kernel,
  and \<open>total_result\<close>.  A cycle count of zero and an index outside \<open>total_result\<close> are \<open>None\<close>.
\<close>

definition bench_func_roofline ::
    "flexio \<Rightarrow> RooflineArg \<Rightarrow> u64 list \<Rightarrow> dpa \<Rightarrow> (u64 \<times> u64 \<times> u64 list \<times> dpa) option" where
  "bench_func_roofline fx arg total_result d =
     (let (data, d) = (if r_mem_type arg = HOST_MEM then get_host_buffer fx (r_window_id arg) (r_mkey arg) (r_haddr arg) d
                       else if r_mem_type arg = PRIVATE_MEM then (r_ddata arg, d) else (0, d));
          num_ele = r_size arg div 8;
          (c0, d) = read_cycles fx d;
          tmp = roofline_sizet_mul_read (mem d) data (sint num_ele) (r_compute_count arg) (r_loop arg);
          (c1, d) = read_cycles fx d;
          cycle = c1 - c0
      in if cycle = 0 \<or> length total_result \<le> r_stream_id arg then None
         else Some (cycle, tmp,
                total_result[r_stream_id arg := of_nat (r_loop arg) * num_ele * word_of_int (r_compute_count arg) * 180000 div cycle],
                emit Memory_writeback d))"

definition get_result :: "u64 list \<Rightarrow> nat \<Rightarrow> u64 option" where
  "get_result total_result total_threads =
     (if length total_result < total_threads then None else Some (sum_list (take total_threads total_result)))"

subsection \<open>Kernels on the host\<close>

definition host_add_read_1 :: kernel where "host_add_read_1 = read_kernel (each (+)) [1]"
definition host_add_read_2 :: kernel where "host_add_read_2 = read_kernel (each (+)) [1, 2]"
definition host_add_read_3 :: kernel where "host_add_read_3 = read_kernel (each (+)) [1, 2, 3]"
definition host_add_read_4 :: kernel where "host_add_read_4 = read_kernel (each (+)) [1, 2, 3, 4]"
definition host_add_read_6 :: kernel where "host_add_read_6 = read_kernel (each (+)) [1, 2, 3, 4, 5, 6]"
definition host_add_read_8 :: kernel where "host_add_read_8 = read_kernel (each (+)) [1, 2, 3, 4, 5, 6, 7, 8]"
definition host_add_read_12 :: kernel where "host_add_read_12 = read_kernel (\<lambda>tmp s. halves (+) (each (+) tmp s)) [1, 2, 3, 4, 5, 6, 7, 8]"
definition host_add_read_16 :: kernel where "host_add_read_16 = read_kernel (\<lambda>tmp s. (chain (+) ^^ 2) (into_8 tmp s)) [1, 2, 3, 4, 5, 6, 7, 8]"
definition host_add_read_24 :: kernel where "host_add_read_24 = read_kernel (\<lambda>tmp s. (chain (+) ^^ 3) (into_8 tmp s)) [1, 2, 3, 4, 5, 6, 7, 8]"
definition host_add_read_32 :: kernel where "host_add_read_32 = read_kernel (\<lambda>tmp s. (chain (+) ^^ 4) (into_8 tmp s)) [1, 2, 3, 4, 5, 6, 7, 8]"
definition host_add_read_64 :: kernel where "host_add_read_64 = read_kernel (\<lambda>tmp s. (chain (+) ^^ 8) (into_8 tmp s)) [1, 2, 3, 4, 5, 6, 7, 8]"
definition host_add_read_128 :: kernel where "host_add_read_128 = read_kernel (\<lambda>tmp s. (chain (+) ^^ 16) (into_8 tmp s)) [1, 2, 3, 4, 5, 6, 7, 8]"
definition host_add_read_256 :: kernel where "host_add_read_256 = read_kernel (\<lambda>tmp s. (chain (+) ^^ 32) (into_8 tmp s)) [1, 2, 3, 4, 5, 6, 7, 8]"
definition host_add_read_512 :: kernel where "host_add_read_512 = read_kernel (\<lambda>tmp s. (chain (+) ^^ 64) (into_8 tmp s)) [1, 2, 3, 4, 5, 6, 7, 8]"
definition host_add_read_1024 :: kernel where "host_add_read_1024 = read_kernel (\<lambda>tmp s. (chain (+) ^^ 128) (into_8 tmp s)) [1, 2, 3, 4, 5, 6, 7, 8]"
definition host_add_read_2048 :: kernel where "host_add_read_2048 = read_kernel (\<lambda>tmp s. (chain (+) ^^ 256) (into_8 tmp s)) [1, 2, 3, 4, 5, 6, 7, 8]"

definition host_mul_read_1 :: kernel where "host_mul_read_1 = read_kernel (each (*)) [1]"
definition host_mul_read_2 :: kernel where "host_mul_read_2 = read_kernel (each (*)) [1, 2]"
definition host_mul_read_3 :: kernel where "host_mul_read_3 = read_kernel (each (*)) [1, 2, 3]"
definition host_mul_read_4 :: kernel where "host_mul_read_4 = read_kernel (each (*)) [1, 2, 3, 4]"
definition host_mul_read_6 :: kernel where "host_mul_read_6 = read_kernel (each (*)) [1, 2, 3, 4, 5, 6]"
definition host_mul_read_8 :: kernel where "host_mul_read_8 = read_kernel (each (*)) [1, 2, 3, 4, 5, 6, 7, 8]"
definition host_mul_read_12 :: kernel where "host_mul_read_12 = read_kernel (\<lambda>tmp s. halves (*) (each (*) tmp s)) [1, 2, 3, 4, 5, 6, 7, 8]"
definition host_mul_read_16 :: kernel where "host_mul_read_16 = read_kernel (\<lambda>tmp s. (chain (*) ^^ 2) (into_8 tmp s)) [1, 2, 3, 4, 5, 6, 7, 8]"
definition host_mul_read_24 :: kernel where "host_mul_read_24 = read_kernel (\<lambda>tmp s. (chain (*) ^^ 3) (into_8 tmp s)) [1, 2, 3, 4, 5, 6, 7, 8]"
definition host_mul_read_32 :: kernel where "host_mul_read_32 = read_kernel (\<lambda>tmp s. (chain (*) ^^ 4) (into_8 tmp s)) [1, 2, 3, 4, 5, 6, 7, 8]"
definition host_mul_read_64 :: kernel where "host_mul_read_64 = read_kernel (\<lambda>tmp s. (chain (*) ^^ 8) (into_8 tmp s)) [1, 2, 3, 4, 5, 6, 7, 8]"
definition host_mul_read_128 :: kernel where "host_mul_read_128 = read_kernel (\<lambda>tmp s. (chain (*) ^^ 16) (into_8 tmp s)) [1, 2, 3, 4, 5, 6, 7, 8]"
definition host_mul_read_256 :: kernel where "host_mul_read_256 = read_kernel (\<lambda>tmp s. (chain (*) ^^ 32) (into_8 tmp s)) [1, 2, 3, 4, 5, 6, 7, 8]"
definition host_mul_read_512 :: kernel where "host_mul_read_512 = read_kernel (\<lambda>tmp s. (chain (*) ^^ 64) (into_8 tmp s)) [1, 2, 3, 4, 5, 6, 7, 8]"
definition host_mul_read_1024 :: kernel where "host_mul_read_1024 = read_kernel (\<lambda>tmp s. (chain (*) ^^ 128) (into_8 tmp s)) [1, 2, 3, 4, 5, 6, 7, 8]"
definition host_mul_read_2048 :: kernel where "host_mul_read_2048 = read_kernel (\<lambda>tmp s. (chain (*) ^^ 256) (into_8 tmp s)) [1, 2, 3, 4, 5, 6, 7, 8]"

definition host_add_512 :: "int \<Rightarrow> nat \<Rightarrow> u64" where "host_add_512 = pure_kernel (chain (+) ^^ 64) [1, 2, 3, 4, 5, 6, 7, 8]"
definition host_add_1024 :: "int \<Rightarrow> nat \<Rightarrow> u64" where "host_add_1024 = pure_kernel (chain (+) ^^ 128) [1, 2, 3, 4, 5, 6, 7, 8]"
definition host_mul_512 :: "int \<Rightarrow> nat \<Rightarrow> u64" where "host_mul_512 = pure_kernel (chain (*) ^^ 64) [1, 2, 3, 4, 5, 6, 7, 8]"
definition host_mul_1024 :: "int \<Rightarrow> nat \<Rightarrow> u64" where "host_mul_1024 = pure_kernel (chain (*) ^^ 128) [1, 2, 3, 4, 5, 6, 7, 8]"

definition host_roofline_sizet_add_read :: "memory \<Rightarrow> ptr \<Rightarrow> int \<Rightarrow> int \<Rightarrow> nat \<Rightarrow> u64" where
  "host_roofline_sizet_add_read m data num_ele compute_count loop =
     (let sum = 0 in
      if compute_count = 1 then sum + host_add_read_1 m data num_ele loop else
      if compute_count = 2 then sum + host_add_read_2 m data num_ele loop else
      if compute_count = 3 then sum + host_add_read_3 m data num_ele loop else
      if compute_count = 4 then sum + host_add_read_4 m data num_ele loop else
      if compute_count = 6 then sum + host_add_read_6 m data num_ele loop else
      if compute_count = 8 then sum + host_add_read_8 m data num_ele loop else
      if compute_count = 12 then sum + host_add_read_12 m data num_ele loop else
      if compute_count = 16 then sum + host_add_read_16 m data num_ele loop else
      if compute_count = 24 then sum + host_add_read_24 m data num_ele loop else
      if compute_count = 32 then sum + host_add_read_32 m data num_ele loop else
      if compute_count = 64 then sum + host_add_read_64 m data num_ele loop else
      if compute_count = 128 then sum + host_add_read_128 m data num_ele loop else
      if compute_count = 256 then sum + host_add_read_256 m data num_ele loop else
      if compute_count = 512 then sum + host_add_read_512 m data num_ele loop else
      if compute_count = 1024 then sum + host_add_read_1024 m data num_ele loop else
      if compute_count = 2048 then sum + host_add_read_2048 m data num_ele loop else
      if compute_count = 511 then sum + host_add_512 num_ele loop else
      if compute_count = 1023 then sum + host_add_1024 num_ele loop else
      sum)"

definition host_roofline_sizet_mul_read :: "memory \<Rightarrow> ptr \<Rightarrow> int \<Rightarrow> int \<Rightarrow> nat \<Rightarrow> u64" where
  "host_roofline_sizet_mul_read m data num_ele compute_count loop =
     (let sum = 1 in
      if compute_count = 1 then sum + host_mul_read_1 m data num_ele loop else
      if compute_count = 2 then sum + host_mul_read_2 m data num_ele loop else
      if compute_count = 3 then sum + host_mul_read_3 m data num_ele loop else
      if compute_count = 4 then sum + host_mul_read_4 m data num_ele loop else
      if compute_count = 6 then sum + host_mul_read_6 m data num_ele loop else
      if compute_count = 8 then sum + host_mul_read_8 m data num_ele loop else
      if compute_count = 12 then sum + host_mul_read_12 m data num_ele loop else
      if compute_count = 16 then sum + host_mul_read_16 m data num_ele loop else
      if compute_count = 24 then sum + host_mul_read_24 m data num_ele loop else
      if compute_count = 32 then sum + host_mul_read_32 m data num_ele loop else
      if compute_count = 64 then sum + host_mul_read_64 m data num_ele loop else
      if compute_count = 128 then sum + host_mul_read_128 m data num_ele loop else
      if compute_count = 256 then sum + host_mul_read_256 m data num_ele loop else
      if compute_count = 512 then sum + host_mul_read_512 m data num_ele loop else
      if compute_count = 1024 then sum + host_mul_read_1024 m data num_ele loop else
      if compute_count = 2048 then sum + host_mul_read_2048 m data num_ele loop else
      if compute_count = 511 then sum + host_mul_512 num_ele loop else
      if compute_count = 1023 then sum + host_mul_1024 num_ele loop else
      sum)"

text \<open>
  The body of a host thread: the part of the buffer it works on, the value it adds to \<open>total_dummy\<close>
  and the number of elements it reports; the bandwidth, a floating-point number, is left out.
\<close>

definition roofline_loop :: "memory \<Rightarrow> ptr \<Rightarrow> u64 \<Rightarrow> u64 \<Rightarrow> nat \<Rightarrow> int \<Rightarrow> u64 \<times> u64" where
  "roofline_loop m data_ptr thread_id mem_size loop_total compute_count =
     (let data = data_ptr + 8 * (thread_id * mem_size div 8);
          dummy = host_roofline_sizet_add_read m data (sint (mem_size div 8)) compute_count loop_total
      in (dummy, of_nat loop_total * mem_size div 8))"

subsection \<open>Closed forms\<close>

definition words_at :: "memory \<Rightarrow> ptr \<Rightarrow> int \<Rightarrow> u64 list" where
  "words_at m data num_ele = map (\<lambda>i. load64 m (data + of_nat (8 * i))) [0..<nat num_ele]"

text \<open>The words in the order in which all rounds read them.\<close>

definition stream_of :: "memory \<Rightarrow> ptr \<Rightarrow> int \<Rightarrow> nat \<Rightarrow> u64 list" where
  "stream_of m data num_ele loop = concat (replicate loop (words_at m data num_ele))"

lemma fold_pow: "(fold f xs ^^ n) s = fold f (concat (replicate n xs)) s"
  by (induction n arbitrary: s) (simp_all add: funpow_Suc_right del: funpow.simps(2))

lemma read_kernel_stream: "read_kernel body s m data n loop = sum_list (fold body (stream_of m data n loop) s)"
  by (simp add: read_kernel_def stream_of_def words_at_def fold_pow[symmetric] fold_map comp_def)

lemma sum_list_stream: "sum_list (stream_of m data n loop) = of_nat loop * sum_list (words_at m data n)"
  unfolding stream_of_def by (induction loop) (simp_all add: algebra_simps)

lemma length_each [simp]: "length (each f w s) = length s"
  by (simp add: each_def)

lemma length_into_8 [simp]: "length (into_8 w s) = length s"
  by (simp add: into_8_def)

lemma sum_each_add: "sum_list (fold (each (+)) ws s) = sum_list s + of_nat (length s) * sum_list ws"
proof (induction ws arbitrary: s)
  case (Cons w ws)
  have "sum_list (each (+) w s) = sum_list s + of_nat (length s) * w"
    by (induction s) (simp_all add: each_def algebra_simps)
  then show ?case using Cons by (simp add: algebra_simps)
qed simp

lemma sum_each_mul: "sum_list (fold (each (*)) ws s) = sum_list s * prod_list ws"
proof (induction ws arbitrary: s)
  case (Cons w ws)
  have "sum_list (each (*) w s) = sum_list s * w" by (induction s) (simp_all add: each_def algebra_simps)
  then show ?case using Cons by (simp add: algebra_simps)
qed simp

fun fib :: "nat \<Rightarrow> nat" where
  "fib 0 = 0" | "fib (Suc 0) = 1" | "fib (Suc (Suc n)) = fib n + fib (Suc n)"

text \<open>What \<open>k\<close> links of the chain make of eight accumulators, summed up: Fibonacci numbers.\<close>

definition fib_sum :: "nat \<Rightarrow> u64 list \<Rightarrow> u64" where
  "fib_sum k s = of_nat (fib (2 * k + 1)) * sum_list (take 4 s) + of_nat (fib (2 * k + 2)) * sum_list (drop 4 s)"

lemma eight_cases:
  assumes "length s = 8"
  obtains a b c d e f g h where "s = [a, b, c, d, e, f, g, h :: u64]"
  using assms by (auto simp: numeral_eq_Suc length_Suc_conv)

lemma chain_add_eight:
  "chain (+) [a, b, c, d, e, f, g, h] =
     [a + e, b + f, c + g, d + h, e + (a + e), f + (b + f), g + (c + g), h + (d + h)]"
  by (simp add: chain_def upd_def numeral_eq_Suc)

lemma fib_sum_chain: "length s = 8 \<Longrightarrow> fib_sum k (chain (+) s) = fib_sum (Suc k) s"
  by (erule eight_cases) (simp add: fib_sum_def chain_add_eight algebra_simps eval_nat_numeral)

lemma length_chain [simp]: "length (chain f s) = length s"
  by (simp add: chain_def upd_def)

lemma length_chain_pow [simp]: "length ((chain f ^^ k) s) = length s"
  by (induction k) simp_all

lemma fib_sum_chains: "length s = 8 \<Longrightarrow> fib_sum j ((chain (+) ^^ k) s) = fib_sum (j + k) s"
proof (induction k arbitrary: j)
  case (Suc k)
  then show ?case using fib_sum_chain[of "(chain (+) ^^ k) s" j] by simp
qed simp

lemma fib_sum_into_8:
  assumes "length s = 8"
  shows "fib_sum k (into_8 w s) = fib_sum k s + of_nat (fib (2 * k + 2)) * w"
  using assms by (rule eight_cases) (simp add: fib_sum_def into_8_def algebra_simps eval_nat_numeral)

lemma fib_sum_0: "length s = 8 \<Longrightarrow> fib_sum 0 s = sum_list s"
  by (simp add: fib_sum_def numeral_eq_Suc) (metis append_take_drop_id sum_list_append)

text \<open>Every word that is read enters \<open>sum8\<close> and is carried along by the links that follow.\<close>

fun carried :: "nat \<Rightarrow> u64 list \<Rightarrow> u64" where
  "carried k [] = 0"
| "carried k (w # ws) = of_nat (fib (2 * (k * Suc (length ws)) + 2)) * w + carried k ws"

lemma sum_chain_reads:
  "length s = 8 \<Longrightarrow>
   sum_list (fold (\<lambda>tmp s. (chain (+) ^^ k) (into_8 tmp s)) ws s) = fib_sum (k * length ws) s + carried k ws"
proof (induction ws arbitrary: s)
  case (Cons w ws)
  let ?n = "k * Suc (length ws)"
  have "fib_sum (k * length ws) ((chain (+) ^^ k) (into_8 w s)) = fib_sum ?n s + of_nat (fib (2 * ?n + 2)) * w"
    using Cons.prems fib_sum_chains[of "into_8 w s" "k * length ws" k] fib_sum_into_8[of s ?n w]
    by (simp only: length_into_8 mult_Suc_right add.commute)
  then show ?case using Cons.IH[of "(chain (+) ^^ k) (into_8 w s)"] Cons.prems by (simp del: fib.simps)
qed (simp add: fib_sum_0)

text \<open>The closed form for a kernel with \<open>k\<close> links, starting from \<open>1\<close> to \<open>8\<close>.\<close>

definition chain_value :: "nat \<Rightarrow> kernel" where
  "chain_value k m data num_ele loop =
     (let ws = stream_of m data num_ele loop; n = k * length ws
      in of_nat (10 * fib (2 * n + 1) + 26 * fib (2 * n + 2)) + carried k ws)"

definition flat_value :: "nat \<Rightarrow> kernel" where
  "flat_value c m data num_ele loop =
     of_nat (c * (c + 1) div 2) + of_nat c * of_nat loop * sum_list (words_at m data num_ele)"

lemma add_chain:
  "read_kernel (\<lambda>tmp s. (chain (+) ^^ k) (into_8 tmp s)) [1, 2, 3, 4, 5, 6, 7, 8] = chain_value k"
  by (intro ext) (simp add: read_kernel_stream sum_chain_reads chain_value_def fib_sum_def numeral_eq_Suc Let_def algebra_simps del: fib.simps)

lemma add_flat: "length s = c \<Longrightarrow> sum_list s = of_nat (c * (c + 1) div 2) \<Longrightarrow> read_kernel (each (+)) s = flat_value c"
  by (intro ext) (simp add: read_kernel_stream sum_each_add sum_list_stream flat_value_def algebra_simps)

lemma add_chain_values:
  "add_read_16 = chain_value 2"
  "add_read_24 = chain_value 3"
  "add_read_32 = chain_value 4"
  "add_read_64 = chain_value 8"
  "add_read_128 = chain_value 16"
  "add_read_256 = chain_value 32"
  "add_read_512 = chain_value 64"
  "add_read_1024 = chain_value 128"
  "add_read_2048 = chain_value 256"
  unfolding add_read_16_def add_read_24_def add_read_32_def add_read_64_def add_read_128_def add_read_256_def add_read_512_def add_read_1024_def add_read_2048_def by (rule add_chain)+

lemma add_flat_values:
  "add_read_1 = flat_value 1"
  "add_read_2 = flat_value 2"
  "add_read_3 = flat_value 3"
  "add_read_4 = flat_value 4"
  "add_read_6 = flat_value 6"
  "add_read_8 = flat_value 8"
  unfolding add_read_1_def add_read_2_def add_read_3_def add_read_4_def add_read_6_def add_read_8_def
  by (rule add_flat; simp)+

lemma host_add_kernels:
  "host_add_read_1 = add_read_1"
  "host_add_read_2 = add_read_2"
  "host_add_read_3 = add_read_3"
  "host_add_read_4 = add_read_4"
  "host_add_read_6 = add_read_6"
  "host_add_read_8 = add_read_8"
  "host_add_read_12 = add_read_12"
  "host_add_read_16 = add_read_16"
  "host_add_read_24 = add_read_24"
  "host_add_read_32 = add_read_32"
  "host_add_read_64 = add_read_64"
  "host_add_read_128 = add_read_128"
  "host_add_read_256 = add_read_256"
  "host_add_read_512 = add_read_512"
  "host_add_read_1024 = add_read_1024"
  "host_add_read_2048 = add_read_2048"
  by (simp_all only: host_add_read_1_def add_read_1_def host_add_read_2_def add_read_2_def host_add_read_3_def add_read_3_def host_add_read_4_def add_read_4_def host_add_read_6_def add_read_6_def host_add_read_8_def add_read_8_def host_add_read_12_def add_read_12_def host_add_read_16_def add_read_16_def host_add_read_24_def add_read_24_def host_add_read_32_def add_read_32_def host_add_read_64_def add_read_64_def host_add_read_128_def add_read_128_def host_add_read_256_def add_read_256_def host_add_read_512_def add_read_512_def host_add_read_1024_def add_read_1024_def host_add_read_2048_def add_read_2048_def)

lemma host_mul_kernels:
  "host_mul_read_1 = mul_read_1"
  "host_mul_read_2 = mul_read_2"
  "host_mul_read_3 = mul_read_3"
  "host_mul_read_4 = mul_read_4"
  "host_mul_read_6 = mul_read_6"
  "host_mul_read_8 = mul_read_8"
  "host_mul_read_12 = mul_read_12"
  "host_mul_read_16 = mul_read_16"
  "host_mul_read_24 = mul_read_24"
  "host_mul_read_32 = mul_read_32"
  "host_mul_read_64 = mul_read_64"
  "host_mul_read_128 = mul_read_128"
  "host_mul_read_256 = mul_read_256"
  "host_mul_read_512 = mul_read_512"
  "host_mul_read_1024 = mul_read_1024"
  "host_mul_read_2048 = mul_read_2048"
  by (simp_all only: host_mul_read_1_def mul_read_1_def host_mul_read_2_def mul_read_2_def host_mul_read_3_def mul_read_3_def host_mul_read_4_def mul_read_4_def host_mul_read_6_def mul_read_6_def host_mul_read_8_def mul_read_8_def host_mul_read_12_def mul_read_12_def host_mul_read_16_def mul_read_16_def host_mul_read_24_def mul_read_24_def host_mul_read_32_def mul_read_32_def host_mul_read_64_def mul_read_64_def host_mul_read_128_def mul_read_128_def host_mul_read_256_def mul_read_256_def host_mul_read_512_def mul_read_512_def host_mul_read_1024_def mul_read_1024_def host_mul_read_2048_def mul_read_2048_def)

lemma zero_reads:
  assumes "\<forall>w \<in> set (words_at m data n). w = 0"
  shows "read_kernel (\<lambda>tmp s. g (into_8 tmp s)) s m data n loop = pure_kernel g s n loop"
proof -
  have "fold (\<lambda>tmp s. g (into_8 tmp s)) ws t = fold (\<lambda>i s. g s) js t"
    if "\<forall>w \<in> set ws. w = 0" "length ws = length js" for ws t and js :: "nat list"
    using that by (induction ws arbitrary: t js) (auto simp: into_8_def length_Suc_conv Suc_length_conv)
  from this[of "words_at m data n" "[0..<nat n]"] have
    "fold (\<lambda>i s. g (into_8 (load64 m (data + of_nat (8 * i))) s)) [0..<nat n] = fold (\<lambda>i s. g s) [0..<nat n]"
    using assms by (intro ext) (simp add: words_at_def fold_map comp_def)
  then show ?thesis by (simp only: read_kernel_def pure_kernel_def)
qed

subsection \<open>Properties\<close>

text \<open>
  C34: the addition kernels.  Up to eight additions per element, the result is the sum of the start values plus
  that many times the sum of all words read; from sixteen on, the accumulators run through Fibonacci
  numbers and every word read counts with the Fibonacci number of the links that follow it.
  Other counts do nothing, except twelve.  Host and device compute the same for every count that both know,
  and the two kernels that read nothing agree with those that read zeros.
\<close>

theorem roofline_add_values:
  "(c \<in> {1, 2, 3, 4, 6, 8} \<longrightarrow> roofline_sizet_add_read m data n c loop = flat_value (nat c) m data n loop) \<and>
   (c \<in> {16, 24, 32, 64, 128, 256, 512, 1024, 2048} \<longrightarrow>
      roofline_sizet_add_read m data n c loop = chain_value (nat c div 8) m data n loop) \<and>
   (c \<notin> {1, 2, 3, 4, 6, 8, 12, 16, 24, 32, 64, 128, 256, 512, 1024, 2048} \<longrightarrow> roofline_sizet_add_read m data n c loop = 0) \<and>
   (c \<notin> {511, 1023} \<longrightarrow> host_roofline_sizet_add_read m data n c loop = roofline_sizet_add_read m data n c loop \<and>
      host_roofline_sizet_mul_read m data n c loop = roofline_sizet_mul_read m data n c loop) \<and>
   ((\<forall>w \<in> set (words_at m data n). w = 0) \<longrightarrow>
      host_roofline_sizet_add_read m data n 511 loop = roofline_sizet_add_read m data n 512 loop \<and>
      host_roofline_sizet_mul_read m data n 511 loop = roofline_sizet_mul_read m data n 512 loop)"
proof (intro conjI impI)
  show "roofline_sizet_add_read m data n c loop = flat_value (nat c) m data n loop" if "c \<in> {1, 2, 3, 4, 6, 8}"
    using that by (auto simp: roofline_sizet_add_read_def add_flat_values)
  show "roofline_sizet_add_read m data n c loop = chain_value (nat c div 8) m data n loop"
    if "c \<in> {16, 24, 32, 64, 128, 256, 512, 1024, 2048}"
    using that by (auto simp: roofline_sizet_add_read_def add_chain_values)
  show "roofline_sizet_add_read m data n c loop = 0"
    if "c \<notin> {1, 2, 3, 4, 6, 8, 12, 16, 24, 32, 64, 128, 256, 512, 1024, 2048}"
    using that by (simp add: roofline_sizet_add_read_def)
  show "host_roofline_sizet_add_read m data n c loop = roofline_sizet_add_read m data n c loop" if "c \<notin> {511, 1023}"
    using that by (simp add: host_roofline_sizet_add_read_def roofline_sizet_add_read_def host_add_kernels)
  show "host_roofline_sizet_mul_read m data n c loop = roofline_sizet_mul_read m data n c loop" if "c \<notin> {511, 1023}"
    using that by (simp add: host_roofline_sizet_mul_read_def roofline_sizet_mul_read_def host_mul_kernels)
  assume z: "\<forall>w \<in> set (words_at m data n). w = 0"
  have "host_add_512 n loop = add_read_512 m data n loop" "host_mul_512 n loop = mul_read_512 m data n loop"
    unfolding host_add_512_def add_read_512_def host_mul_512_def mul_read_512_def using zero_reads[OF z] by simp_all
  then show "host_roofline_sizet_add_read m data n 511 loop = roofline_sizet_add_read m data n 512 loop"
    "host_roofline_sizet_mul_read m data n 511 loop = roofline_sizet_mul_read m data n 512 loop"
    by (simp_all add: host_roofline_sizet_add_read_def roofline_sizet_add_read_def host_roofline_sizet_mul_read_def roofline_sizet_mul_read_def)
qed

theorem roofline_add_values_witness:
  "roofline_sizet_add_read (\<lambda>_. 1) 0x1000 2 4 3 = 10 + 24 * 0x0101010101010101 \<and>
   roofline_sizet_add_read (\<lambda>_. 0) 0x1000 1 16 1 = 10 * 5 + 26 * 8"
proof -
  have w: "words_at (\<lambda>_. 1) 0x1000 2 = [0x0101010101010101, 0x0101010101010101]" "words_at (\<lambda>_. 0) 0x1000 1 = [0]" by code_simp+
  have "roofline_sizet_add_read (\<lambda>_. 1) 0x1000 2 4 3 = 10 + 24 * 0x0101010101010101"
    using roofline_add_values[of 4 "\<lambda>_. 1" "0x1000" 2 3, THEN conjunct1] by (simp add: flat_value_def w)
  moreover have "fib 5 = 5" "fib 6 = 8" by code_simp+
  then have "chain_value 2 (\<lambda>_. 0) 0x1000 1 1 = 10 * 5 + 26 * 8"
    by (simp add: chain_value_def stream_of_def w Let_def del: fib.simps)
  ultimately show ?thesis
    using roofline_add_values[of 16 "\<lambda>_. 0" "0x1000" 1 1, THEN conjunct2, THEN conjunct1] by simp
qed

end
