(* ===== verification/Interleaving.thy ===== *)
theory Interleaving
  imports Main
begin

text \<open>
  Threads that share a state and move one atomic access at a time.  A thread is the point of its code it has
  reached; \<open>step\<close> gives the points and states one access leads to, \<open>calls\<close> the points at which an idle
  thread may enter an operation.  The locale \<open>counted_accesses\<close> is the argument the lock proofs share: a number
  kept in the shared state follows the number of threads at the points that account for it.
\<close>

inductive thread_move :: "('p \<Rightarrow> 's \<Rightarrow> ('p \<times> 's) set) \<Rightarrow> 'p \<Rightarrow> 'p set \<Rightarrow> 'p list \<times> 's \<Rightarrow> 'p list \<times> 's \<Rightarrow> bool"
  for step :: "'p \<Rightarrow> 's \<Rightarrow> ('p \<times> 's) set" and idle :: 'p and calls :: "'p set" where
  move_call: "i < length ts \<Longrightarrow> ts ! i = idle \<Longrightarrow> p \<in> calls \<Longrightarrow> thread_move step idle calls (ts, s) (ts[i := p], s)"
| move_step: "i < length ts \<Longrightarrow> (p, s') \<in> step (ts ! i) s \<Longrightarrow> thread_move step idle calls (ts, s) (ts[i := p], s')"

inductive threads_reach :: "('p \<Rightarrow> 's \<Rightarrow> ('p \<times> 's) set) \<Rightarrow> 'p \<Rightarrow> 'p set \<Rightarrow> nat \<Rightarrow> 's \<Rightarrow> 'p list \<times> 's \<Rightarrow> bool"
  for step :: "'p \<Rightarrow> 's \<Rightarrow> ('p \<times> 's) set" and idle :: 'p and calls :: "'p set" and n :: nat and s\<^sub>0 :: 's where
  reach_start: "threads_reach step idle calls n s\<^sub>0 (replicate n idle, s\<^sub>0)"
| reach_move: "threads_reach step idle calls n s\<^sub>0 c \<Longrightarrow> thread_move step idle calls c c' \<Longrightarrow> threads_reach step idle calls n s\<^sub>0 c'"

inductive_cases thread_moveE: "thread_move step idle calls c c'"

lemma threads_reach_length: "threads_reach step idle calls n s\<^sub>0 c \<Longrightarrow> length (fst c) = n"
proof (induction rule: threads_reach.induct)
  case reach_start
  show ?case by simp
next
  case (reach_move c c')
  from reach_move.hyps(2) reach_move.IH show ?case by (auto elim!: thread_moveE)
qed

lemma sum_list_move:
  fixes f :: "'p \<Rightarrow> 'g :: ab_group_add"
  assumes "i < length ts"
  shows "sum_list (map f (ts[i := p])) = sum_list (map f ts) + (f p - f (ts ! i))"
  using assms
proof (induction ts arbitrary: i)
  case Nil
  thus ?case by simp
next
  case (Cons t ts)
  show ?case
    using Cons.IH [of "i - 1"] Cons.prems by (cases i) (simp_all add: algebra_simps)
qed

locale counted_accesses =
  fixes step :: "'p \<Rightarrow> 's \<Rightarrow> ('p \<times> 's) set" and idle :: 'p and calls :: "'p set" and s\<^sub>0 :: 's
    and number :: "'s \<Rightarrow> 'g :: ab_group_add" and account :: "'p \<Rightarrow> 'g" and sound :: "'p \<Rightarrow> 's \<Rightarrow> bool"
  assumes number_start: "number s\<^sub>0 = 0"
    and account_idle: "account idle = 0"
    and account_call: "p \<in> calls \<Longrightarrow> account p = 0"
    and sound_count: "number s = sum_list (map account ts) \<Longrightarrow> p \<in> set ts \<Longrightarrow> sound p s"
    and number_step: "(p', s') \<in> step p s \<Longrightarrow> sound p s \<Longrightarrow> number s' = number s + (account p' - account p)"
begin

lemma reach_counted:
  assumes "threads_reach step idle calls n s\<^sub>0 c"
  shows "number (snd c) = sum_list (map account (fst c))"
  using assms
proof (induction rule: threads_reach.induct)
  case reach_start
  have "sum_list (replicate n (0 :: 'g)) = 0" by (induction n) auto
  thus ?case by (simp add: number_start account_idle)
next
  case (reach_move c c')
  from reach_move.hyps(2) show ?case
  proof (cases rule: thread_move.cases)
    case (move_call i ts p s)
    thus ?thesis using reach_move.IH by (simp add: sum_list_move account_idle account_call)
  next
    case (move_step i ts p s' s)
    have "sound (ts ! i) s"
      using reach_move.IH move_step by (intro sound_count [of s ts]) auto
    thus ?thesis using number_step [of p s' "ts ! i" s] reach_move.IH move_step by (simp add: sum_list_move)
  qed
qed

lemma reach_sound:
  assumes "threads_reach step idle calls n s\<^sub>0 c" and "p \<in> set (fst c)"
  shows "sound p (snd c)"
  using sound_count reach_counted assms by blast

end

text \<open>A schedule, for concrete runs: which thread moves, and what it moves to.\<close>

fun follows :: "('p \<Rightarrow> 's \<Rightarrow> ('p \<times> 's) set) \<Rightarrow> 'p \<Rightarrow> 'p set \<Rightarrow> 'p list \<times> 's \<Rightarrow> (nat \<times> 'p \<times> 's) list \<Rightarrow> 'p list \<times> 's \<Rightarrow> bool" where
  "follows step idle calls c [] c' \<longleftrightarrow> c = c'"
| "follows step idle calls (ts, s) ((i, p, s') # ms) c' \<longleftrightarrow>
     i < length ts \<and> (ts ! i = idle \<and> p \<in> calls \<and> s' = s \<or> (p, s') \<in> step (ts ! i) s) \<and>
     follows step idle calls (ts[i := p], s') ms c'"

lemma reach_follows:
  assumes "threads_reach step idle calls n s\<^sub>0 c" and "follows step idle calls c ms c'"
  shows "threads_reach step idle calls n s\<^sub>0 c'"
  using assms
proof (induction ms arbitrary: c)
  case Nil
  thus ?case by simp
next
  case (Cons m ms)
  obtain ts s i p s' where c: "c = (ts, s)" "m = (i, p, s')" by (metis surj_pair)
  with Cons.prems have "thread_move step idle calls (ts, s) (ts[i := p], s')"
    by (auto intro: thread_move.intros)
  thus ?case using Cons c by (auto intro: reach_move)
qed

lemmas reach_run = reach_follows [OF reach_start]

end
