(* ===== verification/Spin_Locks.thy ===== *)
theory Spin_Locks
  imports Interleaving "HOL-Library.Word"
begin

text \<open>
  The locks of \<open>utils/spinlock_mutex.h\<close>, one atomic access per step, and \<open>get_bind_core\<close> of
  \<open>test_suite/small_bank/small_bank_common.h\<close>, which relies on one of them.  Every access is atomic and the
  accesses of all threads are in one order; the memory orders the code asks for are not told apart.
\<close>

section \<open>\<open>spinlock_mutex\<close>\<close>

record spinlock_mutex =
  flag :: bool

text \<open>\<open>std::atomic_flag::test_and_set\<close> returns the old value.\<close>

definition test_and_set :: "spinlock_mutex \<Rightarrow> bool \<times> spinlock_mutex" where
  "test_and_set m = (flag m, m\<lparr>flag := True\<rparr>)"

definition try_lock :: "spinlock_mutex \<Rightarrow> bool \<times> spinlock_mutex" where
  "try_lock m = (let (held, m) = test_and_set m in (\<not> held, m))"

definition unlock :: "spinlock_mutex \<Rightarrow> spinlock_mutex" where
  "unlock m = m\<lparr>flag := False\<rparr>"

text \<open>One pass of the loop of \<open>lock\<close>: \<open>True\<close> when the loop ends.\<close>

definition lock_pass :: "spinlock_mutex \<Rightarrow> bool \<times> spinlock_mutex" where
  "lock_pass m = (let (held, m) = test_and_set m in (\<not> held, m))"

lemmas mutex_defs = test_and_set_def try_lock_def unlock_def lock_pass_def

section \<open>\<open>spinlock_rw_mutex\<close>\<close>

record spinlock_rw_mutex =
  readers_count :: "32 word"
  writer_lock :: bool

definition rw_free :: spinlock_rw_mutex where
  "rw_free = \<lparr>readers_count = 0, writer_lock = False\<rparr>"

definition try_lock_read :: "spinlock_rw_mutex \<Rightarrow> bool \<times> spinlock_rw_mutex" where
  "try_lock_read l = (if \<not> writer_lock l then (True, l\<lparr>readers_count := readers_count l + 1\<rparr>) else (False, l))"

definition unlock_read :: "spinlock_rw_mutex \<Rightarrow> spinlock_rw_mutex" where
  "unlock_read l = l\<lparr>readers_count := readers_count l - 1\<rparr>"

definition try_lock_write :: "spinlock_rw_mutex \<Rightarrow> bool \<times> spinlock_rw_mutex" where
  "try_lock_write l = (if \<not> writer_lock l then (True, l\<lparr>writer_lock := True\<rparr>) else (False, l))"

definition unlock_write :: "spinlock_rw_mutex \<Rightarrow> spinlock_rw_mutex" where
  "unlock_write l = l\<lparr>writer_lock := False\<rparr>"

text \<open>
  The same methods access by access.  A constructor is the access a thread does next: in \<open>lock_read\<close> the
  inner loop, the increment, the second test and the decrement; in \<open>try_lock_read\<close> the test and the increment; in
  \<open>lock_write\<close> the two tests of the inner loop and the exchange; in \<open>try_lock_write\<close> the exchange.  A thread
  at \<open>Reading\<close> or \<open>Writing\<close> holds the lock and calls \<open>unlock_read\<close> or \<open>unlock_write\<close> next.
\<close>

datatype rw_point = Idle
  | LR_Spin | LR_Add | LR_Check | LR_Sub | TR_Check | TR_Add | Reading
  | LW_Readers | LW_Writer | LW_Exchange | TW_Exchange | Writing

text \<open>The weak exchange may also fail when the value is the expected one.\<close>

fun rw_step :: "rw_point \<Rightarrow> spinlock_rw_mutex \<Rightarrow> (rw_point \<times> spinlock_rw_mutex) set" where
  "rw_step Idle l = {}"
| "rw_step LR_Spin l = {(if writer_lock l then LR_Spin else LR_Add, l)}"
| "rw_step LR_Add l = {(LR_Check, l\<lparr>readers_count := readers_count l + 1\<rparr>)}"
| "rw_step LR_Check l = {(if writer_lock l then LR_Sub else Reading, l)}"
| "rw_step LR_Sub l = {(LR_Spin, l\<lparr>readers_count := readers_count l - 1\<rparr>)}"
| "rw_step TR_Check l = {(if writer_lock l then Idle else TR_Add, l)}"
| "rw_step TR_Add l = {(Reading, l\<lparr>readers_count := readers_count l + 1\<rparr>)}"
| "rw_step Reading l = {(Idle, unlock_read l)}"
| "rw_step LW_Readers l = {(if readers_count l \<noteq> 0 then LW_Readers else LW_Writer, l)}"
| "rw_step LW_Writer l = {(if writer_lock l then LW_Readers else LW_Exchange, l)}"
| "rw_step LW_Exchange l =
     (if writer_lock l then {(LW_Readers, l)} else {(LW_Readers, l), (Writing, l\<lparr>writer_lock := True\<rparr>)})"
| "rw_step TW_Exchange l = (case try_lock_write l of (got, l) \<Rightarrow> {(if got then Writing else Idle, l)})"
| "rw_step Writing l = {(Idle, unlock_write l)}"

definition rw_blocking :: "rw_point set" where
  "rw_blocking = {LR_Spin, LW_Readers}"

definition rw_trying :: "rw_point set" where
  "rw_trying = {TR_Check, TW_Exchange}"

definition rw_counted :: "rw_point \<Rightarrow> bool" where
  "rw_counted p = (p \<in> {LR_Check, LR_Sub, Reading})"

section \<open>\<open>get_bind_core\<close>\<close>

text \<open>
  The two counters, the lock that guards them and the numbers handed out.  The increment is a read and a
  write; \<open>lcores\<close> stands for \<open>num_lcores_per_numa_node()\<close>, whose value comes from the \<open>numa\<close> library.  A
  failing assertion ends the process, so no step leads on from there.
\<close>

record bind_state =
  bind_lock :: spinlock_mutex
  numa0_core :: nat
  numa1_core :: nat
  handed :: "(bool \<times> nat) list"

definition bind_start :: bind_state where
  "bind_start = \<lparr>bind_lock = \<lparr>flag = False\<rparr>, numa0_core = 0, numa1_core = 0, handed = []\<rparr>"

definition core_of :: "bool \<Rightarrow> bind_state \<Rightarrow> nat" where
  "core_of numa1 s = (if numa1 then numa1_core s else numa0_core s)"

definition set_core :: "bool \<Rightarrow> nat \<Rightarrow> bind_state \<Rightarrow> bind_state" where
  "set_core numa1 v s = (if numa1 then s\<lparr>numa1_core := v\<rparr> else s\<lparr>numa0_core := v\<rparr>)"

datatype bind_point = Bind_Idle | Bind_Lock bool | Bind_Read bool | Bind_Write bool nat | Bind_Unlock bool nat

fun get_bind_core :: "nat \<Rightarrow> bind_point \<Rightarrow> bind_state \<Rightarrow> (bind_point \<times> bind_state) set" where
  "get_bind_core lcores Bind_Idle s = {}"
| "get_bind_core lcores (Bind_Lock numa) s =
     (case lock_pass (bind_lock s) of (got, m) \<Rightarrow> {(if got then Bind_Read numa else Bind_Lock numa, s\<lparr>bind_lock := m\<rparr>)})"
| "get_bind_core lcores (Bind_Read numa) s =
     (if core_of numa s \<le> lcores then {(Bind_Write numa (core_of numa s), s)} else {})"
| "get_bind_core lcores (Bind_Write numa res) s = {(Bind_Unlock numa res, set_core numa (res + 1) s)}"
| "get_bind_core lcores (Bind_Unlock numa res) s =
     {(Bind_Idle, s\<lparr>bind_lock := unlock (bind_lock s), handed := handed s @ [(numa, res)]\<rparr>)}"

definition bind_inside :: "bind_point \<Rightarrow> bool" where
  "bind_inside p = (case p of Bind_Read _ \<Rightarrow> True | Bind_Write _ _ \<Rightarrow> True | Bind_Unlock _ _ \<Rightarrow> True | _ \<Rightarrow> False)"

definition bind_calls :: "bind_point set" where
  "bind_calls = {Bind_Lock False, Bind_Lock True}"

section \<open>Counting\<close>

lemma sum_list_01:
  "sum_list (map (\<lambda>p. if P p then 1 else 0) ts) = (of_nat (length (filter P ts)) :: 'g :: ring_1)"
  by (induction ts) auto

lemma int_count_pos: "p \<in> set ts \<Longrightarrow> P p \<Longrightarrow> 0 < length (filter P ts)"
  by (induction ts) auto

interpretation readers: counted_accesses rw_step Idle "rw_blocking \<union> rw_trying" rw_free
  readers_count "\<lambda>p. if rw_counted p then 1 else 0" "\<lambda>_ _. True"
proof (unfold_locales, goal_cases)
  case (5 p' s' p s)
  thus ?case
    by (cases p) (auto simp: rw_counted_def unlock_read_def unlock_write_def try_lock_write_def split: if_splits)
qed (auto simp: rw_free_def rw_counted_def rw_blocking_def rw_trying_def)

interpretation writers: counted_accesses rw_step Idle "rw_blocking \<union> rw_trying" rw_free
  "\<lambda>l. (if writer_lock l then 1 else 0 :: int)" "\<lambda>p. if p = Writing then 1 else 0"
  "\<lambda>p l. p = Writing \<longrightarrow> writer_lock l"
proof (unfold_locales, goal_cases)
  case (4 s ts p)
  thus ?case using int_count_pos [of p ts "\<lambda>p. p = Writing"] by (auto simp: sum_list_01 split: if_splits)
next
  case (5 p' s' p s)
  thus ?case
    by (cases p) (auto simp: unlock_read_def unlock_write_def try_lock_write_def split: if_splits)
qed (auto simp: rw_free_def rw_blocking_def rw_trying_def)

interpretation binding: counted_accesses "get_bind_core lcores" Bind_Idle bind_calls bind_start
  "\<lambda>s. (if flag (bind_lock s) then 1 else 0 :: int)" "\<lambda>p. if bind_inside p then 1 else 0"
  "\<lambda>p s. bind_inside p \<longrightarrow> flag (bind_lock s)" for lcores
proof (unfold_locales, goal_cases)
  case (4 s ts p)
  thus ?case using int_count_pos [of p ts bind_inside] by (auto simp: sum_list_01 split: if_splits)
next
  case (5 p' s' p s)
  thus ?case
    by (cases p) (auto simp: bind_inside_def mutex_defs set_core_def split: if_splits)
qed (auto simp: bind_start_def bind_calls_def bind_inside_def)

section \<open>The numbers handed out\<close>

definition handed_on :: "bool \<Rightarrow> bind_state \<Rightarrow> nat list" where
  "handed_on numa s = map snd (filter (\<lambda>h. fst h = numa) (handed s))"

definition bind_ok :: "nat \<Rightarrow> bool \<Rightarrow> bind_point list \<times> bind_state \<Rightarrow> bool" where
  "bind_ok lcores numa = (\<lambda>(ts, s).
     (\<forall>v. Bind_Write numa v \<in> set ts \<longrightarrow> v = core_of numa s \<and> v \<le> lcores) \<and>
     core_of numa s \<le> Suc lcores \<and>
     (\<forall>v. Bind_Unlock numa v \<in> set ts \<longrightarrow> core_of numa s = Suc v \<and> handed_on numa s = [0..<v]) \<and>
     ((\<forall>v. Bind_Unlock numa v \<notin> set ts) \<longrightarrow> handed_on numa s = [0..<core_of numa s]))"

text \<open>While one thread is inside, every other thread is outside.\<close>

lemma bind_alone:
  assumes "threads_reach (get_bind_core lcores) Bind_Idle bind_calls n bind_start (ts, s)"
    and "i < length ts" and "bind_inside (ts ! i)" and "j < length ts" and "bind_inside (ts ! j)"
  shows "i = j"
proof (rule ccontr)
  assume "i \<noteq> j"
  have "card {i, j} \<le> card {k. k < length ts \<and> bind_inside (ts ! k)}"
    using assms by (intro card_mono) auto
  also have "\<dots> = length (filter bind_inside ts)" by (simp add: length_filter_conv_card)
  also have "\<dots> \<le> 1"
    using binding.reach_counted [OF assms(1)] by (simp add: sum_list_01 split: if_splits)
  finally show False using \<open>i \<noteq> j\<close> by simp
qed

lemma bind_only:
  assumes "threads_reach (get_bind_core lcores) Bind_Idle bind_calls n bind_start (ts, s)"
    and "i < length ts" and "bind_inside (ts ! i)" and "bind_inside q"
  shows "q \<in> set ts \<longleftrightarrow> q = ts ! i" and "q \<in> set (ts[i := p]) \<longleftrightarrow> q = p"
proof -
  have other: "ts ! j \<noteq> q" if "j < length ts" "j \<noteq> i" for j
    using bind_alone [OF assms(1-3) that(1)] that(2) assms(4) by blast
  show "q \<in> set ts \<longleftrightarrow> q = ts ! i"
    unfolding in_set_conv_nth using other assms(2) by metis
  have "ts[i := p] ! j \<noteq> q" if "j < length ts" "j \<noteq> i" for j
    using that other [of j] by simp
  thus "q \<in> set (ts[i := p]) \<longleftrightarrow> q = p"
    unfolding in_set_conv_nth using assms(2) by (metis length_list_update nth_list_update_eq)
qed

lemma in_set_update_other:
  assumes "q \<noteq> ts ! i" and "q \<noteq> p"
  shows "q \<in> set (ts[i := p]) \<longleftrightarrow> q \<in> set ts"
proof
  assume "q \<in> set (ts[i := p])"
  thus "q \<in> set ts" using assms set_update_subset_insert [of ts i p] by auto
next
  assume "q \<in> set ts"
  then obtain j where j: "j < length ts" "ts ! j = q" by (auto simp: in_set_conv_nth)
  hence "ts[i := p] ! j = q" using assms by (cases "i = j") auto
  thus "q \<in> set (ts[i := p])" using j nth_mem [of j "ts[i := p]"] by simp
qed

lemma bind_ok_quiet:
  assumes "bind_ok lcores numa (ts, s)" and "\<And>b v. ts ! i \<noteq> Bind_Write b v" and "\<And>b v. ts ! i \<noteq> Bind_Unlock b v"
    and "\<And>b v. p \<noteq> Bind_Write b v" and "\<And>b v. p \<noteq> Bind_Unlock b v" and "core_of numa s' = core_of numa s"
    and "handed s' = handed s"
  shows "bind_ok lcores numa (ts[i := p], s')"
proof -
  have "Bind_Write b v \<in> set (ts[i := p]) \<longleftrightarrow> Bind_Write b v \<in> set ts" for b v
    using assms(2,4) [of b v] by (intro in_set_update_other) auto
  moreover have "Bind_Unlock b v \<in> set (ts[i := p]) \<longleftrightarrow> Bind_Unlock b v \<in> set ts" for b v
    using assms(3,5) [of b v] by (intro in_set_update_other) auto
  ultimately show ?thesis using assms(1,6,7) by (auto simp: bind_ok_def handed_on_def)
qed

lemma bind_ok_inside:
  assumes "threads_reach (get_bind_core lcores) Bind_Idle bind_calls n bind_start (ts, s)"
    and "i < length ts" and "bind_inside (ts ! i)"
  shows "bind_ok lcores numa (ts, s) \<longleftrightarrow> bind_ok lcores numa ([ts ! i], s)"
    and "bind_ok lcores numa (ts[i := p], s') \<longleftrightarrow> bind_ok lcores numa ([p], s')"
proof -
  have wr: "Bind_Write numa v \<in> set ts \<longleftrightarrow> Bind_Write numa v = ts ! i"
    "Bind_Write numa v \<in> set (ts[i := p]) \<longleftrightarrow> Bind_Write numa v = p" for v
    by (rule bind_only [OF assms], simp add: bind_inside_def)+
  have un: "Bind_Unlock numa v \<in> set ts \<longleftrightarrow> Bind_Unlock numa v = ts ! i"
    "Bind_Unlock numa v \<in> set (ts[i := p]) \<longleftrightarrow> Bind_Unlock numa v = p" for v
    by (rule bind_only [OF assms], simp add: bind_inside_def)+
  show "bind_ok lcores numa (ts, s) \<longleftrightarrow> bind_ok lcores numa ([ts ! i], s)"
    and "bind_ok lcores numa (ts[i := p], s') \<longleftrightarrow> bind_ok lcores numa ([p], s')"
    by (simp_all only: bind_ok_def prod.case wr un list.set insert_iff empty_iff simp_thms)
qed

lemma bind_ok_step:
  assumes r: "threads_reach (get_bind_core lcores) Bind_Idle bind_calls n bind_start (ts, s)"
    and i: "i < length ts" and ok: "bind_ok lcores numa (ts, s)" and st: "(p, s') \<in> get_bind_core lcores (ts ! i) s"
  shows "bind_ok lcores numa (ts[i := p], s')"
proof (cases "bind_inside (ts ! i)")
  case True
  hence "bind_ok lcores numa ([ts ! i], s)" using bind_ok_inside(1) [OF r i] ok by blast
  hence "bind_ok lcores numa ([p], s')"
    using True st
    by (cases "ts ! i")
      (auto simp: bind_ok_def bind_inside_def set_core_def core_of_def handed_on_def split: if_splits)
  thus ?thesis using bind_ok_inside(2) [OF r i True] by blast
next
  case False
  thus ?thesis using st ok
    by (cases "ts ! i"; intro bind_ok_quiet [of lcores numa ts s])
      (auto simp: bind_inside_def mutex_defs core_of_def split: if_splits)
qed

lemma bind_ok_reach:
  assumes "threads_reach (get_bind_core lcores) Bind_Idle bind_calls n bind_start c"
  shows "bind_ok lcores numa c"
  using assms
proof (induction rule: threads_reach.induct)
  case reach_start
  show ?case by (simp add: bind_ok_def bind_start_def core_of_def handed_on_def)
next
  case (reach_move c c')
  from reach_move.hyps(2) show ?case
  proof (cases rule: thread_move.cases)
    case (move_call i ts p s)
    thus ?thesis using reach_move.IH by (auto intro!: bind_ok_quiet [of lcores numa ts s] simp: bind_calls_def)
  next
    case (move_step i ts p s' s)
    thus ?thesis using reach_move.hyps(1) reach_move.IH by (auto intro: bind_ok_step)
  qed
qed

text \<open>The trying methods as functions are their accesses done without another thread in between.\<close>

lemma try_lock_steps:
  "fst (try_lock_read l) \<Longrightarrow> rw_step TR_Check l = {(TR_Add, l)} \<and> rw_step TR_Add l = {(Reading, snd (try_lock_read l))}"
  "\<not> fst (try_lock_read l) \<Longrightarrow> rw_step TR_Check l = {(Idle, snd (try_lock_read l))}"
  "fst (try_lock_write l) \<Longrightarrow> rw_step TW_Exchange l = {(Writing, snd (try_lock_write l))}"
  "\<not> fst (try_lock_write l) \<Longrightarrow> rw_step TW_Exchange l = {(Idle, snd (try_lock_write l))}"
  by (auto simp: try_lock_read_def try_lock_write_def split: if_splits)

text \<open>C11: Whatever the threads do and in whatever order, at most one thread holds \<open>spinlock_rw_mutex\<close> for writing,
  \<open>writer_lock\<close> says whether one does, and \<open>readers_count\<close> is the number of threads that have added themselves;
  when every thread is outside, the lock is free again.\<close>

theorem rw_lock_holders:
  assumes "threads_reach rw_step Idle (rw_blocking \<union> rw_trying) n rw_free (ts, l)" and "n < 2 ^ 32"
  shows "length (filter (\<lambda>p. p = Writing) ts) = (if writer_lock l then 1 else 0) \<and>
    unat (readers_count l) = length (filter rw_counted ts) \<and> (set ts \<subseteq> {Idle} \<longrightarrow> l = rw_free)"
proof -
  have "int (length (filter (\<lambda>p. p = Writing) ts)) = (if writer_lock l then 1 else 0)"
    using writers.reach_counted [OF assms(1)] by (simp add: sum_list_01)
  hence w: "length (filter (\<lambda>p. p = Writing) ts) = (if writer_lock l then 1 else 0)" by (simp split: if_splits)
  have "length (filter rw_counted ts) < 2 ^ 32"
    using threads_reach_length [OF assms(1)] assms(2) length_filter_le [of rw_counted ts] by simp
  hence r: "unat (readers_count l) = length (filter rw_counted ts)"
    using readers.reach_counted [OF assms(1)] by (simp add: sum_list_01 unat_of_nat)
  have "l = rw_free" if "set ts \<subseteq> {Idle}"
  proof -
    have "filter (\<lambda>p. p = Writing) ts = []" "filter rw_counted ts = []"
      using that by (auto simp: filter_empty_conv rw_counted_def)
    thus ?thesis using w r by (simp add: rw_free_def unat_eq_0 split: if_splits)
  qed
  with w r show ?thesis by blast
qed

definition rw_crossed :: "spinlock_rw_mutex" where
  "rw_crossed = \<lparr>readers_count = 1, writer_lock = True\<rparr>"

lemmas rw_eval = rw_free_def rw_crossed_def rw_blocking_def rw_trying_def rw_counted_def try_lock_write_def

text \<open>C40: The lock does not keep readers and writers apart.  Two threads that use only the blocking methods can
  hold it at once, one for reading and one for writing, and so can two threads that use only the trying methods.\<close>

theorem rw_lock_overlap:
  "threads_reach rw_step Idle rw_blocking 2 rw_free ([Reading, Writing], rw_crossed) \<and>
   threads_reach rw_step Idle rw_trying 2 rw_free ([Reading, Writing], rw_crossed)"
proof
  let ?one = "\<lparr>readers_count = 1, writer_lock = False\<rparr>"
  show "threads_reach rw_step Idle rw_blocking 2 rw_free ([Reading, Writing], rw_crossed)"
    by (rule reach_run [of _ _ _ _ _ "[(1, LW_Readers, rw_free), (1, LW_Writer, rw_free), (1, LW_Exchange, rw_free),
        (0, LR_Spin, rw_free), (0, LR_Add, rw_free), (0, LR_Check, ?one), (0, Reading, ?one), (1, Writing, rw_crossed)]"])
      (simp add: rw_eval numeral_2_eq_2)
  show "threads_reach rw_step Idle rw_trying 2 rw_free ([Reading, Writing], rw_crossed)"
    by (rule reach_run [of _ _ _ _ _ "[(0, TR_Check, rw_free), (0, TR_Add, rw_free), (0, Reading, ?one),
        (1, TW_Exchange, ?one), (1, Writing, rw_crossed)]"])
      (simp add: rw_eval numeral_2_eq_2)
qed

lemma rw_lock_run:
  "threads_reach rw_step Idle (rw_blocking \<union> rw_trying) 2 rw_free ([LR_Sub, Writing], rw_crossed)"
  by (rule reach_run [of _ _ _ _ _ "[(0, LR_Spin, rw_free), (0, LR_Add, rw_free), (1, TW_Exchange, rw_free),
      (1, Writing, rw_free\<lparr>writer_lock := True\<rparr>), (0, LR_Check, rw_crossed), (0, LR_Sub, rw_crossed)]"])
    (simp add: rw_eval numeral_2_eq_2)

theorem rw_lock_holders_witness:
  "threads_reach rw_step Idle (rw_blocking \<union> rw_trying) 2 rw_free ([LR_Sub, Writing], rw_crossed) \<and>
   length (filter (\<lambda>p. p = Writing) [LR_Sub, Writing]) = 1 \<and> unat (readers_count rw_crossed) = 1"
  using rw_lock_run rw_lock_holders [OF rw_lock_run] by (simp add: rw_eval)

text \<open>C35: Threads that call \<open>get_bind_core\<close> in any order get the cores of a node one after the other, no core
  twice; the last number handed out may be the number of cores of the node, one more than its last core.\<close>

theorem bind_cores_distinct:
  assumes "threads_reach (get_bind_core lcores) Bind_Idle bind_calls n bind_start (ts, s)"
  shows "handed_on numa s = [0..<length (handed_on numa s)] \<and> length (handed_on numa s) \<le> lcores + 1"
proof -
  have "bind_ok lcores numa (ts, s)" by (rule bind_ok_reach [OF assms])
  thus ?thesis by (cases "\<exists>v. Bind_Unlock numa v \<in> set ts") (auto simp: bind_ok_def)
qed

lemma bind_run:
  "threads_reach (get_bind_core 1) Bind_Idle bind_calls 2 bind_start
     ([Bind_Idle, Bind_Lock False], bind_start\<lparr>numa0_core := 1, handed := [(False, 0)]\<rparr>)"
  by (rule reach_run [of _ _ _ _ _ "[(0, Bind_Lock False, bind_start), (1, Bind_Lock False, bind_start),
      (0, Bind_Read False, bind_start\<lparr>bind_lock := \<lparr>flag = True\<rparr>\<rparr>),
      (1, Bind_Lock False, bind_start\<lparr>bind_lock := \<lparr>flag = True\<rparr>\<rparr>),
      (0, Bind_Write False 0, bind_start\<lparr>bind_lock := \<lparr>flag = True\<rparr>\<rparr>),
      (0, Bind_Unlock False 0, bind_start\<lparr>bind_lock := \<lparr>flag = True\<rparr>, numa0_core := 1\<rparr>),
      (0, Bind_Idle, bind_start\<lparr>numa0_core := 1, handed := [(False, 0)]\<rparr>)]"])
    (simp add: bind_start_def bind_calls_def mutex_defs core_of_def set_core_def numeral_2_eq_2)

theorem bind_cores_distinct_witness:
  "threads_reach (get_bind_core 1) Bind_Idle bind_calls 2 bind_start
     ([Bind_Idle, Bind_Lock False], bind_start\<lparr>numa0_core := 1, handed := [(False, 0)]\<rparr>) \<and>
   handed_on False (bind_start\<lparr>numa0_core := 1, handed := [(False, 0)]\<rparr>) = [0]"
  using bind_run bind_cores_distinct [OF bind_run, of False] by (simp add: handed_on_def)

end
