(* ===== verification/Xxhash64.thy ===== *)
theory Xxhash64
  imports Dpa_Prelude
begin

text \<open>
  The incremental hash of \<open>test_suite/small_bank/xxhash64.h\<close>: the class with its temporary buffer, the hash of
  the bytes added so far, and the algorithm it implements, given on the whole input at once.  A pointer to a block
  of bytes is the list of the bytes, \<open>None\<close> the null pointer.
\<close>

unbundle bit_operations_syntax

section \<open>The class\<close>

definition Prime1 :: u64 where "Prime1 = 11400714785074694791"
definition Prime2 :: u64 where "Prime2 = 14029467366897019727"
definition Prime3 :: u64 where "Prime3 = 1609587929392839161"
definition Prime4 :: u64 where "Prime4 = 9650029242287828579"
definition Prime5 :: u64 where "Prime5 = 2870177450012600261"

definition MaxBufferSize :: u64 where "MaxBufferSize = 31 + 1"

type_synonym lanes = "u64 \<times> u64 \<times> u64 \<times> u64"

record XXHash64 =
  lanes :: lanes
  buffer :: "u8 list"
  bufferSize :: u64
  totalLength :: u64

text \<open>A word read from the first bytes of a block, on a little-endian machine.\<close>

fun le_word :: "u8 list \<Rightarrow> 'a::len word" where
  "le_word [] = 0"
| "le_word (b # bs) = ucast b OR push_bit 8 (le_word bs)"

definition rotateLeft :: "u64 \<Rightarrow> nat \<Rightarrow> u64" where
  "rotateLeft x bits = push_bit bits x OR drop_bit (64 - bits) x"

definition processSingle :: "u64 \<Rightarrow> u64 \<Rightarrow> u64" where
  "processSingle previous input = rotateLeft (previous + input * Prime2) 31 * Prime1"

definition process :: "u8 list \<Rightarrow> lanes \<Rightarrow> lanes" where
  "process data = (\<lambda>(s0, s1, s2, s3).
     (processSingle s0 (le_word (take 8 data)), processSingle s1 (le_word (take 8 (drop 8 data))),
      processSingle s2 (le_word (take 8 (drop 16 data))), processSingle s3 (le_word (take 8 (drop 24 data)))))"

definition seed_lanes :: "u64 \<Rightarrow> lanes" where
  "seed_lanes seed = (seed + Prime1 + Prime2, seed + Prime2, seed, seed - Prime1)"

text \<open>The constructor leaves the buffer as the memory was: \<open>junk\<close>.\<close>

definition XXHash64_new :: "u8 list \<Rightarrow> u64 \<Rightarrow> XXHash64" where
  "XXHash64_new junk seed = \<lparr>lanes = seed_lanes seed, buffer = junk, bufferSize = 0, totalLength = 0\<rparr>"

definition put_byte :: "u8 \<Rightarrow> XXHash64 \<Rightarrow> XXHash64" where
  "put_byte b h = h\<lparr>buffer := (buffer h)[unat (bufferSize h) := b], bufferSize := bufferSize h + 1\<rparr>"

fun fill_buffer :: "u8 list \<Rightarrow> XXHash64 \<Rightarrow> u8 list \<times> XXHash64" where
  "fill_buffer [] h = ([], h)"
| "fill_buffer (b # bs) h = (if bufferSize h < MaxBufferSize then fill_buffer bs (put_byte b h) else (b # bs, h))"

function process_blocks :: "u8 list \<Rightarrow> lanes \<Rightarrow> u8 list \<times> lanes" where
  "process_blocks data s = (if 32 \<le> length data then process_blocks (drop 32 data) (process data s) else (data, s))"
  by pat_completeness auto

termination process_blocks
  by (relation "measure (length \<circ> fst)") auto

declare process_blocks.simps [simp del]

definition copy_remainder :: "u8 list \<Rightarrow> u8 list \<Rightarrow> u8 list" where
  "copy_remainder data buf = fold (\<lambda>i buf. buf[i := data ! i]) [0..<length data] buf"

definition add :: "u8 list option \<Rightarrow> XXHash64 \<Rightarrow> bool \<times> XXHash64" where
  "add input h = (case input of None \<Rightarrow> (False, h) | Some data \<Rightarrow>
     if data = [] then (False, h) else
     let len = of_nat (length data); h = h\<lparr>totalLength := totalLength h + len\<rparr> in
     if bufferSize h + len < MaxBufferSize then (True, fold put_byte data h)
     else
       let (data, h) =
             (if 0 < bufferSize h
              then let (data, h) = fill_buffer data h in (data, h\<lparr>lanes := process (buffer h) (lanes h)\<rparr>)
              else (data, h));
           (data, s) = process_blocks data (lanes h)
       in (True, h\<lparr>lanes := s, bufferSize := of_nat (length data), buffer := copy_remainder data (buffer h)\<rparr>))"

definition merge_lane :: "u64 \<Rightarrow> u64 \<Rightarrow> u64" where
  "merge_lane s result = (result XOR processSingle 0 s) * Prime1 + Prime4"

definition merge_lanes :: "lanes \<Rightarrow> u64" where
  "merge_lanes = (\<lambda>(s0, s1, s2, s3).
     let result = rotateLeft s0 1 + rotateLeft s1 7 + rotateLeft s2 12 + rotateLeft s3 18
     in merge_lane s3 (merge_lane s2 (merge_lane s1 (merge_lane s0 result))))"

definition eat_8 :: "u8 list \<Rightarrow> u64 \<Rightarrow> u64" where
  "eat_8 data result = rotateLeft (result XOR processSingle 0 (le_word (take 8 data))) 27 * Prime1 + Prime4"

function eat_words :: "u8 list \<Rightarrow> u64 \<Rightarrow> u8 list \<times> u64" where
  "eat_words data result = (if 8 \<le> length data then eat_words (drop 8 data) (eat_8 data result) else (data, result))"
  by pat_completeness auto

termination eat_words
  by (relation "measure (length \<circ> fst)") auto

declare eat_words.simps [simp del]

definition eat_4 :: "u8 list \<Rightarrow> u64 \<Rightarrow> u64" where
  "eat_4 data result =
     rotateLeft (result XOR ucast (le_word (take 4 data) :: u32) * Prime1) 23 * Prime2 + Prime3"

definition eat_1 :: "u8 \<Rightarrow> u64 \<Rightarrow> u64" where
  "eat_1 b result = rotateLeft (result XOR ucast b * Prime5) 11 * Prime1"

definition eat_bytes :: "u8 list \<Rightarrow> u64 \<Rightarrow> u64" where
  "eat_bytes data result =
     (let (data, result) = (if 4 \<le> length data then (drop 4 data, eat_4 data result) else (data, result))
      in fold eat_1 data result)"

definition mix_bits :: "u64 \<Rightarrow> u64" where
  "mix_bits result =
     (let result = result XOR drop_bit 33 result; result = result * Prime2;
          result = result XOR drop_bit 29 result; result = result * Prime3
      in result XOR drop_bit 32 result)"

definition hash :: "XXHash64 \<Rightarrow> u64" where
  "hash h =
     (let result = (if MaxBufferSize \<le> totalLength h then merge_lanes (lanes h) else fst (snd (snd (lanes h))) + Prime5);
          result = result + totalLength h;
          (data, result) = eat_words (take (unat (bufferSize h)) (buffer h)) result
      in mix_bits (eat_bytes data result))"

definition hash_of :: "u8 list \<Rightarrow> u8 list option \<Rightarrow> u64 \<Rightarrow> u64" where
  "hash_of junk input seed = hash (snd (add input (XXHash64_new junk seed)))"

section \<open>The algorithm on the whole input\<close>

definition chunks :: "nat \<Rightarrow> 'a list \<Rightarrow> 'a list list" where
  "chunks k xs = map (\<lambda>i. take k (drop (k * i) xs)) [0..<length xs div k]"

definition rest :: "nat \<Rightarrow> 'a list \<Rightarrow> 'a list" where
  "rest k xs = drop (k * (length xs div k)) xs"

definition xxh64 :: "u64 \<Rightarrow> u8 list \<Rightarrow> u64" where
  "xxh64 seed bs =
     (let acc = (if 32 \<le> length bs then merge_lanes (fold process (chunks 32 bs) (seed_lanes seed)) else seed + Prime5)
                + of_nat (length bs);
          acc = fold eat_8 (chunks 8 (rest 32 bs)) acc
      in mix_bits (eat_bytes (rest 8 (rest 32 bs)) acc))"

definition add_all :: "u8 list list \<Rightarrow> XXHash64 \<Rightarrow> XXHash64" where
  "add_all parts h = fold (\<lambda>data h. snd (add (Some data) h)) parts h"

section \<open>Pieces of an input\<close>

lemma chunks_small: "length xs < k \<Longrightarrow> chunks k xs = []" "length xs < k \<Longrightarrow> rest k xs = xs"
  by (simp_all add: chunks_def rest_def)

lemma chunks_step:
  assumes "0 < k" and "k \<le> length xs"
  shows "chunks k xs = take k xs # chunks k (drop k xs)" and "rest k xs = rest k (drop k xs)"
proof -
  have "length xs div k = Suc ((length xs - k) div k)"
    using assms le_div_geq [of k "length xs"] by simp
  thus "chunks k xs = take k xs # chunks k (drop k xs)" "rest k xs = rest k (drop k xs)"
    unfolding chunks_def rest_def
    by (simp_all add: upt_conv_Cons map_Suc_upt [symmetric] add.commute del: upt_Suc)
qed

lemma length_rest: "length (rest k xs) = length xs mod k"
  by (simp add: rest_def minus_mult_div_eq_mod)

lemma rest_rest: "0 < k \<Longrightarrow> rest k (rest k xs) = rest k xs"
  by (rule chunks_small) (simp add: length_rest)

lemma chunks_append:
  assumes "0 < k" and "length xs = k * n"
  shows "chunks k (xs @ ys) = chunks k xs @ chunks k ys" and "rest k (xs @ ys) = rest k ys"
proof -
  have "chunks k (xs @ ys) = chunks k xs @ chunks k ys \<and> rest k (xs @ ys) = rest k ys"
    using assms
  proof (induction n arbitrary: xs)
    case 0
    thus ?case by (simp add: chunks_def)
  next
    case (Suc n)
    hence "length (drop k xs) = k * n" by simp
    with Suc.IH [of "drop k xs"] Suc.prems show ?case
      using chunks_step [of k "xs @ ys"] chunks_step [of k xs] by simp
  qed
  thus "chunks k (xs @ ys) = chunks k xs @ chunks k ys" "rest k (xs @ ys) = rest k ys" by auto
qed

lemma chunks_cat:
  assumes "0 < k"
  shows "chunks k (xs @ ys) = chunks k xs @ chunks k (rest k xs @ ys)" and "rest k (xs @ ys) = rest k (rest k xs @ ys)"
proof -
  let ?a = "take (k * (length xs div k)) xs"
  have xs: "xs = ?a @ rest k xs" by (simp add: rest_def)
  have a: "length ?a = k * (length xs div k)" by simp
  have "chunks k xs = chunks k ?a"
    using chunks_append(1) [OF assms a, of "rest k xs"] chunks_small(1) [of "rest k xs" k] assms
    by (simp add: length_rest flip: xs)
  with chunks_append [OF assms a, of "rest k xs @ ys"] xs
  show "chunks k (xs @ ys) = chunks k xs @ chunks k (rest k xs @ ys)" "rest k (xs @ ys) = rest k (rest k xs @ ys)"
    by (metis append.assoc)+
qed

section \<open>The loops\<close>

lemma process_take: "process (take 32 data) = process data"
  by (simp add: process_def drop_take)

lemma eat_8_take: "eat_8 (take 8 data) = eat_8 data"
  by (rule ext) (simp add: eat_8_def)

lemma process_blocks_chunks: "process_blocks data s = (rest 32 data, fold process (chunks 32 data) s)"
proof (induction data s rule: process_blocks.induct)
  case (1 data s)
  show ?case
    using 1 by (subst process_blocks.simps) (auto simp: chunks_step chunks_small process_take)
qed

lemma eat_words_chunks: "eat_words data r = (rest 8 data, fold eat_8 (chunks 8 data) r)"
proof (induction data r rule: eat_words.induct)
  case (1 data r)
  show ?case
    using 1 by (subst eat_words.simps) (auto simp: chunks_step chunks_small eat_8_take)
qed

lemma copy_remainder_eq:
  assumes "length data \<le> length buf"
  shows "copy_remainder data buf = data @ drop (length data) buf"
proof -
  have "fold (\<lambda>i buf. buf[i := data ! i]) [0..<n] buf = take n data @ drop n buf" if "n \<le> length data" for n
    using that
  proof (induction n)
    case 0
    show ?case by simp
  next
    case (Suc n)
    have "drop n buf = buf ! n # drop (Suc n) buf" using Suc.prems assms by (simp add: Cons_nth_drop_Suc)
    with Suc show ?case by (simp add: list_update_append take_Suc_conv_app_nth)
  qed
  thus ?thesis by (simp add: copy_remainder_def)
qed

text \<open>The buffer holds \<open>bs\<close>: its first \<open>length bs\<close> places, fewer than all of them.\<close>

definition holds :: "u8 list \<Rightarrow> XXHash64 \<Rightarrow> bool" where
  "holds bs h \<longleftrightarrow> length (buffer h) = 32 \<and> length bs \<le> 32 \<and> bufferSize h = of_nat (length bs) \<and>
     take (length bs) (buffer h) = bs"

lemma holds_put:
  assumes "holds bs h" and "length bs < 32"
  shows "holds (bs @ [b]) (put_byte b h)" and "lanes (put_byte b h) = lanes h"
    and "totalLength (put_byte b h) = totalLength h"
proof -
  have "unat (of_nat (length bs) :: u64) = length bs" using assms by (simp add: unat_of_nat)
  thus "holds (bs @ [b]) (put_byte b h)"
    using assms by (simp add: holds_def put_byte_def take_Suc_conv_app_nth algebra_simps)
qed (simp_all add: put_byte_def)

lemma holds_fold:
  assumes "holds bs h" and "length bs + length data \<le> 32"
  shows "holds (bs @ data) (fold put_byte data h) \<and> lanes (fold put_byte data h) = lanes h \<and>
    totalLength (fold put_byte data h) = totalLength h"
  using assms
proof (induction data arbitrary: bs h)
  case Nil
  thus ?case by simp
next
  case (Cons b data)
  have "length bs < 32" using Cons.prems by simp
  thus ?case using Cons.IH [of "bs @ [b]" "put_byte b h"] Cons.prems holds_put [of bs h b] by simp
qed

lemma fill_buffer_fold:
  assumes "holds bs h" and "32 \<le> length bs + length data"
  shows "fill_buffer data h = (drop (32 - length bs) data, fold put_byte (take (32 - length bs) data) h)"
  using assms
proof (induction data arbitrary: bs h)
  case Nil
  thus ?case by (simp add: holds_def)
next
  case (Cons b data)
  have "bufferSize h < MaxBufferSize \<longleftrightarrow> length bs < 32"
    using Cons.prems by (simp add: holds_def MaxBufferSize_def word_less_nat_alt unat_of_nat)
  moreover have "length bs < 32 \<or> length bs = 32" using Cons.prems by (auto simp: holds_def)
  ultimately show ?case
    using Cons.IH [of "bs @ [b]" "put_byte b h"] Cons.prems holds_put [of bs h b]
    by (auto simp: take_Cons' drop_Cons')
qed

section \<open>Adding in parts\<close>

text \<open>The state after the bytes \<open>bs\<close>.\<close>

definition hashed :: "u64 \<Rightarrow> u8 list \<Rightarrow> XXHash64 \<Rightarrow> bool" where
  "hashed seed bs h \<longleftrightarrow> lanes h = fold process (chunks 32 bs) (seed_lanes seed) \<and> holds (rest 32 bs) h \<and>
     totalLength h = of_nat (length bs)"

lemma hashed_new: "length junk = 32 \<Longrightarrow> hashed seed [] (XXHash64_new junk seed)"
  by (simp add: hashed_def XXHash64_new_def holds_def chunks_small)

lemma holds_remainder:
  assumes "length (buffer h) = 32"
  shows "holds (rest 32 d)
    (h\<lparr>lanes := s, bufferSize := of_nat (length (rest 32 d)), buffer := copy_remainder (rest 32 d) (buffer h)\<rparr>)"
proof -
  have "length (rest 32 d) < 32" by (simp add: length_rest)
  thus ?thesis using assms by (simp add: holds_def copy_remainder_eq)
qed

lemma buffer_size_fits:
  assumes "holds r h" and "length r + length data < 2 ^ 64"
  shows "bufferSize h + of_nat (length data) < MaxBufferSize \<longleftrightarrow> length r + length data < 32"
    and "0 < bufferSize h \<longleftrightarrow> r \<noteq> []"
proof -
  have "bufferSize h + of_nat (length data) = of_nat (length r + length data)"
    using assms by (simp add: holds_def)
  thus "bufferSize h + of_nat (length data) < MaxBufferSize \<longleftrightarrow> length r + length data < 32"
    using assms(2) by (simp add: MaxBufferSize_def word_less_nat_alt unat_of_nat del: of_nat_add)
  show "0 < bufferSize h \<longleftrightarrow> r \<noteq> []"
    using assms by (simp add: holds_def word_less_nat_alt unat_of_nat)
qed

text \<open>The part of \<open>add\<close> after the test for the buffer: fill it, process it, process the blocks, keep the rest.\<close>

lemma filled_buffer:
  assumes "holds r h" and "32 \<le> length r + length data" and "length r < 32"
  shows "fst (fill_buffer data h) = drop (32 - length r) data"
    and "buffer (snd (fill_buffer data h)) = take 32 (r @ data)"
    and "lanes (snd (fill_buffer data h)) = lanes h" and "totalLength (snd (fill_buffer data h)) = totalLength h"
proof -
  let ?d = "take (32 - length r) data"
  have "length r + length ?d = 32" using assms(2,3) by simp
  with holds_fold [OF assms(1), of ?d] fill_buffer_fold [OF assms(1,2)] assms(3)
  show "fst (fill_buffer data h) = drop (32 - length r) data" "lanes (snd (fill_buffer data h)) = lanes h"
    "buffer (snd (fill_buffer data h)) = take 32 (r @ data)" "totalLength (snd (fill_buffer data h)) = totalLength h"
    by (auto simp: holds_def)
qed

lemma hashed_add:
  assumes "hashed seed bs h" and "length bs + length data < 2 ^ 64"
  shows "hashed seed (bs @ data) (snd (add (Some data) h))"
proof (cases "data = []")
  case True
  thus ?thesis using assms by (simp add: add_def)
next
  case False
  let ?r = "rest 32 bs" and ?h = "h\<lparr>totalLength := totalLength h + of_nat (length data)\<rparr>"
  have r: "length ?r < 32" and "length ?r \<le> length bs" by (simp_all add: length_rest)
  hence fits: "length ?r + length data < 2 ^ 64" using assms(2) by simp
  have h: "holds ?r ?h" "lanes ?h = fold process (chunks 32 bs) (seed_lanes seed)"
    "totalLength ?h = of_nat (length (bs @ data))"
    using assms(1) by (simp_all add: hashed_def holds_def)
  note size = buffer_size_fits [OF h(1) fits]
  consider (small) "length ?r + length data < 32" | (filled) "32 \<le> length ?r + length data" "?r \<noteq> []"
    | (fresh) "32 \<le> length ?r + length data" "?r = []" by linarith
  thus ?thesis
  proof cases
    case small
    hence "snd (add (Some data) h) = fold put_byte data ?h" using False size by (simp add: add_def Let_def)
    thus ?thesis
      using holds_fold [OF h(1), of data] small h
      by (simp add: hashed_def chunks_cat [of 32 bs data] chunks_small)
  next
    case filled
    note f = filled_buffer [OF h(1) filled(1) r]
    let ?d = "drop (32 - length ?r) data" and ?f = "snd (fill_buffer data ?h)"
    have d: "drop 32 (?r @ data) = ?d" using r by simp
    have len: "length (buffer ?f) = 32" using f(2) filled(1) by simp
    have c: "chunks 32 (bs @ data) = chunks 32 bs @ take 32 (?r @ data) # chunks 32 ?d" "rest 32 (bs @ data) = rest 32 ?d"
      using chunks_cat [of 32 bs data] chunks_step [of 32 "?r @ data"] filled(1) unfolding d by simp_all
    have "snd (add (Some data) h) = ?f\<lparr>lanes := fold process (chunks 32 ?d) (process (buffer ?f) (lanes ?f)),
        bufferSize := of_nat (length (rest 32 ?d)), buffer := copy_remainder (rest 32 ?d) (buffer ?f)\<rparr>"
      using False size filled f(1) by (simp add: add_def Let_def split_beta process_blocks_chunks)
    thus ?thesis unfolding hashed_def c using f h holds_remainder [OF len] by simp
  next
    case fresh
    have len: "length (buffer ?h) = 32" using h(1) by (simp add: holds_def)
    have c: "chunks 32 (bs @ data) = chunks 32 bs @ chunks 32 data" "rest 32 (bs @ data) = rest 32 data"
      using chunks_cat [of 32 bs data] fresh(2) by simp_all
    have "snd (add (Some data) h) = ?h\<lparr>lanes := fold process (chunks 32 data) (lanes ?h),
        bufferSize := of_nat (length (rest 32 data)), buffer := copy_remainder (rest 32 data) (buffer ?h)\<rparr>"
      using False size fresh by (simp add: add_def Let_def split_beta process_blocks_chunks)
    thus ?thesis unfolding hashed_def c using h holds_remainder [OF len] by simp
  qed
qed

lemma hashed_add_all:
  assumes "hashed seed bs h" and "length bs + length (concat parts) < 2 ^ 64"
  shows "hashed seed (bs @ concat parts) (add_all parts h)"
  using assms
proof (induction parts arbitrary: bs h)
  case Nil
  thus ?case by (simp add: add_all_def)
next
  case (Cons data parts)
  have "hashed seed (bs @ data) (snd (add (Some data) h))" using Cons.prems by (intro hashed_add) simp_all
  thus ?case using Cons.IH [of "bs @ data" "snd (add (Some data) h)"] Cons.prems by (simp add: add_all_def)
qed

lemma seed_lane: "fst (snd (snd (seed_lanes seed))) = seed"
  by (simp add: seed_lanes_def)

lemma hash_hashed:
  assumes "hashed seed bs h" and "length bs < 2 ^ 64"
  shows "hash h = xxh64 seed bs"
proof -
  have "MaxBufferSize \<le> totalLength h \<longleftrightarrow> 32 \<le> length bs"
    using assms by (simp add: hashed_def MaxBufferSize_def word_le_nat_alt unat_of_nat)
  moreover have "take (unat (bufferSize h)) (buffer h) = rest 32 bs"
    using assms by (simp add: hashed_def holds_def unat_of_nat)
  moreover have "chunks 32 bs = []" if "\<not> 32 \<le> length bs" using that by (simp add: chunks_small)
  ultimately show ?thesis
    using assms(1) by (simp add: hash_def xxh64_def hashed_def Let_def eat_words_chunks seed_lane)
qed

section \<open>Properties\<close>

text \<open>C6: Bytes may be added to \<open>XXHash64\<close> in any parts: the hash after the last part is the hash of the whole
  input, as the algorithm gives it, whatever the uninitialised buffer held.\<close>

theorem xxhash_parts:
  assumes "length junk = 32" and "length (concat parts) < 2 ^ 64"
  shows "hash (add_all parts (XXHash64_new junk seed)) = xxh64 seed (concat parts)"
  using hash_hashed [OF hashed_add_all [OF hashed_new [OF assms(1)]]] assms(2) by simp

text \<open>The hash of the three bytes \<open>abc\<close>, in two parts; the value is the published test vector.\<close>

theorem xxhash_parts_witness:
  "length (replicate 32 (0xAB :: u8)) = 32 \<and>
   hash (add_all [[0x61], [0x62, 0x63]] (XXHash64_new (replicate 32 0xAB) 0)) = xxh64 0 [0x61, 0x62, 0x63] \<and>
   xxh64 0 [0x61, 0x62, 0x63] = 0x44BC2CF5AD770999"
proof -
  have "xxh64 0 [0x61, 0x62, 0x63] = 0x44BC2CF5AD770999" by code_simp
  thus ?thesis using xxhash_parts [of "replicate 32 0xAB" "[[0x61], [0x62, 0x63]]" 0] by simp
qed

end
