(* ===== verification/Bank_Server.thy ===== *)
theory Bank_Server
  imports Spin_Locks Xxhash64 "HOL-Library.Multiset"
begin

text \<open>
  The transaction server on the host, \<open>test_suite/small_bank/server\<close>, with its messages
  (\<open>small_bank_rpc_type.h\<close>).  A handler is one step: the server's other threads run between handlers.  Balances
  are of type \<open>'d\<close> and only copied here; the records of a response that the code leaves unwritten are taken from
  \<open>junk\<close>.  A failed \<open>rt_assert\<close> is \<open>None\<close>.
\<close>

section \<open>Messages\<close>

datatype RPC_TYPE = RPC_PING | RPC_GET_DATA | RPC_GET_LOCK | RPC_FINISH

datatype LOCK_TYPE = NO_LOCK | READ_LOCK | WRITE_LOCK

record CommonReq =
  req_type :: RPC_TYPE
  req_number :: u32

record CommonResp =
  resp_type :: RPC_TYPE
  resp_number :: u32
  resp_status :: int

text \<open>The four fields that most messages have, one for each user and table.\<close>

record 'a quad =
  user1_checking :: 'a
  user1_saving :: 'a
  user2_checking :: 'a
  user2_saving :: 'a

definition quad_list :: "'a quad \<Rightarrow> 'a list" where
  "quad_list q = [user1_checking q, user1_saving q, user2_checking q, user2_saving q]"

record users =
  user1 :: u64
  user2 :: u64

record PingRPC =
  timestamp :: u64

record GetDataReq_host = users +
  get_data :: "u8 quad"

record 'd GetDataResp_host = users +
  data_balance :: "'d quad"

record GetLockReq_host = users +
  lock_want :: "LOCK_TYPE quad"

record GetLockResp_host = users +
  lock_success :: bool

record 'd FinishReq_host = users +
  fin_balance :: "'d quad"
  fin_changed :: "u8 quad"
  fin_unlock :: "LOCK_TYPE quad"

record FinishResp_host = users +
  fin_success :: bool

type_synonym 'm req_msg = "CommonReq \<times> 'm"
type_synonym 'm resp_msg = "CommonResp \<times> 'm"

text \<open>\<open>sizeof\<close> of the request messages: the packed header, then the body with its own alignment.\<close>

definition sizeof_req :: "RPC_TYPE \<Rightarrow> u64" where
  "sizeof_req t = 5 + (case t of RPC_PING \<Rightarrow> 8 | RPC_GET_DATA \<Rightarrow> 24 | RPC_GET_LOCK \<Rightarrow> 24 | RPC_FINISH \<Rightarrow> 56)"

section \<open>Tables\<close>

definition NUM_ENTRY :: u64 where "NUM_ENTRY = 4000000 + 1"
definition NUM_ACCOUNTS_HOST :: u64 where "NUM_ACCOUNTS_HOST = 1000000"
definition NUM_SCALE :: u64 where "NUM_SCALE = NUM_ENTRY div NUM_ACCOUNTS_HOST"

record 'd account =
  custom_id :: u64
  balance :: 'd
  account_mutex :: spinlock_rw_mutex

datatype table = Savings | Checking

text \<open>\<open>savings_global\<close> and \<open>checking_global\<close>, as one store over the table and the index, and the hash table.\<close>

type_synonym place = "table \<times> u64"

record 'd bank =
  accounts :: "place \<Rightarrow> 'd account"
  hash_table_global :: "u64 \<Rightarrow> u64"

definition place_of :: "table \<Rightarrow> u64 \<Rightarrow> place" where
  "place_of t user = (t, user * NUM_SCALE)"

definition places :: "u64 \<Rightarrow> u64 \<Rightarrow> place list" where
  "places u1 u2 = [place_of Checking u1, place_of Savings u1, place_of Checking u2, place_of Savings u2]"

definition mutex_at :: "place \<Rightarrow> 'd bank \<Rightarrow> spinlock_rw_mutex" where
  "mutex_at p b = account_mutex (accounts b p)"

definition set_mutex :: "place \<Rightarrow> spinlock_rw_mutex \<Rightarrow> 'd bank \<Rightarrow> 'd bank" where
  "set_mutex p l b = b\<lparr>accounts := (accounts b)(p := (accounts b p)\<lparr>account_mutex := l\<rparr>)\<rparr>"

definition balance_at :: "place \<Rightarrow> 'd bank \<Rightarrow> 'd" where
  "balance_at p b = balance (accounts b p)"

definition set_balance_at :: "place \<Rightarrow> 'd \<Rightarrow> 'd bank \<Rightarrow> 'd bank" where
  "set_balance_at p v b = b\<lparr>accounts := (accounts b)(p := (accounts b p)\<lparr>balance := v\<rparr>)\<rparr>"

text \<open>\<open>init_hash_table\<close>, \<open>init_saving\<close> and \<open>init_checking\<close>; \<open>half\<close> is \<open>SIZE_MAX / 2\<close> as a balance.\<close>

definition init_hash_table :: "u8 list \<Rightarrow> nat \<Rightarrow> 'd bank \<Rightarrow> 'd bank" where
  "init_hash_table junk n b =
     fold (\<lambda>i b. b\<lparr>hash_table_global := (hash_table_global b)(of_nat i :=
         hash_of junk (Some (word_bytes 8 (of_nat i :: u64))) 0 mod NUM_ENTRY)\<rparr>) [0..<n] b"

definition init_table :: "table \<Rightarrow> 'd \<Rightarrow> nat \<Rightarrow> 'd bank \<Rightarrow> 'd bank" where
  "init_table t half n b =
     fold (\<lambda>i b. let p = place_of t (of_nat i) in
         b\<lparr>accounts := (accounts b)(p := (accounts b p)\<lparr>custom_id := of_nat i, balance := half\<rparr>)\<rparr>) [0..<n] b"

section \<open>Handlers\<close>

record ServerContext =
  stat_req_ping_tot :: u64
  stat_req_get_data_tot :: u64
  stat_req_get_lock_success_tot :: u64
  stat_req_get_lock_fail_tot :: u64
  stat_req_finish_tot :: u64

definition reset_stat :: "ServerContext \<Rightarrow> ServerContext" where
  "reset_stat c = \<lparr>stat_req_ping_tot = 0, stat_req_get_data_tot = 0, stat_req_get_lock_success_tot = 0,
     stat_req_get_lock_fail_tot = 0, stat_req_finish_tot = 0\<rparr>"

record 'd server =
  tables :: "'d bank"
  server_ctx :: ServerContext

definition common_resp :: "CommonReq \<Rightarrow> CommonResp" where
  "common_resp c = \<lparr>resp_type = req_type c, resp_number = req_number c, resp_status = 0\<rparr>"

definition ping_handler :: "u64 \<Rightarrow> PingRPC req_msg \<Rightarrow> 'd server \<Rightarrow> (PingRPC resp_msg \<times> 'd server) option" where
  "ping_handler data_size = (\<lambda>(common, req) s.
     let s = s\<lparr>server_ctx := (server_ctx s)\<lparr>stat_req_ping_tot := stat_req_ping_tot (server_ctx s) + 1\<rparr>\<rparr> in
     if data_size \<noteq> sizeof_req RPC_PING then None
     else Some ((common_resp common, \<lparr>timestamp = timestamp req\<rparr>), s))"

definition get_data_handler ::
  "'d quad \<Rightarrow> u64 \<Rightarrow> GetDataReq_host req_msg \<Rightarrow> 'd server \<Rightarrow> ('d GetDataResp_host resp_msg \<times> 'd server) option" where
  "get_data_handler junk data_size = (\<lambda>(common, req) s.
     let s = s\<lparr>server_ctx := (server_ctx s)\<lparr>stat_req_get_data_tot := stat_req_get_data_tot (server_ctx s) + 1\<rparr>\<rparr>;
         b = tables s; g = get_data req
     in if data_size \<noteq> sizeof_req RPC_GET_DATA then None
        else Some ((common_resp common,
          \<lparr>user1 = hash_table_global b (user1 req), user2 = hash_table_global b (user2 req), data_balance =
             \<lparr>user1_checking = (if user1_checking g \<noteq> 0 then balance_at (place_of Checking (user1 req)) b else user1_checking junk),
              user1_saving = (if user1_saving g \<noteq> 0 then balance_at (place_of Savings (user1 req)) b else user1_saving junk),
              user2_checking = (if user2_checking g \<noteq> 0 then balance_at (place_of Checking (user2 req)) b else user2_checking junk),
              user2_saving = (if user2_saving g \<noteq> 0 then balance_at (place_of Savings (user2 req)) b else user2_saving junk)\<rparr>\<rparr>), s))"

text \<open>One \<open>switch\<close> of \<open>get_lock_handler\<close>: whether the wanted lock was taken.\<close>

definition lock_switch :: "LOCK_TYPE \<Rightarrow> spinlock_rw_mutex \<Rightarrow> bool \<times> spinlock_rw_mutex" where
  "lock_switch want l = (case want of NO_LOCK \<Rightarrow> (True, l) | READ_LOCK \<Rightarrow> try_lock_read l | WRITE_LOCK \<Rightarrow> try_lock_write l)"

text \<open>The four switches, each under \<open>!lock_failed\<close>: the failure flag, the locks taken, the tables.\<close>

fun lock_all :: "(place \<times> LOCK_TYPE) list \<Rightarrow> 'd bank \<Rightarrow> bool \<times> LOCK_TYPE list \<times> 'd bank" where
  "lock_all [] b = (False, [], b)"
| "lock_all ((p, want) # ws) b =
     (case lock_switch want (mutex_at p b) of
        (True, l) \<Rightarrow> (case lock_all ws (set_mutex p l b) of (failed, taken, b) \<Rightarrow> (failed, want # taken, b))
      | (False, l) \<Rightarrow> (True, NO_LOCK # map (\<lambda>_. NO_LOCK) ws, set_mutex p l b))"

definition unlock_one :: "place \<times> LOCK_TYPE \<Rightarrow> 'd bank \<Rightarrow> 'd bank" where
  "unlock_one = (\<lambda>(p, held) b.
     if held \<noteq> NO_LOCK then
       if held = READ_LOCK then set_mutex p (unlock_read (mutex_at p b)) b else set_mutex p (unlock_write (mutex_at p b)) b
     else b)"

definition get_lock_handler ::
  "u64 \<Rightarrow> GetLockReq_host req_msg \<Rightarrow> 'd server \<Rightarrow> (GetLockResp_host resp_msg \<times> 'd server) option" where
  "get_lock_handler data_size = (\<lambda>(common, req) s.
     if data_size \<noteq> sizeof_req RPC_GET_LOCK then None
     else
       let ps = places (user1 req) (user2 req);
           (lock_failed, taken, b) = lock_all (zip ps (quad_list (lock_want req))) (tables s);
           c = server_ctx s;
           (b, c) =
             (if lock_failed
              then (fold unlock_one (zip ps taken) b, c\<lparr>stat_req_get_lock_fail_tot := stat_req_get_lock_fail_tot c + 1\<rparr>)
              else (b, c\<lparr>stat_req_get_lock_success_tot := stat_req_get_lock_success_tot c + 1\<rparr>))
       in Some ((common_resp common, \<lparr>user1 = hash_table_global (tables s) (user1 req), user2 = hash_table_global (tables s) (user2 req),
            lock_success = (\<not> lock_failed)\<rparr>), s\<lparr>tables := b, server_ctx := c\<rparr>))"

definition write_changed :: "place \<times> u8 \<times> 'd \<Rightarrow> 'd bank \<Rightarrow> 'd bank" where
  "write_changed = (\<lambda>(p, changed, v) b. if changed \<noteq> 0 then set_balance_at p v b else b)"

definition finish_handler ::
  "u64 \<Rightarrow> 'd FinishReq_host req_msg \<Rightarrow> 'd server \<Rightarrow> (FinishResp_host resp_msg \<times> 'd server) option" where
  "finish_handler data_size = (\<lambda>(common, req) s.
     let s = s\<lparr>server_ctx := (server_ctx s)\<lparr>stat_req_finish_tot := stat_req_finish_tot (server_ctx s) + 1\<rparr>\<rparr> in
     if data_size \<noteq> sizeof_req RPC_FINISH then None
     else
       let ps = places (user1 req) (user2 req);
           b = fold write_changed (zip ps (zip (quad_list (fin_changed req)) (quad_list (fin_balance req)))) (tables s);
           b = fold unlock_one (zip ps (quad_list (fin_unlock req))) b
       in Some ((common_resp common, \<lparr>user1 = hash_table_global (tables s) (user1 req), user2 = hash_table_global (tables s) (user2 req),
            fin_success = True\<rparr>), s\<lparr>tables := b\<rparr>))"

section \<open>Locks taken and given back\<close>

lemma mutex_simps [simp]:
  "mutex_at p (set_mutex p l b) = l" "q \<noteq> p \<Longrightarrow> mutex_at q (set_mutex p l b) = mutex_at q b"
  "set_mutex p l (set_mutex p l' b) = set_mutex p l b" "set_mutex p (mutex_at p b) b = b"
  "balance_at q (set_mutex p l b) = balance_at q b" "hash_table_global (set_mutex p l b) = hash_table_global b"
  "mutex_at q (set_balance_at p v b) = mutex_at q b" "hash_table_global (set_balance_at p v b) = hash_table_global b"
  by (simp_all add: mutex_at_def set_mutex_def balance_at_def set_balance_at_def)

lemma set_mutex_commute: "p \<noteq> q \<Longrightarrow> set_mutex p l (set_mutex q l' b) = set_mutex q l' (set_mutex p l b)"
  by (simp add: set_mutex_def fun_upd_twist)

lemma lock_switch_unlock:
  assumes "lock_switch want l = (True, l')"
  shows "want = NO_LOCK \<Longrightarrow> l' = l" and "want = READ_LOCK \<Longrightarrow> unlock_read l' = l"
    and "want = WRITE_LOCK \<Longrightarrow> unlock_write l' = l"
  using assms
  by (auto simp: lock_switch_def try_lock_read_def try_lock_write_def unlock_read_def unlock_write_def split: if_splits)

lemma lock_switch_failed: "lock_switch want l = (False, l') \<Longrightarrow> l' = l"
  by (auto simp: lock_switch_def try_lock_read_def try_lock_write_def split: LOCK_TYPE.splits if_splits)

lemma unlock_one_undo:
  assumes "lock_switch want (mutex_at p b) = (True, l)"
  shows "unlock_one (p, want) (set_mutex p l b) = b"
  using lock_switch_unlock [OF assms] by (cases want) (simp_all add: unlock_one_def)

lemma unlock_read_write: "unlock_read (unlock_write l) = unlock_write (unlock_read l)"
  by (simp add: unlock_read_def unlock_write_def)

lemma unlock_one_commute: "unlock_one x (unlock_one y b) = unlock_one y (unlock_one x b)"
  by (cases x; cases y; cases "fst x = fst y")
    (simp_all add: unlock_one_def set_mutex_commute unlock_read_write)

lemma fold_unlock_commute: "fold unlock_one xs (unlock_one y b) = unlock_one y (fold unlock_one xs b)"
proof (induction xs arbitrary: b)
  case Nil
  show ?case by simp
next
  case (Cons x xs)
  show ?case using Cons.IH [of "unlock_one x b"] by (simp add: unlock_one_commute [of x y])
qed

lemma unlock_one_none [simp]: "unlock_one (p, NO_LOCK) b = b"
  by (simp add: unlock_one_def)

lemma fold_unlock_none: "fold unlock_one (map (\<lambda>x. (fst x, NO_LOCK)) ws) b = b"
  by (induction ws arbitrary: b) simp_all

lemma zip_none: "zip (map fst ws) (map (\<lambda>_. NO_LOCK) ws) = map (\<lambda>x. (fst x, NO_LOCK)) ws"
  by (induction ws) auto

lemma lock_all_rollback:
  "lock_all ws b = (failed, taken, b') \<Longrightarrow> fold unlock_one (zip (map fst ws) taken) b' = b"
proof (induction ws arbitrary: b taken b')
  case Nil
  thus ?case by simp
next
  case (Cons x ws)
  obtain p want where x: "x = (p, want)" by (cases x)
  obtain got l where sw: "lock_switch want (mutex_at p b) = (got, l)" by force
  show ?case
  proof (cases got)
    case True
    then obtain taken' where r: "lock_all ws (set_mutex p l b) = (failed, taken', b')" "taken = want # taken'"
      using Cons.prems sw x by (auto split: prod.splits)
    show ?thesis
      using Cons.IH [OF r(1)] unlock_one_undo [of want p b l] sw True r(2) x by (simp add: fold_unlock_commute)
  next
    case False
    thus ?thesis
      using Cons.prems sw x lock_switch_failed [of want "mutex_at p b" l] by (auto simp: fold_unlock_none zip_none)
  qed
qed

lemma lock_all_taken: "lock_all ws b = (False, taken, b') \<Longrightarrow> taken = map snd ws"
  by (induction ws arbitrary: b taken b') (auto split: prod.splits bool.splits)

section \<open>The locks are those of the holders\<close>

text \<open>The locks of the tables are exactly the ones in \<open>held\<close>.\<close>

definition locks_exact :: "'d bank \<Rightarrow> (place \<times> LOCK_TYPE) multiset \<Rightarrow> bool" where
  "locks_exact b held \<longleftrightarrow> (\<forall>p. readers_count (mutex_at p b) = of_nat (count held (p, READ_LOCK)) \<and>
     count held (p, WRITE_LOCK) = (if writer_lock (mutex_at p b) then 1 else 0))"

lemma locks_exact_take:
  assumes "locks_exact b held" and "lock_switch want (mutex_at p b) = (True, l)"
  shows "locks_exact (set_mutex p l b) (add_mset (p, want) held)"
  unfolding locks_exact_def
proof
  fix q
  show "readers_count (mutex_at q (set_mutex p l b)) = of_nat (count (add_mset (p, want) held) (q, READ_LOCK)) \<and>
    count (add_mset (p, want) held) (q, WRITE_LOCK) = (if writer_lock (mutex_at q (set_mutex p l b)) then 1 else 0)"
    using assms(1) [unfolded locks_exact_def, rule_format, of q] assms(2)
    by (cases "q = p"; cases want)
      (auto simp: lock_switch_def try_lock_read_def try_lock_write_def split: if_splits)
qed

lemma locks_exact_lock_all:
  "locks_exact b held \<Longrightarrow> lock_all ws b = (False, taken, b') \<Longrightarrow> locks_exact b' (held + mset ws)"
proof (induction ws arbitrary: b held taken)
  case Nil
  thus ?case by simp
next
  case (Cons x ws)
  obtain p want where x: "x = (p, want)" by (cases x)
  with Cons.prems obtain l taken' where "lock_switch want (mutex_at p b) = (True, l)"
    "lock_all ws (set_mutex p l b) = (False, taken', b')"
    by (auto split: prod.splits bool.splits)
  thus ?case using Cons.IH [OF locks_exact_take [OF Cons.prems(1)]] x by simp
qed

lemma locks_exact_release:
  assumes "locks_exact b (add_mset (p, want) held)"
  shows "locks_exact (unlock_one (p, want) b) held"
  unfolding locks_exact_def
proof
  fix q
  show "readers_count (mutex_at q (unlock_one (p, want) b)) = of_nat (count held (q, READ_LOCK)) \<and>
    count held (q, WRITE_LOCK) = (if writer_lock (mutex_at q (unlock_one (p, want) b)) then 1 else 0)"
    using assms [unfolded locks_exact_def, rule_format, of q]
    by (cases "q = p"; cases want)
      (auto simp: unlock_one_def unlock_read_def unlock_write_def split: if_splits)
qed

lemma locks_exact_unlock:
  "locks_exact b (mset ws + held) \<Longrightarrow> locks_exact (fold unlock_one ws b) held"
  by (induction ws arbitrary: b) (auto dest: locks_exact_release)

section \<open>Properties of the handlers\<close>

definition wanted :: "GetLockReq_host \<Rightarrow> (place \<times> LOCK_TYPE) list" where
  "wanted req = zip (places (user1 req) (user2 req)) (quad_list (lock_want req))"

lemma wanted_simps: "map fst (wanted req) = places (user1 req) (user2 req)" "map snd (wanted req) = quad_list (lock_want req)"
  by (simp_all add: wanted_def places_def quad_list_def)

lemma get_lock_cases:
  assumes "get_lock_handler data_size (common, req) s = Some ((c, resp), s')"
  obtains (granted) taken where "lock_all (wanted req) (tables s) = (False, taken, tables s')" "lock_success resp"
      "server_ctx s' = (server_ctx s)\<lparr>stat_req_get_lock_success_tot := stat_req_get_lock_success_tot (server_ctx s) + 1\<rparr>"
  | (refused) taken b where "lock_all (wanted req) (tables s) = (True, taken, b)" "\<not> lock_success resp"
      "tables s' = fold unlock_one (zip (places (user1 req) (user2 req)) taken) b"
      "server_ctx s' = (server_ctx s)\<lparr>stat_req_get_lock_fail_tot := stat_req_get_lock_fail_tot (server_ctx s) + 1\<rparr>"
proof -
  obtain failed taken b where l: "lock_all (wanted req) (tables s) = (failed, taken, b)" by (cases "lock_all (wanted req) (tables s)")
  show thesis
    using assms l that by (cases failed) (auto simp: get_lock_handler_def wanted_def Let_def split: if_splits)
qed

lemma account_fields: "a\<lparr>account_mutex := l, balance := v\<rparr> = a\<lparr>balance := v, account_mutex := l\<rparr>" for a :: "'d account"
  by simp

lemma write_unlock_commute: "write_changed x (unlock_one y b) = unlock_one y (write_changed x b)"
  by (cases x; cases y; cases "fst x = fst y")
    (simp_all add: write_changed_def unlock_one_def set_mutex_def set_balance_at_def mutex_at_def fun_upd_twist account_fields)

lemma fold_write_unlock:
  "fold unlock_one ws (fold write_changed cs b) = fold write_changed cs (fold unlock_one ws b)"
proof (induction ws arbitrary: b)
  case Nil
  show ?case by simp
next
  case (Cons w ws)
  have "unlock_one w (fold write_changed cs b) = fold write_changed cs (unlock_one w b)" for b
    by (induction cs arbitrary: b) (simp_all add: write_unlock_commute)
  thus ?case using Cons.IH by simp
qed

text \<open>C10: \<open>get_lock_handler\<close> takes all the locks the request asks for or none: when it answers with success the
  tables hold exactly those locks more than before, otherwise the tables are as before, whatever locks were taken on
  the way and had to be given back.\<close>

theorem bank_get_lock_atomic:
  assumes "get_lock_handler data_size (common, req) s = Some ((c, resp), s')"
  shows "(if lock_success resp
      then \<forall>held. locks_exact (tables s) held \<longrightarrow> locks_exact (tables s') (held + mset (wanted req))
      else tables s' = tables s) \<and>
    resp_number c = req_number common \<and> resp_type c = req_type common \<and> resp_status c = 0"
proof -
  have "resp_number c = req_number common \<and> resp_type c = req_type common \<and> resp_status c = 0"
    using assms by (auto simp: get_lock_handler_def common_resp_def Let_def split: if_splits prod.splits)
  moreover from assms have "if lock_success resp
      then \<forall>held. locks_exact (tables s) held \<longrightarrow> locks_exact (tables s') (held + mset (wanted req))
      else tables s' = tables s"
  proof (cases rule: get_lock_cases)
    case (granted taken)
    thus ?thesis by (auto intro: locks_exact_lock_all)
  next
    case (refused taken b)
    thus ?thesis using lock_all_rollback [OF refused(1)] by (simp add: wanted_simps)
  qed
  ultimately show ?thesis by blast
qed

lemma fold_write_changed:
  assumes "cs = zip (places u1 u2) (zip (quad_list ch) (quad_list v))"
  shows "balance_at p (fold write_changed cs b) =
    (if user2_saving ch \<noteq> 0 \<and> p = place_of Savings u2 then user2_saving v
     else if user2_checking ch \<noteq> 0 \<and> p = place_of Checking u2 then user2_checking v
     else if user1_saving ch \<noteq> 0 \<and> p = place_of Savings u1 then user1_saving v
     else if user1_checking ch \<noteq> 0 \<and> p = place_of Checking u1 then user1_checking v
     else balance_at p b)"
    and "mutex_at p (fold write_changed cs b) = mutex_at p b"
    and "custom_id (accounts (fold write_changed cs b) p) = custom_id (accounts b p)"
    and "hash_table_global (fold write_changed cs b) = hash_table_global b"
  by (simp_all add: assms places_def quad_list_def write_changed_def balance_at_def set_balance_at_def mutex_at_def)

text \<open>C18: A transaction that is granted its locks and finishes with the same lock fields leaves every lock as it was
  before, whatever the mix of shared and exclusive locks, and also when both users are the same.  Of the balances it
  writes exactly those that its flags mark, with the values sent; where two marked fields name one account, the later
  field in the order checking and savings of the first user, checking and savings of the second, is the one that stays.
  Owners and hash table do not change, and each of the two counters grows by one.\<close>

theorem bank_lock_roundtrip:
  assumes "get_lock_handler data_size (common, req) s = Some ((c, resp), s\<^sub>1)" and "lock_success resp"
    and "finish_handler data_size' (common', fin) s\<^sub>1 = Some ((c', resp'), s\<^sub>2)"
    and "user1 fin = user1 req" and "user2 fin = user2 req" and "fin_unlock fin = lock_want req"
  shows "(\<forall>p. mutex_at p (tables s\<^sub>2) = mutex_at p (tables s)) \<and>
    (\<forall>p. balance_at p (tables s\<^sub>2) =
      (if user2_saving (fin_changed fin) \<noteq> 0 \<and> p = place_of Savings (user2 req) then user2_saving (fin_balance fin)
       else if user2_checking (fin_changed fin) \<noteq> 0 \<and> p = place_of Checking (user2 req) then user2_checking (fin_balance fin)
       else if user1_saving (fin_changed fin) \<noteq> 0 \<and> p = place_of Savings (user1 req) then user1_saving (fin_balance fin)
       else if user1_checking (fin_changed fin) \<noteq> 0 \<and> p = place_of Checking (user1 req) then user1_checking (fin_balance fin)
       else balance_at p (tables s))) \<and>
    (\<forall>p. custom_id (accounts (tables s\<^sub>2) p) = custom_id (accounts (tables s) p)) \<and>
    hash_table_global (tables s\<^sub>2) = hash_table_global (tables s) \<and> fin_success resp' \<and>
    server_ctx s\<^sub>2 = (server_ctx s)\<lparr>stat_req_get_lock_success_tot := stat_req_get_lock_success_tot (server_ctx s) + 1,
      stat_req_finish_tot := stat_req_finish_tot (server_ctx s) + 1\<rparr>"
proof -
  let ?cs = "zip (places (user1 req) (user2 req)) (zip (quad_list (fin_changed fin)) (quad_list (fin_balance fin)))"
  from assms(1,2) obtain taken where l: "lock_all (wanted req) (tables s) = (False, taken, tables s\<^sub>1)"
    and st: "server_ctx s\<^sub>1 = (server_ctx s)\<lparr>stat_req_get_lock_success_tot := stat_req_get_lock_success_tot (server_ctx s) + 1\<rparr>"
    by (cases rule: get_lock_cases) auto
  have "zip (map fst (wanted req)) taken = wanted req"
    using lock_all_taken [OF l] by (simp add: zip_map_fst_snd)
  hence undo: "fold unlock_one (wanted req) (tables s\<^sub>1) = tables s" using lock_all_rollback [OF l] by simp
  have "tables s\<^sub>2 = fold unlock_one (wanted req) (fold write_changed ?cs (tables s\<^sub>1))"
    using assms(3-6) by (auto simp: finish_handler_def Let_def wanted_def split: if_splits)
  hence t: "tables s\<^sub>2 = fold write_changed ?cs (tables s)" by (simp add: fold_write_unlock undo)
  have "server_ctx s\<^sub>2 = (server_ctx s\<^sub>1)\<lparr>stat_req_finish_tot := stat_req_finish_tot (server_ctx s\<^sub>1) + 1\<rparr>" "fin_success resp'"
    using assms(3) by (auto simp: finish_handler_def Let_def split: if_splits)
  with st show ?thesis unfolding t by (simp add: fold_write_changed [OF refl])
qed

text \<open>Two instances: a request refused at its second lock, and a transaction from its locks to its end.\<close>

definition sample_bank :: "int bank" where
  "sample_bank = \<lparr>accounts = (\<lambda>_. \<lparr>custom_id = 0, balance = 100, account_mutex = rw_free\<rparr>), hash_table_global = (\<lambda>_. 0)\<rparr>"

definition sample_server :: "int bank \<Rightarrow> int server" where
  "sample_server b = \<lparr>tables = b, server_ctx = \<lparr>stat_req_ping_tot = 0, stat_req_get_data_tot = 0,
     stat_req_get_lock_success_tot = 0, stat_req_get_lock_fail_tot = 0, stat_req_finish_tot = 0\<rparr>\<rparr>"

definition sample_lock_req :: GetLockReq_host where
  "sample_lock_req = \<lparr>user1 = 1, user2 = 2, lock_want =
     \<lparr>user1_checking = WRITE_LOCK, user1_saving = NO_LOCK, user2_checking = WRITE_LOCK, user2_saving = NO_LOCK\<rparr>\<rparr>"

definition sample_fin_req :: "int FinishReq_host" where
  "sample_fin_req = \<lparr>user1 = 1, user2 = 2,
     fin_balance = \<lparr>user1_checking = 90, user1_saving = 0, user2_checking = 110, user2_saving = 0\<rparr>,
     fin_changed = \<lparr>user1_checking = 1, user1_saving = 0, user2_checking = 1, user2_saving = 0\<rparr>,
     fin_unlock = lock_want sample_lock_req\<rparr>"

definition sample_common :: "RPC_TYPE \<Rightarrow> CommonReq" where
  "sample_common t = \<lparr>req_type = t, req_number = 7\<rparr>"

lemmas sample_defs = sample_bank_def sample_server_def sample_lock_req_def sample_fin_req_def sample_common_def
  sizeof_req_def place_of_def places_def quad_list_def NUM_SCALE_def NUM_ENTRY_def NUM_ACCOUNTS_HOST_def wanted_def

lemmas handler_evals = get_lock_handler_def finish_handler_def lock_switch_def try_lock_write_def try_lock_read_def
  mutex_at_def set_mutex_def unlock_one_def unlock_write_def unlock_read_def write_changed_def set_balance_at_def
  balance_at_def rw_free_def common_resp_def

definition sample_busy :: "int server" where
  "sample_busy = sample_server (set_mutex (place_of Checking 2) (rw_free\<lparr>writer_lock := True\<rparr>) sample_bank)"

definition sample_refused :: "(GetLockResp_host resp_msg \<times> int server) option" where
  "sample_refused = get_lock_handler 29 (sample_common RPC_GET_LOCK, sample_lock_req) sample_busy"

definition sample_granted :: "(GetLockResp_host resp_msg \<times> int server) option" where
  "sample_granted = get_lock_handler 29 (sample_common RPC_GET_LOCK, sample_lock_req) (sample_server sample_bank)"

lemma sample_answers:
  "sample_refused = Some ((common_resp (sample_common RPC_GET_LOCK), snd (fst (the sample_refused))), snd (the sample_refused))"
  "\<not> lock_success (snd (fst (the sample_refused)))"
  "sample_granted = Some ((common_resp (sample_common RPC_GET_LOCK), snd (fst (the sample_granted))), snd (the sample_granted))"
  "lock_success (snd (fst (the sample_granted)))"
  by (simp_all add: sample_refused_def sample_granted_def sample_busy_def sample_defs handler_evals)

theorem bank_get_lock_atomic_witness:
  "\<not> lock_success (snd (fst (the sample_refused))) \<and> tables (snd (the sample_refused)) = tables sample_busy"
  using bank_get_lock_atomic [OF sample_answers(1) [unfolded sample_refused_def]] sample_answers(2)
  by (simp add: sample_refused_def)

definition sample_finished :: "(FinishResp_host resp_msg \<times> int server) option" where
  "sample_finished = finish_handler 61 (sample_common RPC_FINISH, sample_fin_req) (snd (the sample_granted))"

lemma sample_finish_answer:
  "sample_finished = Some ((common_resp (sample_common RPC_FINISH), snd (fst (the sample_finished))), snd (the sample_finished))"
  by (simp add: sample_finished_def finish_handler_def sizeof_req_def Let_def)

theorem bank_lock_roundtrip_witness:
  "mutex_at (place_of Checking 1) (tables (snd (the sample_finished))) = rw_free \<and>
   balance_at (place_of Checking 1) (tables (snd (the sample_finished))) = 90 \<and>
   balance_at (place_of Checking 2) (tables (snd (the sample_finished))) = 110 \<and>
   balance_at (place_of Savings 1) (tables (snd (the sample_finished))) = 100"
proof -
  have f: "user1 sample_fin_req = user1 sample_lock_req" "user2 sample_fin_req = user2 sample_lock_req"
    "fin_unlock sample_fin_req = lock_want sample_lock_req" by (simp_all add: sample_fin_req_def sample_lock_req_def)
  note r = bank_lock_roundtrip [OF sample_answers(3) [unfolded sample_granted_def] sample_answers(4) [unfolded sample_granted_def]
      sample_finish_answer [unfolded sample_finished_def sample_granted_def] f, folded sample_granted_def, folded sample_finished_def]
  have u: "place_of Checking 1 \<noteq> place_of Checking 2" "place_of Checking 1 \<noteq> place_of Savings u" "place_of Checking 2 \<noteq> place_of Savings u"
    "place_of Savings 1 \<noteq> place_of Checking u" for u
    by (simp_all add: place_of_def NUM_SCALE_def NUM_ENTRY_def NUM_ACCOUNTS_HOST_def)
  have "mutex_at p (tables (sample_server sample_bank)) = rw_free" "balance_at p (tables (sample_server sample_bank)) = 100" for p
    by (simp_all add: sample_server_def sample_bank_def mutex_at_def balance_at_def)
  with r [THEN conjunct1, rule_format, of "place_of Checking 1"] r [THEN conjunct2, THEN conjunct1, rule_format, of "place_of Checking 1"]
    r [THEN conjunct2, THEN conjunct1, rule_format, of "place_of Checking 2"] r [THEN conjunct2, THEN conjunct1, rule_format, of "place_of Savings 1"] u
  show ?thesis by (simp add: sample_fin_req_def sample_lock_req_def)
qed

end
