(* ===== verification/Bank_Host_Client.thy ===== *)
theory Bank_Host_Client
  imports Bank_Server "HOL-Library.Monad_Syntax"
begin

text \<open>
  The transaction client on the host, \<open>test_suite/small_bank/client\<close>: transactions, the handlers that send
  requests and the callbacks that get the answers.  Random numbers are arguments of the steps that draw them,
  arithmetic on balances is the parameter \<open>ops\<close>, and of the fields a message leaves unwritten nothing is known
  (\<open>junk\<close>).  The queue of the client is a list, first in first out; a failed \<open>rt_assert\<close> is \<open>None\<close>.
\<close>

section \<open>The client\<close>

datatype TRANSMIT_TYPE = Amalgamate | Balance | DepositChecking | SendPayment | TransactSavings | WriteCheck

record 'd double_ops =
  d_zero :: 'd
  d_amount :: 'd
  d_add :: "'d \<Rightarrow> 'd \<Rightarrow> 'd"
  d_sub :: "'d \<Rightarrow> 'd \<Rightarrow> 'd"

record REQ_MSG =
  msg_id :: u32
  msg_type :: RPC_TYPE

record 'd Transition_host =
  tr_req_id :: u32
  tr_type :: TRANSMIT_TYPE
  tr_user1 :: u64
  tr_user2 :: u64
  tr_lock :: "LOCK_TYPE quad"
  tr_changed :: "u8 quad"
  tr_amount :: 'd
  tr_balance :: "'d quad"

definition no_lock :: "LOCK_TYPE quad" where
  "no_lock = \<lparr>user1_checking = NO_LOCK, user1_saving = NO_LOCK, user2_checking = NO_LOCK, user2_saving = NO_LOCK\<rparr>"

definition no_change :: "u8 quad" where
  "no_change = \<lparr>user1_checking = 0, user1_saving = 0, user2_checking = 0, user2_saving = 0\<rparr>"

text \<open>The second user: drawn again while it is the first one.\<close>

partial_function (option) draw_other :: "(nat \<Rightarrow> u64) \<Rightarrow> u64 \<Rightarrow> nat \<Rightarrow> u64 option" where
  "draw_other draws first k = (if draws k = first then draw_other draws first (k + 1) else Some (draws k))"

definition transition_users :: "TRANSMIT_TYPE \<Rightarrow> (nat \<Rightarrow> u64) \<Rightarrow> (u64 \<times> u64) option" where
  "transition_users t draws =
     (if t \<in> {Amalgamate, SendPayment} then do { u \<leftarrow> draw_other draws (draws 0) 1; Some (draws 0, u) }
      else Some (draws 0, draws 0))"

fun transition_locks :: "TRANSMIT_TYPE \<Rightarrow> LOCK_TYPE quad \<times> u8 quad" where
  "transition_locks Amalgamate =
     (no_lock\<lparr>user1_checking := WRITE_LOCK, user2_saving := WRITE_LOCK\<rparr>, no_change\<lparr>user1_checking := 1, user2_saving := 1\<rparr>)"
| "transition_locks Balance = (no_lock\<lparr>user1_checking := READ_LOCK, user1_saving := READ_LOCK\<rparr>, no_change)"
| "transition_locks DepositChecking = (no_lock\<lparr>user1_checking := WRITE_LOCK\<rparr>, no_change\<lparr>user1_checking := 1\<rparr>)"
| "transition_locks SendPayment =
     (no_lock\<lparr>user1_checking := WRITE_LOCK, user2_checking := WRITE_LOCK\<rparr>, no_change\<lparr>user1_checking := 1, user2_checking := 1\<rparr>)"
| "transition_locks TransactSavings = (no_lock\<lparr>user1_saving := WRITE_LOCK\<rparr>, no_change\<lparr>user1_saving := 1\<rparr>)"
| "transition_locks WriteCheck =
     (no_lock\<lparr>user1_checking := WRITE_LOCK, user1_saving := READ_LOCK\<rparr>, no_change\<lparr>user1_checking := 1\<rparr>)"

definition Transition_new ::
  "'d double_ops \<Rightarrow> 'd quad \<Rightarrow> TRANSMIT_TYPE \<Rightarrow> (nat \<Rightarrow> u64) \<Rightarrow> u32 \<Rightarrow> 'd Transition_host option" where
  "Transition_new ops junk t draws req_id = do {
     (u1, u2) \<leftarrow> transition_users t draws;
     Some \<lparr>tr_req_id = req_id, tr_type = t, tr_user1 = u1, tr_user2 = u2, tr_lock = fst (transition_locks t),
       tr_changed = snd (transition_locks t), tr_amount = d_amount ops, tr_balance = junk\<rparr> }"

record 'd client =
  transitions :: "nat \<Rightarrow> 'd Transition_host"
  queue_store :: "REQ_MSG list"
  next_req_id :: u32

definition slot :: "u32 \<Rightarrow> nat" where
  "slot req_id = unat req_id mod 2560"

definition push :: "u32 \<Rightarrow> RPC_TYPE \<Rightarrow> 'd client \<Rightarrow> 'd client" where
  "push req_id t c = c\<lparr>queue_store := queue_store c @ [\<lparr>msg_id = req_id, msg_type = t\<rparr>]\<rparr>"

definition handler_ping :: "REQ_MSG \<Rightarrow> PingRPC req_msg" where
  "handler_ping m = (\<lparr>req_type = RPC_PING, req_number = msg_id m\<rparr>, \<lparr>timestamp = 0\<rparr>)"

definition asked :: "LOCK_TYPE \<Rightarrow> u8" where
  "asked l = (if l = NO_LOCK then 0 else 1)"

definition handler_get_data ::
  "'d double_ops \<Rightarrow> 'd quad \<Rightarrow> TRANSMIT_TYPE \<Rightarrow> (nat \<Rightarrow> u64) \<Rightarrow> REQ_MSG \<Rightarrow> 'd client \<Rightarrow> (GetDataReq_host req_msg \<times> 'd client) option" where
  "handler_get_data ops junk t draws m c = do {
     tr \<leftarrow> Transition_new ops junk t draws (msg_id m);
     Some ((\<lparr>req_type = RPC_GET_DATA, req_number = msg_id m\<rparr>,
        \<lparr>user1 = tr_user1 tr, user2 = tr_user2 tr, get_data =
          \<lparr>user1_checking = asked (user1_checking (tr_lock tr)), user1_saving = asked (user1_saving (tr_lock tr)),
           user2_checking = asked (user2_checking (tr_lock tr)), user2_saving = asked (user2_saving (tr_lock tr))\<rparr>\<rparr>),
       c\<lparr>transitions := (transitions c)(slot (msg_id m) := tr)\<rparr>) }"

definition handler_get_lock :: "REQ_MSG \<Rightarrow> 'd client \<Rightarrow> GetLockReq_host req_msg" where
  "handler_get_lock m c =
     (let tr = transitions c (slot (msg_id m)) in (\<lparr>req_type = RPC_GET_LOCK, req_number = msg_id m\<rparr>,
        \<lparr>user1 = tr_user1 tr, user2 = tr_user2 tr, lock_want = tr_lock tr\<rparr>))"

fun new_balances :: "'d double_ops \<Rightarrow> 'd Transition_host \<Rightarrow> 'd quad \<Rightarrow> TRANSMIT_TYPE \<Rightarrow> 'd quad" where
  "new_balances ops tr q Amalgamate =
     q\<lparr>user2_saving := d_add ops (user1_checking (tr_balance tr)) (user2_saving (tr_balance tr)), user1_checking := d_zero ops\<rparr>"
| "new_balances ops tr q Balance = q"
| "new_balances ops tr q DepositChecking = q\<lparr>user1_checking := d_add ops (user1_checking (tr_balance tr)) (tr_amount tr)\<rparr>"
| "new_balances ops tr q SendPayment =
     q\<lparr>user1_checking := d_sub ops (user1_checking (tr_balance tr)) (tr_amount tr),
       user2_checking := d_add ops (user2_checking (tr_balance tr)) (tr_amount tr)\<rparr>"
| "new_balances ops tr q TransactSavings = q\<lparr>user1_saving := d_sub ops (user1_saving (tr_balance tr)) (tr_amount tr)\<rparr>"
| "new_balances ops tr q WriteCheck = q\<lparr>user1_checking := d_sub ops (user1_checking (tr_balance tr)) (tr_amount tr)\<rparr>"

definition handler_finish :: "'d double_ops \<Rightarrow> 'd quad \<Rightarrow> REQ_MSG \<Rightarrow> 'd client \<Rightarrow> 'd FinishReq_host req_msg" where
  "handler_finish ops junk m c =
     (let tr = transitions c (slot (msg_id m)) in (\<lparr>req_type = RPC_FINISH, req_number = msg_id m\<rparr>,
        \<lparr>user1 = tr_user1 tr, user2 = tr_user2 tr, fin_balance = new_balances ops tr junk (tr_type tr),
         fin_changed = tr_changed tr, fin_unlock = tr_lock tr\<rparr>))"

definition resp_ok :: "RPC_TYPE \<Rightarrow> u32 \<Rightarrow> CommonResp \<Rightarrow> bool" where
  "resp_ok t req_id c \<longleftrightarrow> resp_status c = 0 \<and> resp_number c = req_id \<and> resp_type c = t"

definition callback_ping :: "PingRPC resp_msg \<Rightarrow> 'd client \<Rightarrow> 'd client option" where
  "callback_ping = (\<lambda>(common, resp) c. if resp_status common = 0 then Some (push 0 RPC_PING c) else None)"

definition callback_get_data :: "u32 \<Rightarrow> 'd GetDataResp_host resp_msg \<Rightarrow> 'd client \<Rightarrow> 'd client option" where
  "callback_get_data req_id = (\<lambda>(common, resp) c.
     if resp_ok RPC_GET_DATA req_id common
     then let tr = transitions c (slot req_id) in
       Some (push req_id RPC_GET_LOCK
         (c\<lparr>transitions := (transitions c)(slot req_id := tr\<lparr>tr_balance := data_balance resp\<rparr>)\<rparr>))
     else None)"

definition next_request :: "nat \<Rightarrow> u32 \<Rightarrow> 'd client \<Rightarrow> 'd client" where
  "next_request concurrency req_id c = push (req_id + of_nat concurrency) RPC_GET_DATA (c\<lparr>next_req_id := next_req_id c + 1\<rparr>)"

definition callback_get_lock :: "nat \<Rightarrow> u32 \<Rightarrow> GetLockResp_host resp_msg \<Rightarrow> 'd client \<Rightarrow> 'd client option" where
  "callback_get_lock concurrency req_id = (\<lambda>(common, resp) c.
     if resp_ok RPC_GET_LOCK req_id common
     then Some (if lock_success resp then push req_id RPC_FINISH c else next_request concurrency req_id c)
     else None)"

definition callback_finish :: "nat \<Rightarrow> u32 \<Rightarrow> FinishResp_host resp_msg \<Rightarrow> 'd client \<Rightarrow> 'd client option" where
  "callback_finish concurrency req_id = (\<lambda>(common, resp) c.
     if resp_ok RPC_FINISH req_id common \<and> fin_success resp then Some (next_request concurrency req_id c) else None)"

text \<open>The first requests of a client, as the leader pushes them.\<close>

fun push_requests :: "nat \<Rightarrow> 'd client \<Rightarrow> 'd client" where
  "push_requests 0 c = c"
| "push_requests (Suc tmp) c = push_requests tmp (push (next_req_id c) RPC_GET_DATA (c\<lparr>next_req_id := next_req_id c + 1\<rparr>))"

end
