(* ===== verification/Bank_System.thy ===== *)
theory Bank_System
  imports Bank_Host_Client
begin

text \<open>
  The system of one client thread and the server of \<open>test_suite/small_bank\<close>.  The remote-procedure library carries
  requests and answers in any order; each is delivered once, to the handler or callback it was sent for.  The theory
  follows every transaction from the queue of the client through its requests and answers, and shows which locks
  are held at every moment.
\<close>

section \<open>The system\<close>

datatype 'd request =
  Ping_Req "PingRPC req_msg" | Get_Data_Req "GetDataReq_host req_msg" | Get_Lock_Req "GetLockReq_host req_msg"
  | Finish_Req "'d FinishReq_host req_msg"

datatype 'd response =
  Ping_Resp "PingRPC resp_msg" | Get_Data_Resp "'d GetDataResp_host resp_msg" | Get_Lock_Resp "GetLockResp_host resp_msg"
  | Finish_Resp "FinishResp_host resp_msg"

text \<open>The table of handlers in \<open>client_thread_func\<close>, and the one in \<open>leader_thread_func\<close> of the server.\<close>

definition handle_msg ::
  "'d double_ops \<Rightarrow> 'd quad \<Rightarrow> TRANSMIT_TYPE \<Rightarrow> (nat \<Rightarrow> u64) \<Rightarrow> REQ_MSG \<Rightarrow> 'd client \<Rightarrow> ('d request \<times> 'd client) option" where
  "handle_msg ops junk t draws m c = (case msg_type m of
     RPC_PING \<Rightarrow> Some (Ping_Req (handler_ping m), c)
   | RPC_GET_DATA \<Rightarrow> map_option (map_prod Get_Data_Req id) (handler_get_data ops junk t draws m c)
   | RPC_GET_LOCK \<Rightarrow> Some (Get_Lock_Req (handler_get_lock m c), c)
   | RPC_FINISH \<Rightarrow> Some (Finish_Req (handler_finish ops junk m c), c))"

fun serve :: "'d quad \<Rightarrow> 'd request \<Rightarrow> 'd server \<Rightarrow> ('d response \<times> 'd server) option" where
  "serve junk (Ping_Req r) s = map_option (map_prod Ping_Resp id) (ping_handler (sizeof_req RPC_PING) r s)"
| "serve junk (Get_Data_Req r) s = map_option (map_prod Get_Data_Resp id) (get_data_handler junk (sizeof_req RPC_GET_DATA) r s)"
| "serve junk (Get_Lock_Req r) s = map_option (map_prod Get_Lock_Resp id) (get_lock_handler (sizeof_req RPC_GET_LOCK) r s)"
| "serve junk (Finish_Req r) s = map_option (map_prod Finish_Resp id) (finish_handler (sizeof_req RPC_FINISH) r s)"

fun callback :: "nat \<Rightarrow> u32 \<Rightarrow> 'd response \<Rightarrow> 'd client \<Rightarrow> 'd client option" where
  "callback concurrency req_id (Ping_Resp r) c = callback_ping r c"
| "callback concurrency req_id (Get_Data_Resp r) c = callback_get_data req_id r c"
| "callback concurrency req_id (Get_Lock_Resp r) c = callback_get_lock concurrency req_id r c"
| "callback concurrency req_id (Finish_Resp r) c = callback_finish concurrency req_id r c"

record 'd world =
  client :: "'d client"
  server :: "'d server"
  requests :: "('d request \<times> u32) list"
  responses :: "('d response \<times> u32) list"

text \<open>A step of the system: the client takes the next message of its queue, or the server serves one of the requests
  on the way, or the client's callback gets one of the answers.\<close>

datatype 'd move = Handle "'d quad" TRANSMIT_TYPE "nat \<Rightarrow> u64" | Serve nat "'d quad" | Deliver nat

definition without :: "nat \<Rightarrow> 'a list \<Rightarrow> 'a list" where
  "without i xs = take i xs @ drop (Suc i) xs"

fun bank_move :: "'d double_ops \<Rightarrow> nat \<Rightarrow> 'd move \<Rightarrow> 'd world \<Rightarrow> 'd world option" where
  "bank_move ops concurrency (Handle junk t draws) w =
     (case queue_store (client w) of
        [] \<Rightarrow> None
      | m # q \<Rightarrow> do {
          (r, c) \<leftarrow> handle_msg ops junk t draws m ((client w)\<lparr>queue_store := q\<rparr>);
          Some (w\<lparr>client := c, requests := requests w @ [(r, msg_id m)]\<rparr>) })"
| "bank_move ops concurrency (Serve i junk) w =
     (if i < length (requests w) then do {
        (a, s) \<leftarrow> serve junk (fst (requests w ! i)) (server w);
        Some (w\<lparr>server := s, requests := without i (requests w), responses := responses w @ [(a, snd (requests w ! i))]\<rparr>) }
      else None)"
| "bank_move ops concurrency (Deliver i) w =
     (if i < length (responses w) then do {
        c \<leftarrow> callback concurrency (snd (responses w ! i)) (fst (responses w ! i)) (client w);
        Some (w\<lparr>client := c, responses := without i (responses w)\<rparr>) }
      else None)"

text \<open>The distribution of the random numbers: every draw is the number of an account.\<close>

definition fair :: "'d move \<Rightarrow> bool" where
  "fair mv = (case mv of Handle _ _ draws \<Rightarrow> \<forall>i. draws i < NUM_ACCOUNTS_HOST | _ \<Rightarrow> True)"

definition start_world :: "nat \<Rightarrow> 'd client \<Rightarrow> 'd server \<Rightarrow> 'd world" where
  "start_world concurrency c s = \<lparr>client = push_requests concurrency (c\<lparr>queue_store := [], next_req_id := 1\<rparr>),
     server = s, requests = [], responses = []\<rparr>"

inductive bank_reach :: "'d double_ops \<Rightarrow> nat \<Rightarrow> 'd client \<Rightarrow> 'd server \<Rightarrow> 'd world \<Rightarrow> bool"
  for ops concurrency c\<^sub>0 s\<^sub>0 where
  bank_start: "bank_reach ops concurrency c\<^sub>0 s\<^sub>0 (start_world concurrency c\<^sub>0 s\<^sub>0)"
| bank_moved: "bank_reach ops concurrency c\<^sub>0 s\<^sub>0 w \<Longrightarrow> fair mv \<Longrightarrow> bank_move ops concurrency mv w = Some w' \<Longrightarrow>
    bank_reach ops concurrency c\<^sub>0 s\<^sub>0 w'"

section \<open>What is on the way\<close>

text \<open>Every transaction is at one place: in the queue of the client, in a request or in an answer.\<close>

datatype 'd stage = Queued RPC_TYPE | Sent "'d request" | Answered "'d response"

definition items :: "'d world \<Rightarrow> (u32 \<times> 'd stage) multiset" where
  "items w = mset (map (\<lambda>m. (msg_id m, Queued (msg_type m))) (queue_store (client w))) +
     mset (map (\<lambda>(r, tag). (tag, Sent r)) (requests w)) + mset (map (\<lambda>(a, tag). (tag, Answered a)) (responses w))"

definition tr_of :: "'d world \<Rightarrow> u32 \<times> 'd stage \<Rightarrow> 'd Transition_host" where
  "tr_of w x = transitions (client w) (slot (fst x))"

definition tr_ok :: "'d Transition_host \<Rightarrow> bool" where
  "tr_ok tr \<longleftrightarrow> tr_user1 tr < NUM_ACCOUNTS_HOST \<and> tr_user2 tr < NUM_ACCOUNTS_HOST"

definition tr_locks :: "'d Transition_host \<Rightarrow> (place \<times> LOCK_TYPE) list" where
  "tr_locks tr = zip (places (tr_user1 tr) (tr_user2 tr)) (quad_list (tr_lock tr))"

definition same_users :: "'d Transition_host \<Rightarrow> 'm users_scheme \<Rightarrow> bool" where
  "same_users tr r \<longleftrightarrow> user1 r = tr_user1 tr \<and> user2 r = tr_user2 tr \<and> tr_ok tr"

definition req_is :: "RPC_TYPE \<Rightarrow> u32 \<Rightarrow> CommonReq \<Rightarrow> bool" where
  "req_is t tag c \<longleftrightarrow> req_type c = t \<and> req_number c = tag"

fun stage_ok :: "'d Transition_host \<Rightarrow> u32 \<Rightarrow> 'd stage \<Rightarrow> bool" where
  "stage_ok tr tag (Queued t) \<longleftrightarrow> t \<noteq> RPC_PING \<and> (t \<noteq> RPC_GET_DATA \<longrightarrow> tr_ok tr)"
| "stage_ok tr tag (Sent (Ping_Req r)) \<longleftrightarrow> False"
| "stage_ok tr tag (Sent (Get_Data_Req (c, r))) \<longleftrightarrow> req_is RPC_GET_DATA tag c \<and> same_users tr r"
| "stage_ok tr tag (Sent (Get_Lock_Req (c, r))) \<longleftrightarrow> req_is RPC_GET_LOCK tag c \<and> same_users tr r \<and> lock_want r = tr_lock tr"
| "stage_ok tr tag (Sent (Finish_Req (c, r))) \<longleftrightarrow> req_is RPC_FINISH tag c \<and> same_users tr r \<and> fin_unlock r = tr_lock tr"
| "stage_ok tr tag (Answered (Ping_Resp r)) \<longleftrightarrow> False"
| "stage_ok tr tag (Answered (Get_Data_Resp (c, r))) \<longleftrightarrow> resp_ok RPC_GET_DATA tag c \<and> tr_ok tr"
| "stage_ok tr tag (Answered (Get_Lock_Resp (c, r))) \<longleftrightarrow> resp_ok RPC_GET_LOCK tag c \<and> tr_ok tr"
| "stage_ok tr tag (Answered (Finish_Resp (c, r))) \<longleftrightarrow> resp_ok RPC_FINISH tag c \<and> fin_success r"

text \<open>A transaction holds its locks from the granted \<open>GET_LOCK\<close> until the server serves its \<open>FINISH\<close>.\<close>

fun holds_locks :: "'d stage \<Rightarrow> bool" where
  "holds_locks (Queued t) \<longleftrightarrow> t = RPC_FINISH"
| "holds_locks (Sent (Finish_Req r)) \<longleftrightarrow> True"
| "holds_locks (Answered (Get_Lock_Resp r)) \<longleftrightarrow> lock_success (snd r)"
| "holds_locks _ \<longleftrightarrow> False"

definition item_locks :: "'d world \<Rightarrow> u32 \<times> 'd stage \<Rightarrow> (place \<times> LOCK_TYPE) multiset" where
  "item_locks w x = (if holds_locks (snd x) then mset (tr_locks (tr_of w x)) else {#})"

definition held_locks :: "'d world \<Rightarrow> (place \<times> LOCK_TYPE) multiset" where
  "held_locks w = \<Sum>\<^sub># (image_mset (item_locks w) (items w))"

text \<open>A transaction and its successors keep their request number modulo the number of transactions.\<close>

definition lane :: "nat \<Rightarrow> u32 \<Rightarrow> nat" where
  "lane concurrency tag = unat tag mod concurrency"

definition bank_inv :: "nat \<Rightarrow> 'd world \<Rightarrow> bool" where
  "bank_inv concurrency w \<longleftrightarrow>
     image_mset (lane concurrency \<circ> fst) (items w) = mset [0..<concurrency] \<and>
     (\<forall>x \<in># items w. stage_ok (tr_of w x) (fst x) (snd x)) \<and> locks_exact (tables (server w)) (held_locks w)"

lemma slot_lane:
  assumes "concurrency dvd 512" and "slot i = slot j"
  shows "lane concurrency i = lane concurrency j"
proof -
  have "concurrency dvd 2560" by (rule dvd_trans [OF assms(1)]) simp
  hence "unat i mod concurrency = slot i mod concurrency" for i
    by (simp only: slot_def mod_mod_cancel)
  thus ?thesis using assms(2) by (simp only: lane_def)
qed

lemma lane_next:
  assumes "concurrency dvd 512"
  shows "lane concurrency (tag + of_nat concurrency) = lane concurrency tag"
proof -
  have "concurrency \<le> 512" by (rule dvd_imp_le [OF assms]) simp
  hence "unat (of_nat concurrency :: u32) = concurrency" by (simp add: unat_of_nat)
  hence "unat (tag + of_nat concurrency) = (unat tag + concurrency) mod 2 ^ 32"
    by (simp add: unat_word_ariths)
  moreover have "concurrency dvd 2 ^ 32" by (rule dvd_trans [OF assms]) simp
  ultimately show ?thesis by (simp only: lane_def mod_mod_cancel mod_add_self2)
qed

lemma bank_inv_alone:
  assumes "bank_inv concurrency w" and "concurrency dvd 512" and "items w = add_mset x R" and "y \<in># R"
  shows "slot (fst y) \<noteq> slot (fst x)"
proof
  assume "slot (fst y) = slot (fst x)"
  hence "lane concurrency (fst y) = lane concurrency (fst x)" by (rule slot_lane [OF assms(2)])
  hence "2 \<le> count (image_mset (lane concurrency \<circ> fst) (items w)) (lane concurrency (fst x))"
    using assms(3,4) by (auto dest!: multi_member_split)
  moreover have "count (mset [0..<concurrency]) k \<le> 1" for k
    using distinct_count_atmost_1 [of "[0..<concurrency]"] by simp
  ultimately show False using assms(1) unfolding bank_inv_def by (metis Suc_1 not_less_eq_eq)
qed

text \<open>A step moves one transaction on: only its slot changes, and the locks are those of its new stage.\<close>

lemma bank_inv_move:
  assumes inv: "bank_inv concurrency w" and conc: "concurrency dvd 512"
    and x: "items w = add_mset x R" and y: "items w' = add_mset y R" and lane: "lane concurrency (fst y) = lane concurrency (fst x)"
    and slots: "\<And>k. k \<noteq> slot (fst x) \<Longrightarrow> transitions (client w') k = transitions (client w) k"
    and ok: "stage_ok (tr_of w' y) (fst y) (snd y)"
    and locks: "\<And>held. locks_exact (tables (server w)) (item_locks w x + held) \<Longrightarrow>
      locks_exact (tables (server w')) (item_locks w' y + held)"
  shows "bank_inv concurrency w'"
proof -
  have same: "tr_of w' z = tr_of w z" if "z \<in># R" for z
    using slots bank_inv_alone [OF inv conc x that] by (simp add: tr_of_def)
  have "image_mset (item_locks w') R = image_mset (item_locks w) R"
    by (rule image_mset_cong) (simp add: item_locks_def same)
  hence "held_locks w' = item_locks w' y + \<Sum>\<^sub># (image_mset (item_locks w) R)"
    and "held_locks w = item_locks w x + \<Sum>\<^sub># (image_mset (item_locks w) R)"
    by (simp_all add: held_locks_def x y)
  thus ?thesis using inv locks lane ok same unfolding bank_inv_def x y by auto
qed

section \<open>The steps\<close>

definition stage_locks :: "'d Transition_host \<Rightarrow> 'd stage \<Rightarrow> (place \<times> LOCK_TYPE) multiset" where
  "stage_locks tr st = (if holds_locks st then mset (tr_locks tr) else {#})"

lemma item_locks_stage: "item_locks w x = stage_locks (tr_of w x) (snd x)"
  by (simp add: item_locks_def stage_locks_def)

lemma draw_other_drawn:
  assumes "draw_other draws first k = Some v"
  shows "\<exists>j. v = draws j"
  by (rule draw_other.raw_induct [where P = "\<lambda>draws first k v. \<exists>j. v = draws j", OF _ assms])
    (auto split: if_splits)

lemma Transition_new_ok:
  assumes "\<forall>i. draws i < NUM_ACCOUNTS_HOST" and "Transition_new ops junk t draws req_id = Some tr"
  shows "tr_ok tr"
  using assms draw_other_drawn [of draws "draws 0" 1]
  by (auto simp: Transition_new_def transition_users_def tr_ok_def split: if_splits bind_splits)

lemma handle_msg_stage:
  assumes "handle_msg ops junk t draws m c = Some (r, c')" and "\<forall>i. draws i < NUM_ACCOUNTS_HOST"
    and "stage_ok (transitions c (slot (msg_id m))) (msg_id m) (Queued (msg_type m))"
  shows "queue_store c' = queue_store c" and "k \<noteq> slot (msg_id m) \<Longrightarrow> transitions c' k = transitions c k"
    and "stage_ok (transitions c' (slot (msg_id m))) (msg_id m) (Sent r)"
    and "stage_locks (transitions c' (slot (msg_id m))) (Sent r) =
      stage_locks (transitions c (slot (msg_id m))) (Queued (msg_type m))"
  using assms
  by (cases "msg_type m"; auto simp: handle_msg_def handler_get_data_def handler_get_lock_def handler_finish_def
      req_is_def same_users_def stage_locks_def Let_def split: bind_splits dest: Transition_new_ok)+

lemma write_changed_locks: "locks_exact (fold write_changed cs b) held = locks_exact b held"
proof -
  have "mutex_at p (fold write_changed cs b) = mutex_at p b" for p and b :: "'a bank"
    by (induction cs arbitrary: b) (auto simp: write_changed_def)
  thus ?thesis by (simp add: locks_exact_def)
qed

lemma serve_get_lock:
  assumes "get_lock_handler n (c, r) s = Some ((c', a), s')" and "same_users tr r" and "lock_want r = tr_lock tr"
    and "locks_exact (tables s) held"
  shows "locks_exact (tables s') (stage_locks tr (Answered (Get_Lock_Resp (c', a))) + held)"
proof -
  have w: "wanted r = tr_locks tr" using assms(2,3) by (simp add: wanted_def tr_locks_def same_users_def)
  from assms(1) show ?thesis
  proof (cases rule: get_lock_cases)
    case (granted taken)
    thus ?thesis using locks_exact_lock_all [OF assms(4) granted(1)] by (simp add: stage_locks_def w add.commute)
  next
    case (refused taken b)
    thus ?thesis using lock_all_rollback [OF refused(1)] assms(4) by (simp add: stage_locks_def wanted_simps)
  qed
qed

lemma serve_stage:
  assumes "stage_ok tr tag (Sent r)" and "serve junk r s = Some (a, s')"
  shows "stage_ok tr tag (Answered a)"
    and "locks_exact (tables s) (stage_locks tr (Sent r) + held) \<Longrightarrow>
      locks_exact (tables s') (stage_locks tr (Answered a) + held)"
proof -
  show "stage_ok tr tag (Answered a)"
    using assms
    by (cases r; auto simp: ping_handler_def get_data_handler_def get_lock_handler_def finish_handler_def Let_def
        common_resp_def resp_ok_def req_is_def same_users_def split: if_splits prod.splits)
  show "locks_exact (tables s') (stage_locks tr (Answered a) + held)"
    if l: "locks_exact (tables s) (stage_locks tr (Sent r) + held)"
  proof (cases r)
    case (Get_Lock_Req q)
    thus ?thesis
      using assms l by (cases q) (auto simp: stage_locks_def dest!: serve_get_lock [where tr = tr and held = held])
  next
    case (Finish_Req q)
    thus ?thesis
      using assms l
      by (cases q) (auto simp: finish_handler_def Let_def stage_locks_def tr_locks_def same_users_def write_changed_locks
          intro!: locks_exact_unlock)
  qed (use assms l in \<open>auto simp: ping_handler_def get_data_handler_def Let_def stage_locks_def split: if_splits\<close>)
qed

lemma callback_stage:
  assumes "stage_ok (transitions c (slot tag)) tag (Answered a)" and "callback concurrency tag a c = Some c'"
    and "concurrency dvd 512"
  obtains tag' t where "queue_store c' = queue_store c @ [\<lparr>msg_id = tag', msg_type = t\<rparr>]"
    and "lane concurrency tag' = lane concurrency tag"
    and "\<And>k. k \<noteq> slot tag \<Longrightarrow> transitions c' k = transitions c k"
    and "stage_ok (transitions c' (slot tag')) tag' (Queued t)"
    and "stage_locks (transitions c' (slot tag')) (Queued t) = stage_locks (transitions c (slot tag)) (Answered a)"
proof (cases a)
  case (Ping_Resp r)
  thus thesis using assms by simp
next
  case (Get_Data_Resp r)
  thus thesis
    using assms that [of tag RPC_GET_LOCK]
    by (cases r) (auto simp: callback_get_data_def push_def Let_def stage_locks_def lane_def tr_ok_def split: if_splits)
next
  case (Get_Lock_Resp r)
  show thesis
  proof (cases "lock_success (snd r)")
    case True
    thus thesis
      using Get_Lock_Resp assms that [of tag RPC_FINISH]
      by (cases r) (auto simp: callback_get_lock_def push_def stage_locks_def lane_def split: if_splits)
  next
    case False
    thus thesis
      using Get_Lock_Resp assms that [of "tag + of_nat concurrency" RPC_GET_DATA] lane_next [OF assms(3)]
      by (cases r) (auto simp: callback_get_lock_def next_request_def push_def stage_locks_def split: if_splits)
  qed
next
  case (Finish_Resp r)
  thus thesis
    using assms that [of "tag + of_nat concurrency" RPC_GET_DATA] lane_next [OF assms(3)]
    by (cases r) (auto simp: callback_finish_def next_request_def push_def stage_locks_def split: if_splits)
qed

lemma mset_without: "i < length xs \<Longrightarrow> add_mset (xs ! i) (mset (without i xs)) = mset xs"
  using arg_cong [OF id_take_nth_drop [of i xs], of mset] by (simp add: without_def)

lemma mset_map_without:
  "i < length xs \<Longrightarrow> add_mset (f (xs ! i)) (mset (map f (without i xs))) = mset (map f xs)"
  using arg_cong [OF mset_without [of i xs], of "image_mset f"] by simp

lemma bank_inv_handle:
  assumes inv: "bank_inv concurrency w" and conc: "concurrency dvd 512" and "\<forall>i. draws i < NUM_ACCOUNTS_HOST"
    and mv: "bank_move ops concurrency (Handle junk t draws) w = Some w'"
  shows "bank_inv concurrency w'"
proof -
  from mv obtain m q r c where q: "queue_store (client w) = m # q"
    and h: "handle_msg ops junk t draws m ((client w)\<lparr>queue_store := q\<rparr>) = Some (r, c)"
    and w': "w' = w\<lparr>client := c, requests := requests w @ [(r, msg_id m)]\<rparr>"
    by (auto split: list.splits bind_splits)
  let ?R = "items (w\<lparr>client := (client w)\<lparr>queue_store := q\<rparr>\<rparr>)"
  have x: "items w = add_mset (msg_id m, Queued (msg_type m)) ?R" by (simp add: items_def q)
  hence "stage_ok (tr_of w (msg_id m, Queued (msg_type m))) (msg_id m) (Queued (msg_type m))"
    using inv by (simp add: bank_inv_def)
  note st = handle_msg_stage [OF h assms(3)] this
  have "items w' = add_mset (msg_id m, Sent r) ?R" using st(1) st(5) by (simp add: items_def w' tr_of_def)
  from bank_inv_move [OF inv conc x this] st show ?thesis
    by (simp add: lane_def w' tr_of_def item_locks_stage)
qed

lemma bank_inv_serve:
  assumes inv: "bank_inv concurrency w" and conc: "concurrency dvd 512"
    and mv: "bank_move ops concurrency (Serve i junk) w = Some w'"
  shows "bank_inv concurrency w'"
proof -
  from mv obtain r tag a s where i: "i < length (requests w)" "requests w ! i = (r, tag)"
    and h: "serve junk r (server w) = Some (a, s)"
    and w': "w' = w\<lparr>server := s, requests := without i (requests w), responses := responses w @ [(a, tag)]\<rparr>"
    by (auto split: bind_splits if_splits) (metis prod.collapse)
  let ?R = "items (w\<lparr>requests := without i (requests w)\<rparr>)"
  have x: "items w = add_mset (tag, Sent r) ?R"
    using mset_map_without [OF i(1), of "\<lambda>(r, tag). (tag, Sent r)"] i(2) by (simp add: items_def flip: add_mset_add_single)
  hence ok: "stage_ok (tr_of w (tag, Sent r)) tag (Sent r)" using inv by (simp add: bank_inv_def)
  have "items w' = add_mset (tag, Answered a) ?R" by (simp add: items_def w')
  from bank_inv_move [OF inv conc x this] serve_stage [OF ok h] show ?thesis
    by (simp add: lane_def w' tr_of_def item_locks_stage)
qed

lemma bank_inv_deliver:
  assumes inv: "bank_inv concurrency w" and conc: "concurrency dvd 512"
    and mv: "bank_move ops concurrency (Deliver i) w = Some w'"
  shows "bank_inv concurrency w'"
proof -
  from mv obtain a tag c where i: "i < length (responses w)" "responses w ! i = (a, tag)"
    and h: "callback concurrency tag a (client w) = Some c"
    and w': "w' = w\<lparr>client := c, responses := without i (responses w)\<rparr>"
    by (auto split: bind_splits if_splits) (metis prod.collapse)
  let ?R = "items (w\<lparr>responses := without i (responses w)\<rparr>)"
  have x: "items w = add_mset (tag, Answered a) ?R"
    using mset_map_without [OF i(1), of "\<lambda>(a, tag). (tag, Answered a)"] i(2) by (simp add: items_def flip: add_mset_add_single)
  hence ok: "stage_ok (transitions (client w) (slot tag)) tag (Answered a)" using inv by (simp add: bank_inv_def tr_of_def)
  from callback_stage [OF ok h conc] obtain tag' t where c: "queue_store c = queue_store (client w) @ [\<lparr>msg_id = tag', msg_type = t\<rparr>]"
    and st: "lane concurrency tag' = lane concurrency tag"
      "\<And>k. k \<noteq> slot tag \<Longrightarrow> transitions c k = transitions (client w) k"
      "stage_ok (transitions c (slot tag')) tag' (Queued t)"
      "stage_locks (transitions c (slot tag')) (Queued t) = stage_locks (transitions (client w) (slot tag)) (Answered a)"
    by metis
  have "items w' = add_mset (tag', Queued t) ?R" by (simp add: items_def w' c)
  from bank_inv_move [OF inv conc x this] st show ?thesis
    by (simp add: w' tr_of_def item_locks_stage)
qed

section \<open>The start\<close>

lemma push_requests_queue:
  "queue_store (push_requests n c) =
     queue_store c @ map (\<lambda>i. \<lparr>msg_id = next_req_id c + of_nat i, msg_type = RPC_GET_DATA\<rparr>) [0..<n]"
proof (induction n arbitrary: c)
  case 0
  show ?case by simp
next
  case (Suc n)
  have "map (\<lambda>i. \<lparr>msg_id = next_req_id c + of_nat i, msg_type = RPC_GET_DATA\<rparr>) [0..<Suc n] =
    \<lparr>msg_id = next_req_id c, msg_type = RPC_GET_DATA\<rparr> #
    map (\<lambda>i. \<lparr>msg_id = next_req_id c + 1 + of_nat i, msg_type = RPC_GET_DATA\<rparr>) [0..<n]"
    unfolding upt_conv_Cons [OF zero_less_Suc] map_Suc_upt [symmetric] by (simp add: algebra_simps)
  thus ?case using Suc.IH by (simp add: push_def del: upt_Suc)
qed

lemma lanes_rotate: "map (\<lambda>i. Suc i mod n) [0..<n] = rotate1 [0..<n]"
  by (rule nth_equalityI) (simp_all add: nth_rotate1)

lemma mset_rotate: "mset (rotate1 xs) = mset xs"
  by (cases xs) simp_all

lemma bank_inv_start:
  assumes "concurrency dvd 512" and "locks_exact (tables s) {#}"
  shows "bank_inv concurrency (start_world concurrency c s)"
proof -
  have small: "concurrency \<le> 512" by (rule dvd_imp_le [OF assms(1)]) simp
  have it: "items (start_world concurrency c s) =
    mset (map (\<lambda>i. (1 + of_nat i, Queued RPC_GET_DATA)) [0..<concurrency])"
    by (simp add: items_def start_world_def push_requests_queue comp_def)
  have "unat (1 + of_nat i :: u32) = Suc i" if "i < concurrency" for i
  proof -
    have "unat (of_nat (Suc i) :: u32) = Suc i" using that small by (simp add: unat_of_nat del: of_nat_Suc)
    thus ?thesis by simp
  qed
  hence lanes: "map (\<lambda>i. lane concurrency (1 + of_nat i)) [0..<concurrency] = map (\<lambda>i. Suc i mod concurrency) [0..<concurrency]"
    by (intro map_cong refl) (simp add: lane_def)
  have "image_mset (lane concurrency \<circ> fst) (items (start_world concurrency c s)) =
    mset (map (\<lambda>i. lane concurrency (1 + of_nat i)) [0..<concurrency])"
    unfolding it by (simp add: comp_def flip: mset_map)
  also have "\<dots> = mset (rotate1 [0..<concurrency])" by (simp only: lanes lanes_rotate)
  finally have "image_mset (lane concurrency \<circ> fst) (items (start_world concurrency c s)) = mset [0..<concurrency]"
    by (simp only: mset_rotate)
  moreover have "held_locks (start_world concurrency c s) = {#}"
    by (simp add: held_locks_def it item_locks_def image_mset.compositionality comp_def flip: mset_map)
  moreover have "\<forall>x \<in># items (start_world concurrency c s). stage_ok (tr_of (start_world concurrency c s) x) (fst x) (snd x)"
    by (auto simp: it)
  moreover have "server (start_world concurrency c s) = s" by (simp add: start_world_def)
  ultimately show ?thesis using assms(2) by (simp only: bank_inv_def)
qed

lemma bank_inv_reach:
  assumes "bank_reach ops concurrency c\<^sub>0 s\<^sub>0 w" and "concurrency dvd 512" and "locks_exact (tables s\<^sub>0) {#}"
  shows "bank_inv concurrency w"
  using assms(1)
proof (induction rule: bank_reach.induct)
  case bank_start
  show ?case using assms(2,3) by (rule bank_inv_start)
next
  case (bank_moved w mv w')
  show ?case
  proof (cases mv)
    case (Handle junk t draws)
    thus ?thesis using bank_moved assms(2) bank_inv_handle by (simp add: fair_def)
  next
    case (Serve i junk)
    thus ?thesis using bank_moved assms(2) bank_inv_serve by blast
  next
    case (Deliver i)
    thus ?thesis using bank_moved assms(2) bank_inv_deliver by blast
  qed
qed

lemma stage_serves: "stage_ok tr tag (Sent r) \<Longrightarrow> serve junk r s \<noteq> None"
  by (cases r) (auto simp: get_data_handler_def get_lock_handler_def finish_handler_def Let_def split: prod.splits)

lemma stage_calls: "stage_ok (transitions c (slot tag)) tag (Answered a) \<Longrightarrow> callback n tag a c \<noteq> None"
  by (cases a) (auto simp: callback_get_data_def callback_get_lock_def callback_finish_def Let_def)

text \<open>The accounts that a request names exist.\<close>

fun in_tables :: "'d request \<Rightarrow> bool" where
  "in_tables (Ping_Req r) \<longleftrightarrow> True"
| "in_tables (Get_Data_Req r) \<longleftrightarrow> user1 (snd r) < NUM_ACCOUNTS_HOST \<and> user2 (snd r) < NUM_ACCOUNTS_HOST"
| "in_tables (Get_Lock_Req r) \<longleftrightarrow> user1 (snd r) < NUM_ACCOUNTS_HOST \<and> user2 (snd r) < NUM_ACCOUNTS_HOST"
| "in_tables (Finish_Req r) \<longleftrightarrow> user1 (snd r) < NUM_ACCOUNTS_HOST \<and> user2 (snd r) < NUM_ACCOUNTS_HOST"

lemma stage_in_tables: "stage_ok tr tag (Sent r) \<Longrightarrow> in_tables r"
  by (cases r) (auto simp: same_users_def tr_ok_def)

lemma items_on_the_way:
  "(r, tag) \<in> set (requests w) \<Longrightarrow> (tag, Sent r) \<in># items w"
  "(a, tag) \<in> set (responses w) \<Longrightarrow> (tag, Answered a) \<in># items w"
  by (force simp: items_def)+

section \<open>Properties\<close>

text \<open>C2: With a concurrency that divides 512, whatever the order in which messages are handled, the locks in the
  tables of the server are at every moment exactly those of the transactions between their granted \<open>GET_LOCK\<close> and
  their \<open>FINISH\<close>; no two transactions share a slot of the client; every request names existing accounts; and no
  assertion of a handler or a callback fails.\<close>

theorem bank_system_locks:
  assumes "bank_reach ops concurrency c\<^sub>0 s\<^sub>0 w" and "concurrency dvd 512" and "locks_exact (tables s\<^sub>0) {#}"
  shows "locks_exact (tables (server w)) (held_locks w) \<and>
    (\<forall>x y R. items w = add_mset x (add_mset y R) \<longrightarrow> slot (fst x) \<noteq> slot (fst y)) \<and>
    (\<forall>(r, tag) \<in> set (requests w). in_tables r \<and> (\<forall>junk. serve junk r (server w) \<noteq> None)) \<and>
    (\<forall>(a, tag) \<in> set (responses w). callback concurrency tag a (client w) \<noteq> None)"
proof -
  have inv: "bank_inv concurrency w" by (rule bank_inv_reach [OF assms])
  hence ok: "stage_ok (tr_of w x) (fst x) (snd x)" if "x \<in># items w" for x
    using that by (simp add: bank_inv_def)
  have "in_tables r \<and> (\<forall>junk. serve junk r (server w) \<noteq> None)" if "(r, tag) \<in> set (requests w)" for r tag
    using ok [OF items_on_the_way(1) [OF that]] stage_in_tables stage_serves by fastforce
  moreover have "callback concurrency tag a (client w) \<noteq> None" if "(a, tag) \<in> set (responses w)" for a tag
    using ok [OF items_on_the_way(2) [OF that]] by (intro stage_calls) (simp add: tr_of_def)
  moreover have "slot (fst x) \<noteq> slot (fst y)" if "items w = add_mset x (add_mset y R)" for x y R
    using bank_inv_alone [OF inv assms(2) that, of y] by simp
  moreover have "locks_exact (tables (server w)) (held_locks w)" using inv by (simp add: bank_inv_def)
  ultimately show ?thesis by blast
qed

text \<open>A run, for concrete instances.\<close>

fun bank_run :: "'d double_ops \<Rightarrow> nat \<Rightarrow> 'd move list \<Rightarrow> 'd world \<Rightarrow> 'd world option" where
  "bank_run ops concurrency [] w = Some w"
| "bank_run ops concurrency (mv # mvs) w = do { w \<leftarrow> bank_move ops concurrency mv w; bank_run ops concurrency mvs w }"

lemma bank_run_reach:
  "bank_reach ops concurrency c\<^sub>0 s\<^sub>0 w \<Longrightarrow> list_all fair mvs \<Longrightarrow> bank_run ops concurrency mvs w = Some w' \<Longrightarrow>
    bank_reach ops concurrency c\<^sub>0 s\<^sub>0 w'"
  by (induction mvs arbitrary: w) (auto split: bind_splits intro: bank_moved)

definition sample_ops :: "int double_ops" where
  "sample_ops = \<lparr>d_zero = 0, d_amount = 1, d_add = (+), d_sub = (-)\<rparr>"

definition sample_quad :: "int quad" where
  "sample_quad = \<lparr>user1_checking = 0, user1_saving = 0, user2_checking = 0, user2_saving = 0\<rparr>"

definition sample_client :: "int client" where
  "sample_client = \<lparr>transitions = (\<lambda>_. \<lparr>tr_req_id = 0, tr_type = Balance, tr_user1 = 0, tr_user2 = 0, tr_lock = no_lock,
     tr_changed = no_change, tr_amount = 0, tr_balance = sample_quad\<rparr>), queue_store = [], next_req_id = 0\<rparr>"

abbreviation deposit :: "int move" where
  "deposit \<equiv> Handle sample_quad DepositChecking (\<lambda>_. 5)"

abbreviation serve_nth :: "nat \<Rightarrow> int move" where
  "serve_nth i \<equiv> Serve i sample_quad"

text \<open>Two deposits of 1 on account 5: both read the balance, then each in turn locks, writes and unlocks.\<close>

definition two_deposits :: "int move list" where
  "two_deposits = [deposit, deposit, serve_nth 0, serve_nth 0, Deliver 0, Deliver 0,
     deposit, serve_nth 0, Deliver 0, deposit, deposit, serve_nth 1, serve_nth 0, Deliver 0, Deliver 0,
     deposit, deposit, serve_nth 1]"

definition two_deposits_end :: "int world option" where
  "two_deposits_end = bank_run sample_ops 2 two_deposits (start_world 2 sample_client (sample_server sample_bank))"

lemma two_deposits_values:
  "map_option (\<lambda>w. (balance_at (place_of Checking 5) (tables (server w)), stat_req_finish_tot (server_ctx (server w)),
      stat_req_get_lock_fail_tot (server_ctx (server w)))) two_deposits_end = Some (101, 2, 0)"
  by code_simp

lemma sample_unlocked: "locks_exact (tables (sample_server sample_bank)) {#}"
  by (simp add: locks_exact_def sample_server_def sample_bank_def mutex_at_def rw_free_def)

lemma two_deposits_reach:
  assumes "two_deposits_end = Some w"
  shows "bank_reach sample_ops 2 sample_client (sample_server sample_bank) w"
  by (rule bank_run_reach [OF bank_start _ assms [unfolded two_deposits_end_def]])
    (simp add: two_deposits_def fair_def NUM_ACCOUNTS_HOST_def)

text \<open>C39: The client reads the balances before it asks for the locks, so an update can be lost: there is a run of two
  deposits of 1 to the same account in which the server grants all locks, serves both \<open>FINISH\<close> requests, and the
  balance goes from 100 to 101.\<close>

theorem bank_lost_update:
  "balance_at (place_of Checking 5) (tables (sample_server sample_bank)) = 100 \<and>
   (\<exists>w. bank_reach sample_ops 2 sample_client (sample_server sample_bank) w \<and>
     stat_req_finish_tot (server_ctx (server w)) = 2 \<and> stat_req_get_lock_fail_tot (server_ctx (server w)) = 0 \<and>
     balance_at (place_of Checking 5) (tables (server w)) = 101)"
proof
  show "balance_at (place_of Checking 5) (tables (sample_server sample_bank)) = 100"
    by (simp add: sample_server_def sample_bank_def balance_at_def)
  obtain w where "two_deposits_end = Some w" using two_deposits_values by (cases two_deposits_end) auto
  thus "\<exists>w. bank_reach sample_ops 2 sample_client (sample_server sample_bank) w \<and>
     stat_req_finish_tot (server_ctx (server w)) = 2 \<and> stat_req_get_lock_fail_tot (server_ctx (server w)) = 0 \<and>
     balance_at (place_of Checking 5) (tables (server w)) = 101"
    using two_deposits_reach two_deposits_values by auto
qed

theorem bank_system_locks_witness:
  "locks_exact (tables (server (the two_deposits_end))) (held_locks (the two_deposits_end)) \<and> (2 :: nat) dvd 512"
proof -
  obtain w where w: "two_deposits_end = Some w" using two_deposits_values by (cases two_deposits_end) auto
  have "locks_exact (tables (server w)) (held_locks w)"
    using bank_system_locks [OF two_deposits_reach [OF w] _ sample_unlocked] by simp
  thus ?thesis unfolding w by simp
qed

end
