(* ===== verification/Flexio_Host.thy ===== *)
theory Flexio_Host
  imports Wrapper_Device "HOL-Library.Monad_Syntax"
begin

text \<open>
  The host side of the FlexIO wrapper, \<open>wrapper_flexio/wrapper_flexio.cpp\<close>: the context, the command queue, the
  constructors of completion, send and receive queues, and the steering rules.

  The verbs, FlexIO and steering libraries are the parameter \<open>lib\<close>: what a call answers may depend on all earlier
  calls; \<open>None\<close> is a status other than success or a null pointer.  Objects of the libraries are their numbers.
  \<open>rd\<close> holds the layout functions of the verbs library: the owner bit of a completion entry, a data segment, and
  a field, given by its first bit and its width, of a match specification.  A failed \<open>Assert\<close> and \<open>exit\<close> are \<open>None\<close>.
  Device memory is written by the two copying calls, which get the bytes they copy.  Streams for printing are left out.
\<close>

section \<open>Libraries\<close>

datatype access = LOCAL_WRITE | REMOTE_WRITE | REMOTE_READ | REMOTE_ATOMIC

datatype (plugins only: code) host_call =
    Ibv_open_device string
  | Ibv_close_device u64
  | Ibv_alloc_pd u64
  | Process_create u64 u64
  | Process_get_uar u64
  | Uar_get_id u64
  | Process_call u64 ptr
  | Window_create u64 u64
  | Window_get_id u64
  | Ibv_reg_mr u64 ptr u64 "access list"
  | Mr_lkey u64
  | Device_mkey_create u64 u64 ptr u64 "access list"
  | Mkey_get_id u64
  | Event_handler_create u64 u64 u32
  | Event_handler_get_thread u64
  | Event_handler_run u64 u64
  | Copy_from_host "u8 list"
  | Host2dev_memcpy "u8 list" ptr
  | Buf_dev_alloc u64
  | Get_huge_mem u32 u64
  | Memset_zero ptr u64
  | Calloc u64 u64
  | Cq_create "u64 option" u32 nat u32 ptr ptr
  | Cq_get_cq_num u64
  | Sq_create u32 nat u32 u64 ptr
  | Sq_get_wq_num u64
  | Rq_create u32 nat u64 ptr ptr
  | Rq_get_wq_num u64
  | Rq_get_tir u64
  | Cmdq_create u64 nat nat
  | Cmdq_task_add u64 u64 u64
  | Cmdq_state_running u64
  | Cmdq_is_empty u64
  | Dr_domain_create u64 u64
  | Dr_table_create u64 nat
  | Dr_matcher_create u64 nat u8 "u64 list"
  | Dr_action_dest_tir u64
  | Dr_action_dest_table u64
  | Dr_action_dest_vport u64 u32
  | Dr_rule_create u64 "u64 list" "u64 list"

type_synonym calls = "(host_call \<times> u64) list"
type_synonym hostlib = "calls \<Rightarrow> host_call \<Rightarrow> u64 option"

record rdma =
  set_cqe_owner :: "u8 list \<Rightarrow> u8 \<Rightarrow> u8 list"
  data_seg :: "u32 \<Rightarrow> u32 \<Rightarrow> u64 \<Rightarrow> u8 list"
  devx_set :: "nat \<times> nat \<Rightarrow> u64 \<Rightarrow> u64 list \<Rightarrow> u64 list"

section \<open>The context\<close>

record host =
  done_calls :: calls
  dev_mem :: memory
  inner_ibv_context :: u64
  process :: u64
  pd :: u64
  flexio_uar :: u64
  window :: u64
  event_handler_vec :: "u64 list"
  mr_vec :: "u64 list"

definition ask :: "hostlib \<Rightarrow> host_call \<Rightarrow> host \<Rightarrow> (u64 \<times> host) option" where
  "ask lib c st = do { v \<leftarrow> lib (done_calls st) c; Some (v, st\<lparr>done_calls := done_calls st @ [(c, v)]\<rparr>) }"

text \<open>A call whose result the code does not test: a null pointer is 0.\<close>

definition ask_any :: "hostlib \<Rightarrow> host_call \<Rightarrow> host \<Rightarrow> u64 \<times> host" where
  "ask_any lib c st = (let v = case_option 0 id (lib (done_calls st) c) in (v, st\<lparr>done_calls := done_calls st @ [(c, v)]\<rparr>))"

definition copy_from_host :: "hostlib \<Rightarrow> u8 list \<Rightarrow> host \<Rightarrow> (ptr \<times> host) option" where
  "copy_from_host lib bytes st = do {
     (a, st) \<leftarrow> ask lib (Copy_from_host bytes) st;
     Some (a, st\<lparr>dev_mem := store_bytes (dev_mem st) a bytes\<rparr>) }"

definition host2dev_memcpy :: "hostlib \<Rightarrow> u8 list \<Rightarrow> ptr \<Rightarrow> host \<Rightarrow> host option" where
  "host2dev_memcpy lib bytes a st = do {
     (_, st) \<leftarrow> ask lib (Host2dev_memcpy bytes a) st;
     Some (st\<lparr>dev_mem := store_bytes (dev_mem st) a bytes\<rparr>) }"

text \<open>The constructor looks for the device by its name; the list is \<open>None\<close> where the library gives none.\<close>

fun find_device :: "string list \<Rightarrow> string \<Rightarrow> string option" where
  "find_device [] name = None"
| "find_device (d # ds) name = (if d = name then Some d else find_device ds name)"

definition Context_new :: "hostlib \<Rightarrow> string list option \<Rightarrow> string \<Rightarrow> memory \<Rightarrow> host option" where
  "Context_new lib dev_list name m = do {
     ds \<leftarrow> dev_list;
     dev \<leftarrow> find_device ds name;
     (c, st) \<leftarrow> ask lib (Ibv_open_device dev)
        \<lparr>done_calls = [], dev_mem = m, inner_ibv_context = 0, process = 0, pd = 0, flexio_uar = 0, window = 0,
         event_handler_vec = [], mr_vec = []\<rparr>;
     Some (st\<lparr>inner_ibv_context := c\<rparr>) }"

definition Context_delete :: "hostlib \<Rightarrow> host \<Rightarrow> host option" where
  "Context_delete lib st = map_option snd (ask lib (Ibv_close_device (inner_ibv_context st)) st)"

definition get_flexio_uar_id :: "hostlib \<Rightarrow> host \<Rightarrow> (u32 \<times> host) option" where
  "get_flexio_uar_id lib st =
     (if flexio_uar st = 0 then None else do { (v, st) \<leftarrow> ask lib (Uar_get_id (flexio_uar st)) st; Some (ucast v, st) })"

definition get_event_handler :: "nat \<Rightarrow> host \<Rightarrow> u64 option" where
  "get_event_handler index st = (if index < length (event_handler_vec st) then Some (event_handler_vec st ! index) else None)"

definition get_window_id :: "hostlib \<Rightarrow> host \<Rightarrow> (u32 \<times> host) option" where
  "get_window_id lib st =
     (if window st = 0 then None else do { (v, st) \<leftarrow> ask lib (Window_get_id (window st)) st; Some (ucast v, st) })"

definition alloc_pd :: "hostlib \<Rightarrow> host \<Rightarrow> host option" where
  "alloc_pd lib st = do { (v, st) \<leftarrow> ask lib (Ibv_alloc_pd (inner_ibv_context st)) st; Some (st\<lparr>pd := v\<rparr>) }"

definition alloc_huge :: "hostlib \<Rightarrow> u64 \<Rightarrow> host \<Rightarrow> (ptr \<times> host) option" where
  "alloc_huge lib sz st = ask lib (Get_huge_mem 0 sz) st"

definition create_process :: "hostlib \<Rightarrow> u64 \<Rightarrow> host \<Rightarrow> host option" where
  "create_process lib app_device st = do {
     (v, st) \<leftarrow> ask lib (Process_create (inner_ibv_context st) app_device) st; Some (st\<lparr>process := v\<rparr>) }"

definition generate_flexio_uar :: "hostlib \<Rightarrow> host \<Rightarrow> host option" where
  "generate_flexio_uar lib st =
     (if flexio_uar st \<noteq> 0 then None
      else do { (v, st) \<leftarrow> ask lib (Process_get_uar (process st)) st; Some (st\<lparr>flexio_uar := v\<rparr>) })"

definition create_window :: "hostlib \<Rightarrow> host \<Rightarrow> host option" where
  "create_window lib st = do { (v, st) \<leftarrow> ask lib (Window_create (process st) (pd st)) st; Some (st\<lparr>window := v\<rparr>) }"

definition get_mr :: "nat \<Rightarrow> host \<Rightarrow> u64 option" where
  "get_mr index st = (if index < length (mr_vec st) then Some (mr_vec st ! index) else None)"

definition reg_mr :: "hostlib \<Rightarrow> ptr \<Rightarrow> u64 \<Rightarrow> access list \<Rightarrow> host \<Rightarrow> (u64 \<times> host) option" where
  "reg_mr lib addr sz flag st = do {
     (mr, st) \<leftarrow> ask lib (Ibv_reg_mr (pd st) addr sz flag) st; Some (mr, st\<lparr>mr_vec := mr_vec st @ [mr]\<rparr>) }"

definition create_mkey :: "hostlib \<Rightarrow> ptr \<Rightarrow> u64 \<Rightarrow> access list \<Rightarrow> host \<Rightarrow> (u64 \<times> host) option" where
  "create_mkey lib daddr sz access st = ask lib (Device_mkey_create (process st) (pd st) daddr sz access) st"

definition create_dpa_mkey :: "hostlib \<Rightarrow> ptr \<Rightarrow> nat \<Rightarrow> access list \<Rightarrow> host \<Rightarrow> (u64 \<times> host) option" where
  "create_dpa_mkey lib daddr log_buf_size flags st =
     ask lib (Device_mkey_create (process st) (pd st) daddr (LOG2VALUE log_buf_size) flags) st"

definition create_event_handler :: "hostlib \<Rightarrow> u64 \<Rightarrow> host \<Rightarrow> (u64 \<times> host) option" where
  "create_event_handler lib func st = do {
     (h, st) \<leftarrow> ask lib (Event_handler_create (process st) func (of_nat (length (event_handler_vec st)))) st;
     Some (h, st\<lparr>event_handler_vec := event_handler_vec st @ [h]\<rparr>) }"

definition event_handler_run :: "hostlib \<Rightarrow> u64 \<Rightarrow> nat \<Rightarrow> host \<Rightarrow> host option" where
  "event_handler_run lib ddata index st = do {
     h \<leftarrow> get_event_handler index st; map_option snd (ask lib (Event_handler_run h ddata) st) }"

definition allocate_dbr :: "hostlib \<Rightarrow> host \<Rightarrow> (ptr \<times> host) option" where
  "allocate_dbr lib st = copy_from_host lib (word_bytes 4 (0 :: u32) @ word_bytes 4 (0 :: u32)) st"

definition move_to_dev :: "hostlib \<Rightarrow> u8 list \<Rightarrow> host \<Rightarrow> (ptr \<times> host) option" where
  "move_to_dev lib arg st = copy_from_host lib arg st"

section \<open>The command queue\<close>

definition CommandQ_new :: "hostlib \<Rightarrow> nat \<Rightarrow> nat \<Rightarrow> host \<Rightarrow> (u64 \<times> host) option" where
  "CommandQ_new lib num_threads batch_size st = ask lib (Cmdq_create (process st) num_threads batch_size) st"

definition add_task :: "hostlib \<Rightarrow> u64 \<Rightarrow> u64 \<Rightarrow> u64 \<Rightarrow> host \<Rightarrow> host option" where
  "add_task lib cmd_q func ddata st = map_option snd (ask lib (Cmdq_task_add cmd_q func ddata) st)"

definition run :: "hostlib \<Rightarrow> u64 \<Rightarrow> host \<Rightarrow> host option" where
  "run lib cmd_q st = map_option snd (ask lib (Cmdq_state_running cmd_q) st)"

text \<open>
  \<open>wait_run\<close> polls every millisecond; \<open>Assert(useconds < time_out_seconds * 1e6)\<close> ends it.  A call of
  \<open>flexio_cmdq_is_empty\<close> answers 0 while tasks are left.  The result is the number of polls that found tasks; the
  code returns the time its timer measured instead.
\<close>

function wait_run :: "hostlib \<Rightarrow> u64 \<Rightarrow> nat \<Rightarrow> nat \<Rightarrow> host \<Rightarrow> (nat \<times> host) option" where
  "wait_run lib cmd_q time_out_seconds useconds st =
     (let (empty, st) = ask_any lib (Cmdq_is_empty cmd_q) st in
      if empty \<noteq> 0 then Some (useconds div 1000, st)
      else if useconds + 1000 < time_out_seconds * 1000000
           then wait_run lib cmd_q time_out_seconds (useconds + 1000) st
           else None)"
  by pat_completeness auto

termination wait_run
  by (relation "measure (\<lambda>(lib, cmd_q, time_out_seconds, useconds, st). time_out_seconds * 1000000 - useconds)") auto

declare wait_run.simps [simp del]

section \<open>Completion queues\<close>

text \<open>An \<open>unsigned long\<close> stored in an \<open>int\<close>.\<close>

definition as_int :: "u64 \<Rightarrow> int" where
  "as_int x = sint (ucast x :: u32)"

record CQ =
  inner_cq_ptr :: u64
  cq_transf :: app_transfer_cq
  cq_log_depth :: nat

definition cq_ring_image :: "rdma \<Rightarrow> int \<Rightarrow> u8 list" where
  "cq_ring_image rd num_of_cqes = concat (map (\<lambda>_. set_cqe_owner rd (replicate 64 0) 1) [0..<nat num_of_cqes])"

definition allocate_cq_memory :: "hostlib \<Rightarrow> rdma \<Rightarrow> nat \<Rightarrow> host \<Rightarrow> ((ptr \<times> ptr) \<times> host) option" where
  "allocate_cq_memory lib rd log_depth st = do {
     (dbr, st) \<leftarrow> allocate_dbr lib st;
     let num_of_cqes = as_int (LOG2VALUE log_depth);
     let ring_bsize = of_int num_of_cqes * LOG2VALUE 6;
     (_, st) \<leftarrow> ask lib (Calloc (of_int num_of_cqes) (LOG2VALUE 6)) st;
     (ring, st) \<leftarrow> copy_from_host lib (take (unat ring_bsize) (cq_ring_image rd num_of_cqes)) st;
     Some ((dbr, ring), st) }"

definition CQ_new :: "hostlib \<Rightarrow> rdma \<Rightarrow> bool \<Rightarrow> nat \<Rightarrow> nat \<Rightarrow> host \<Rightarrow> (CQ \<times> host) option" where
  "CQ_new lib rd is_rq log_depth event_index st = do {
     (thread, st) \<leftarrow> (if is_rq
        then do { h \<leftarrow> get_event_handler event_index st; (t, st) \<leftarrow> ask lib (Event_handler_get_thread h) st; Some (Some t, st) }
        else Some (None, st));
     (uar_id, st) \<leftarrow> get_flexio_uar_id lib st;
     ((dbr, ring), st) \<leftarrow> allocate_cq_memory lib rd log_depth st;
     (q, st) \<leftarrow> ask lib (Cq_create thread uar_id log_depth 0 dbr ring) st;
     (n, st) \<leftarrow> ask lib (Cq_get_cq_num q) st;
     Some (\<lparr>inner_cq_ptr = q,
        cq_transf = \<lparr>cq_num = ucast n, log_cq_depth = of_nat log_depth, cq_ring_daddr = ring, cq_dbr_daddr = dbr\<rparr>,
        cq_log_depth = log_depth\<rparr>, st) }"

section \<open>Receive queues\<close>

record wq_obj =
  inner_wq_ptr :: u64
  wq_transf :: app_transfer_wq
  wq_mkey :: u64
  wq_log_depth :: nat
  wq_data_size :: nat

text \<open>The data area of a queue on the host: huge pages, zeroed and registered.\<close>

definition host_area :: "hostlib \<Rightarrow> nat \<Rightarrow> host \<Rightarrow> ((ptr \<times> u64) \<times> host) option" where
  "host_area lib log_size st = do {
     (buf, st) \<leftarrow> ask lib (Get_huge_mem 0 ((LOG2VALUE log_size + 63) AND NOT 63)) st;
     (_, st) \<leftarrow> ask lib (Memset_zero buf (LOG2VALUE log_size)) st;
     (mr, st) \<leftarrow> reg_mr lib buf (LOG2VALUE log_size) [LOCAL_WRITE, REMOTE_WRITE, REMOTE_READ, REMOTE_ATOMIC] st;
     Some ((buf, mr), st) }"

definition allocate_rq_dpa_memory :: "hostlib \<Rightarrow> nat \<Rightarrow> nat \<Rightarrow> host \<Rightarrow> ((ptr \<times> ptr \<times> ptr) \<times> host) option" where
  "allocate_rq_dpa_memory lib log_depth log_data_size st = do {
     (wqd, st) \<leftarrow> ask lib (Buf_dev_alloc (LOG2VALUE (log_depth + log_data_size))) st;
     (ring, st) \<leftarrow> ask lib (Buf_dev_alloc (LOG2VALUE log_depth * 16)) st;
     (dbr, st) \<leftarrow> allocate_dbr lib st;
     Some ((wqd, ring, dbr), st) }"

definition allocate_rq_host_memory :: "hostlib \<Rightarrow> nat \<Rightarrow> nat \<Rightarrow> host \<Rightarrow> ((u64 \<times> ptr \<times> ptr \<times> ptr) \<times> host) option" where
  "allocate_rq_host_memory lib log_depth log_data_size st = do {
     ((wqd, mr), st) \<leftarrow> host_area lib (log_depth + log_data_size) st;
     (ring, st) \<leftarrow> ask lib (Buf_dev_alloc (LOG2VALUE log_depth * 16)) st;
     (dbr, st) \<leftarrow> allocate_dbr lib st;
     Some ((mr, wqd, ring, dbr), st) }"

text \<open>The loop of \<open>init_dpa_rq_ring\<close>: one data segment per entry, the address advancing by one chunk.\<close>

fun rq_ring_image :: "rdma \<Rightarrow> nat \<Rightarrow> u64 \<Rightarrow> u32 \<Rightarrow> u64 \<Rightarrow> u8 list" where
  "rq_ring_image rd 0 data_chunk_bsize mkey_id wqd = []"
| "rq_ring_image rd (Suc n) data_chunk_bsize mkey_id wqd =
     data_seg rd (ucast data_chunk_bsize) mkey_id wqd @ rq_ring_image rd n data_chunk_bsize mkey_id (wqd + data_chunk_bsize)"

definition init_dpa_rq_ring :: "hostlib \<Rightarrow> rdma \<Rightarrow> nat \<Rightarrow> nat \<Rightarrow> u32 \<Rightarrow> ptr \<Rightarrow> ptr \<Rightarrow> host \<Rightarrow> host option" where
  "init_dpa_rq_ring lib rd log_depth log_data_size mkey_id wqd ring st = do {
     let num_of_wqes = as_int (LOG2VALUE log_depth);
     let ring_bsize = of_int num_of_wqes * 16;
     (_, st) \<leftarrow> ask lib (Calloc (of_int num_of_wqes) 16) st;
     host2dev_memcpy lib
       (take (unat (ring_bsize :: u64)) (rq_ring_image rd (nat num_of_wqes) (LOG2VALUE log_data_size) mkey_id wqd)) ring st }"

text \<open>The memory image of \<open>htobe32\<close>.\<close>

definition be32_bytes :: "u32 \<Rightarrow> u8 list" where
  "be32_bytes w = rev (word_bytes 4 w)"

text \<open>The memory of a receive queue and the key of its data area, on the host or on the device.\<close>

definition rq_area :: "hostlib \<Rightarrow> nat \<Rightarrow> nat \<Rightarrow> bool \<Rightarrow> host \<Rightarrow> ((ptr \<times> ptr \<times> ptr \<times> u64 \<times> u32) \<times> host) option" where
  "rq_area lib log_depth log_data_size rqbuff_on_host st =
     (if rqbuff_on_host then do {
          ((mr, wqd, ring, dbr), st) \<leftarrow> allocate_rq_host_memory lib log_depth log_data_size st;
          (key, st) \<leftarrow> ask lib (Mr_lkey mr) st;
          Some ((wqd, ring, dbr, 0, ucast key), st) }
        else do {
          ((wqd, ring, dbr), st) \<leftarrow> allocate_rq_dpa_memory lib log_depth log_data_size st;
          (mkey, st) \<leftarrow> create_dpa_mkey lib wqd (log_depth + log_data_size) [LOCAL_WRITE, REMOTE_WRITE] st;
          (key, st) \<leftarrow> ask lib (Mkey_get_id mkey) st;
          Some ((wqd, ring, dbr, mkey, ucast key), st) })"

definition RQ_new :: "hostlib \<Rightarrow> rdma \<Rightarrow> nat \<Rightarrow> nat \<Rightarrow> u32 \<Rightarrow> bool \<Rightarrow> host \<Rightarrow> (wq_obj \<times> host) option" where
  "RQ_new lib rd log_depth log_data_size cqn rqbuff_on_host st = do {
     ((wqd, ring, dbr, mkey, mkey_id), st) \<leftarrow> rq_area lib log_depth log_data_size rqbuff_on_host st;
     st \<leftarrow> init_dpa_rq_ring lib rd log_depth log_data_size mkey_id wqd ring st;
     (q, st) \<leftarrow> ask lib (Rq_create cqn log_depth (pd st) dbr ring) st;
     (n, st) \<leftarrow> ask lib (Rq_get_wq_num q) st;
     st \<leftarrow> host2dev_memcpy lib (be32_bytes (ucast (LOG2VALUE log_depth) AND 0xffff) @ be32_bytes (0 AND 0xffff)) dbr st;
     Some (\<lparr>inner_wq_ptr = q,
        wq_transf = \<lparr>wq_num = ucast n, wqd_mkey_id = mkey_id, wq_ring_daddr = ring, wq_dbr_daddr = dbr, wqd_daddr = wqd,
          daddr_on_host = (if rqbuff_on_host then 1 else 0)\<rparr>,
        wq_mkey = mkey, wq_log_depth = log_depth, wq_data_size = log_data_size\<rparr>, st) }"

section \<open>Send queues\<close>

definition allocate_sq_dpa_memory :: "hostlib \<Rightarrow> nat \<Rightarrow> nat \<Rightarrow> host \<Rightarrow> ((ptr \<times> ptr \<times> ptr) \<times> host) option" where
  "allocate_sq_dpa_memory lib log_depth log_data_size st = do {
     (wqd, st) \<leftarrow> ask lib (Buf_dev_alloc (LOG2VALUE (log_depth + log_data_size))) st;
     (ring, st) \<leftarrow> ask lib (Buf_dev_alloc (LOG2VALUE (log_depth + 6))) st;
     (dbr, st) \<leftarrow> allocate_dbr lib st;
     Some ((wqd, ring, dbr), st) }"

definition allocate_sq_host_memory :: "hostlib \<Rightarrow> nat \<Rightarrow> nat \<Rightarrow> host \<Rightarrow> ((u64 \<times> ptr \<times> ptr \<times> ptr) \<times> host) option" where
  "allocate_sq_host_memory lib log_depth log_data_size st = do {
     ((wqd, mr), st) \<leftarrow> host_area lib (log_depth + log_data_size) st;
     (ring, st) \<leftarrow> ask lib (Buf_dev_alloc (LOG2VALUE (log_depth + 6))) st;
     (dbr, st) \<leftarrow> allocate_dbr lib st;
     Some ((mr, wqd, ring, dbr), st) }"

definition SQ_new :: "hostlib \<Rightarrow> nat \<Rightarrow> nat \<Rightarrow> u32 \<Rightarrow> bool \<Rightarrow> host \<Rightarrow> (wq_obj \<times> host) option" where
  "SQ_new lib log_depth log_data_size cqn rqbuff_on_host st = do {
     (uar_id, st) \<leftarrow> get_flexio_uar_id lib st;
     ((wqd, ring, dbr, mkey, mkey_id), st) \<leftarrow>
       (if rqbuff_on_host then do {
          ((mr, wqd, ring, dbr), st) \<leftarrow> allocate_sq_host_memory lib log_depth log_data_size st;
          (key, st) \<leftarrow> ask lib (Mr_lkey mr) st;
          Some ((wqd, ring, dbr, 0, ucast key), st) }
        else do {
          ((wqd, ring, dbr), st) \<leftarrow> allocate_sq_dpa_memory lib log_depth log_data_size st;
          (mkey, st) \<leftarrow> create_dpa_mkey lib wqd (log_depth + log_data_size) [LOCAL_WRITE] st;
          (key, st) \<leftarrow> ask lib (Mkey_get_id mkey) st;
          Some ((wqd, ring, dbr, mkey, ucast key), st) });
     (q, st) \<leftarrow> ask lib (Sq_create cqn log_depth uar_id (pd st) ring) st;
     (n, st) \<leftarrow> ask lib (Sq_get_wq_num q) st;
     Some (\<lparr>inner_wq_ptr = q,
        wq_transf = \<lparr>wq_num = ucast n, wqd_mkey_id = mkey_id, wq_ring_daddr = ring, wq_dbr_daddr = dbr, wqd_daddr = wqd,
          daddr_on_host = (if rqbuff_on_host then 1 else 0)\<rparr>,
        wq_mkey = mkey, wq_log_depth = log_depth, wq_data_size = log_data_size\<rparr>, st) }"

text \<open>A send queue that sends from the data area of a receive queue.\<close>

definition SQ_shared :: "hostlib \<Rightarrow> nat \<Rightarrow> nat \<Rightarrow> u32 \<Rightarrow> wq_obj \<Rightarrow> host \<Rightarrow> (wq_obj \<times> host) option" where
  "SQ_shared lib log_depth log_data_size cqn rq st = do {
     (uar_id, st) \<leftarrow> get_flexio_uar_id lib st;
     let t = wq_transf rq;
     (if wqd_daddr t \<noteq> 0 \<and> wqd_mkey_id t \<noteq> - 1 then Some () else None);
     (ring, st) \<leftarrow> ask lib (Buf_dev_alloc (LOG2VALUE (log_depth + 6))) st;
     (dbr, st) \<leftarrow> allocate_dbr lib st;
     (q, st) \<leftarrow> ask lib (Sq_create cqn log_depth uar_id (pd st) ring) st;
     (n, st) \<leftarrow> ask lib (Sq_get_wq_num q) st;
     Some (\<lparr>inner_wq_ptr = q,
        wq_transf = \<lparr>wq_num = ucast n, wqd_mkey_id = wqd_mkey_id t, wq_ring_daddr = ring, wq_dbr_daddr = dbr,
          wqd_daddr = wqd_daddr t, daddr_on_host = daddr_on_host t\<rparr>,
        wq_mkey = 0, wq_log_depth = log_depth, wq_data_size = log_data_size\<rparr>, st) }"

section \<open>Steering\<close>

text \<open>\<open>mlx5_ifc_dr_match_spec_bits\<close>: the fields and their widths in bits.\<close>

definition dr_match_spec_bits :: "(string \<times> nat) list" where
  "dr_match_spec_bits =
     [(''smac_47_16'', 0x20), (''smac_15_0'', 0x10), (''ethertype'', 0x10), (''dmac_47_16'', 0x20), (''dmac_15_0'', 0x10),
      (''first_prio'', 0x3), (''first_cfi'', 0x1), (''first_vid'', 0xc), (''ip_protocol'', 0x8), (''ip_dscp'', 0x6),
      (''ip_ecn'', 0x2), (''cvlan_tag'', 0x1), (''svlan_tag'', 0x1), (''frag'', 0x1), (''ip_version'', 0x4),
      (''tcp_flags'', 0x9), (''tcp_sport'', 0x10), (''tcp_dport'', 0x10), (''reserved_at_c0'', 0x18),
      (''ip_ttl_hoplimit'', 0x8), (''udp_sport'', 0x10), (''udp_dport'', 0x10), (''src_ip_127_96'', 0x20),
      (''src_ip_95_64'', 0x20), (''src_ip_63_32'', 0x20), (''src_ip_31_0'', 0x20), (''dst_ip_127_96'', 0x20),
      (''dst_ip_95_64'', 0x20), (''dst_ip_63_32'', 0x20), (''dst_ip_31_0'', 0x20)]"

fun spec_field :: "(string \<times> nat) list \<Rightarrow> nat \<Rightarrow> string \<Rightarrow> nat \<times> nat" where
  "spec_field [] off f = (off, 0)"
| "spec_field ((g, w) # gs) off f = (if g = f then (off, w) else spec_field gs (off + w) f)"

definition match_field :: "string \<Rightarrow> nat \<times> nat" where
  "match_field f = spec_field dr_match_spec_bits 0 f"

definition MATCH_SIZE :: nat where "MATCH_SIZE = 64"

definition clear :: "u64 list" where
  "clear = replicate MATCH_SIZE 0"

definition set_src_mac_mask :: "rdma \<Rightarrow> u64 list \<Rightarrow> u64 list" where
  "set_src_mac_mask rd b = devx_set rd (match_field ''smac_15_0'') 0xffff (devx_set rd (match_field ''smac_47_16'') 0xffffffff b)"

definition set_src_mac :: "rdma \<Rightarrow> u64 \<Rightarrow> u64 list \<Rightarrow> u64 list" where
  "set_src_mac rd mac b =
     devx_set rd (match_field ''smac_15_0'') (mac mod push_bit 16 1) (devx_set rd (match_field ''smac_47_16'') (drop_bit 16 mac) b)"

definition set_dst_mac_mask :: "rdma \<Rightarrow> u64 list \<Rightarrow> u64 list" where
  "set_dst_mac_mask rd b = devx_set rd (match_field ''dmac_15_0'') 0xffff (devx_set rd (match_field ''dmac_47_16'') 0xffffffff b)"

definition set_dst_mac :: "rdma \<Rightarrow> u64 \<Rightarrow> u64 list \<Rightarrow> u64 list" where
  "set_dst_mac rd mac b =
     devx_set rd (match_field ''dmac_15_0'') (mac mod push_bit 16 1) (devx_set rd (match_field ''dmac_47_16'') (drop_bit 16 mac) b)"

definition set_src_ipv4_mask :: "rdma \<Rightarrow> u64 list \<Rightarrow> u64 list" where
  "set_src_ipv4_mask rd b = devx_set rd (match_field ''src_ip_31_0'') 0xffffffff b"

definition set_src_ipv4 :: "rdma \<Rightarrow> u64 \<Rightarrow> u64 list \<Rightarrow> u64 list" where
  "set_src_ipv4 rd ip b = devx_set rd (match_field ''src_ip_31_0'') ip b"

definition set_dst_ipv4_mask :: "rdma \<Rightarrow> u64 list \<Rightarrow> u64 list" where
  "set_dst_ipv4_mask rd b = devx_set rd (match_field ''dst_ip_31_0'') 0xffffffff b"

definition set_dst_ipv4 :: "rdma \<Rightarrow> u64 \<Rightarrow> u64 list \<Rightarrow> u64 list" where
  "set_dst_ipv4 rd ip b = devx_set rd (match_field ''dst_ip_31_0'') ip b"

definition set_src_udp_port_mask :: "rdma \<Rightarrow> u64 list \<Rightarrow> u64 list" where
  "set_src_udp_port_mask rd b = devx_set rd (match_field ''udp_sport'') 0xffff b"

definition set_src_udp_port :: "rdma \<Rightarrow> u16 \<Rightarrow> u64 list \<Rightarrow> u64 list" where
  "set_src_udp_port rd port b = devx_set rd (match_field ''udp_sport'') (ucast port) b"

definition set_dst_udp_port_mask :: "rdma \<Rightarrow> u64 list \<Rightarrow> u64 list" where
  "set_dst_udp_port_mask rd b = devx_set rd (match_field ''udp_dport'') 0xffff b"

definition set_dst_udp_port :: "rdma \<Rightarrow> u16 \<Rightarrow> u64 list \<Rightarrow> u64 list" where
  "set_dst_udp_port rd port b = devx_set rd (match_field ''udp_dport'') (ucast port) b"

text \<open>Rules: the actions in the order in which they were added.\<close>

definition add_dest_devx_tir :: "hostlib \<Rightarrow> u64 \<Rightarrow> u64 list \<Rightarrow> host \<Rightarrow> (u64 list \<times> host) option" where
  "add_dest_devx_tir lib rq_ptr dr_actions st = do {
     let (tir, st) = ask_any lib (Rq_get_tir rq_ptr) st;
     (a, st) \<leftarrow> ask lib (Dr_action_dest_tir tir) st; Some (dr_actions @ [a], st) }"

definition add_dest_table :: "hostlib \<Rightarrow> u64 \<Rightarrow> u64 list \<Rightarrow> host \<Rightarrow> (u64 list \<times> host) option" where
  "add_dest_table lib dr_table dr_actions st = do {
     (a, st) \<leftarrow> ask lib (Dr_action_dest_table dr_table) st; Some (dr_actions @ [a], st) }"

definition add_dest_vport :: "hostlib \<Rightarrow> u64 \<Rightarrow> u32 \<Rightarrow> u64 list \<Rightarrow> host \<Rightarrow> (u64 list \<times> host) option" where
  "add_dest_vport lib dr_domain vport dr_actions st = do {
     (a, st) \<leftarrow> ask lib (Dr_action_dest_vport dr_domain vport) st; Some (dr_actions @ [a], st) }"

record dr_flow_table =
  dr_table :: u64
  dr_matcher :: u64

definition create_dr_rule :: "hostlib \<Rightarrow> dr_flow_table \<Rightarrow> u64 list \<Rightarrow> u64 list \<Rightarrow> host \<Rightarrow> (u64 \<times> host) option" where
  "create_dr_rule lib t matcher dr_actions st =
     (if dr_actions = [] then None else ask lib (Dr_rule_create (dr_matcher t) matcher dr_actions) st)"

definition DR_new :: "hostlib \<Rightarrow> u64 \<Rightarrow> host \<Rightarrow> u64 \<times> host" where
  "DR_new lib domain_type st = ask_any lib (Dr_domain_create (inner_ibv_context st) domain_type) st"

definition create_flow_table :: "hostlib \<Rightarrow> u64 \<Rightarrow> nat \<Rightarrow> nat \<Rightarrow> u64 list \<Rightarrow> host \<Rightarrow> dr_flow_table \<times> host" where
  "create_flow_table lib domain level priority matcher st =
     (let (t, st) = ask_any lib (Dr_table_create domain level) st;
          (mt, st) = ask_any lib (Dr_matcher_create t priority 0x1 matcher) st
      in (\<lparr>dr_table = t, dr_matcher = mt\<rparr>, st))"

end
