(* ===== verification/Host_Memory.thy ===== *)
theory Host_Memory
  imports Flexio_Host Rx_Loop Packet_Headers
begin

text \<open>
  What the queue constructors of the FlexIO wrapper leave in device memory.  The calls recorded in the state of the
  host tell which regions of device memory the library handed out; \<open>framed\<close> says that nothing outside the regions of
  the calls between two states is written, and \<open>has\<close> that such a region holds given bytes.  The second part is about
  the set of queues that every host program makes for a device program, and what a device program may rely on.
\<close>

section \<open>The queues of a program\<close>

text \<open>The constants of a program that its queues depend on: logarithms of the depths of the rings and of the sizes of
  an entry of the data areas, and where the data areas are.\<close>

record queue_opts =
  cq_depth :: nat
  rq_depth :: nat
  data_bsize :: nat
  sq_depth :: nat
  sq_data_bsize :: nat
  rq_buffer_on_host :: bool
  tx_shared_rx_buffer :: bool
  sq_buffer_on_host :: bool

record queues =
  q_rq_cq :: CQ
  q_sq_cq :: CQ
  q_rq :: wq_obj
  q_sq :: wq_obj

definition make_queues :: "hostlib \<Rightarrow> rdma \<Rightarrow> queue_opts \<Rightarrow> nat \<Rightarrow> host \<Rightarrow> (queues \<times> host) option" where
  "make_queues lib rd opts i st = do {
     (rcq, st) \<leftarrow> CQ_new lib rd True (cq_depth opts) i st;
     (scq, st) \<leftarrow> CQ_new lib rd False (cq_depth opts) i st;
     (n, st) \<leftarrow> ask lib (Cq_get_cq_num (inner_cq_ptr rcq)) st;
     (r, st) \<leftarrow> RQ_new lib rd (rq_depth opts) (data_bsize opts) (ucast n) (rq_buffer_on_host opts) st;
     (n, st) \<leftarrow> ask lib (Cq_get_cq_num (inner_cq_ptr scq)) st;
     (s, st) \<leftarrow> (if tx_shared_rx_buffer opts
        then SQ_shared lib (sq_depth opts) (sq_data_bsize opts) (ucast n) r st
        else SQ_new lib (sq_depth opts) (sq_data_bsize opts) (ucast n) (sq_buffer_on_host opts) st);
     Some (\<lparr>q_rq_cq = rcq, q_sq_cq = scq, q_rq = r, q_sq = s\<rparr>, st) }"

definition queue_config :: "queues \<Rightarrow> u32 \<Rightarrow> ptr \<Rightarrow> u32 \<Rightarrow> queue_config_data" where
  "queue_config q i addr key =
     \<lparr>rq_cq_data = cq_transf (q_rq_cq q), rq_data = wq_transf (q_rq q), sq_cq_data = cq_transf (q_sq_cq q),
      sq_data = wq_transf (q_sq q), thread_index = i, new_buffer_addr = addr, new_buffer_mkey_id = key\<rparr>"

section \<open>Regions of device memory\<close>

fun region :: "host_call \<times> u64 \<Rightarrow> (ptr \<times> nat) list" where
  "region (Copy_from_host bs, a) = [(a, length bs)]"
| "region (Buf_dev_alloc n, a) = [(a, unat n)]"
| "region _ = []"

definition regions :: "calls \<Rightarrow> (ptr \<times> nat) list" where
  "regions cs = concat (map region cs)"

text \<open>The library never hands out memory that is in use.\<close>

definition apart :: "calls \<Rightarrow> bool" where
  "apart cs \<longleftrightarrow> sorted_wrt (\<lambda>(a, k) (b, l). sep a k b l) (regions cs)"

lemma regions_simps [simp]: "regions [] = []" "regions (c # cs) = region c @ regions cs" "regions (cs @ ds) = regions cs @ regions ds"
  by (simp_all add: regions_def)

text \<open>The calls between two states, and that nothing outside the regions they allocate is written.\<close>

definition fresh_calls :: "host \<Rightarrow> host \<Rightarrow> calls" where
  "fresh_calls st st' = drop (length (done_calls st)) (done_calls st')"

definition framed :: "host \<Rightarrow> host \<Rightarrow> bool" where
  "framed st st' \<longleftrightarrow> done_calls st' = done_calls st @ fresh_calls st st' \<and>
     (\<forall>a. (\<forall>(b, l) \<in> set (regions (fresh_calls st st')). \<not> inside a b l) \<longrightarrow> dev_mem st' a = dev_mem st a)"

lemma fresh_calls_append: "done_calls st' = done_calls st @ cs \<Longrightarrow> fresh_calls st st' = cs"
  by (simp add: fresh_calls_def)

lemma fresh_calls_trans: "framed st st\<^sub>1 \<Longrightarrow> framed st\<^sub>1 st\<^sub>2 \<Longrightarrow> fresh_calls st st\<^sub>2 = fresh_calls st st\<^sub>1 @ fresh_calls st\<^sub>1 st\<^sub>2"
  by (metis append.assoc framed_def fresh_calls_append)

lemma framed_trans:
  assumes "framed st st\<^sub>1" and "framed st\<^sub>1 st\<^sub>2"
  shows "framed st st\<^sub>2"
  unfolding framed_def fresh_calls_trans [OF assms]
  using assms by (auto simp: framed_def)

lemma framed_refl: "framed st st"
  by (simp add: framed_def fresh_calls_def)

lemma ask_framed:
  "ask lib c st = Some (v, st') \<Longrightarrow> framed st st'" "ask lib c st = Some (v, st') \<Longrightarrow> fresh_calls st st' = [(c, v)]"
  "ask lib c st = Some (v, st') \<Longrightarrow> dev_mem st' = dev_mem st"
  by (auto simp: ask_def framed_def fresh_calls_def split: bind_splits)

lemma store_bytes_outside:
  assumes "\<not> inside a p (length bs)"
  shows "store_bytes m p bs a = m a"
proof -
  have "length bs \<le> 2 ^ 64" using assms unat_lt_u64 [of "a - p"] by (simp add: inside_def)
  thus ?thesis using assms by (simp add: store_bytes_apply)
qed

lemma copy_framed:
  assumes "copy_from_host lib bs st = Some (a, st')"
  shows "framed st st'" and "fresh_calls st st' = [(Copy_from_host bs, a)]"
    and "length bs \<le> 2 ^ 64 \<Longrightarrow> load_bytes (dev_mem st') a (length bs) = bs"
  using assms
  by (auto simp: copy_from_host_def ask_def framed_def fresh_calls_def store_bytes_outside load_bytes_store_bytes split: bind_splits)

lemma framed_bytes:
  assumes "framed st st'" and "\<And>b l. (b, l) \<in> set (regions (fresh_calls st st')) \<Longrightarrow> sep p k b l" and "k \<le> 2 ^ 64"
  shows "load_bytes (dev_mem st') p k = load_bytes (dev_mem st) p k"
proof (rule load_bytes_cong)
  fix i assume "i < k"
  hence "inside (p + of_nat i) p k" using assms(3) by (rule inside_off)
  hence "\<forall>(b, l) \<in> set (regions (fresh_calls st st')). \<not> inside (p + of_nat i) b l"
    using sep_outside [OF assms(2)] by blast
  thus "dev_mem st' (p + of_nat i) = dev_mem st (p + of_nat i)" using assms(1) by (simp add: framed_def)
qed

section \<open>What the constructors leave in device memory\<close>

lemma LOG2VALUE_pow: "LOG2VALUE n = of_nat (2 ^ n)"
  by (simp add: LOG2VALUE_def push_bit_eq_mult)

lemma as_int_of_nat: "k < 2 ^ 31 \<Longrightarrow> as_int (of_nat k) = int k"
  unfolding as_int_def by transfer (simp add: signed_take_bit_int_eq_self take_bit_int_eq_self signed_take_bit_take_bit)

lemma as_int_log:
  assumes "n \<le> 30"
  shows "as_int (LOG2VALUE n) = 2 ^ n"
proof -
  have "(2 :: nat) ^ n \<le> 2 ^ 30" using assms by (intro power_increasing) simp_all
  thus ?thesis using as_int_of_nat [of "2 ^ n"] by (simp add: LOG2VALUE_pow)
qed

lemma unat_ring_bytes:
  assumes "n \<le> 30" and "k \<le> 64"
  shows "unat (of_int (2 ^ n) * of_nat k :: u64) = 2 ^ n * k"
proof -
  have "(2 :: nat) ^ n * k \<le> 2 ^ 30 * 64" using assms by (intro mult_mono power_increasing) simp_all
  hence "unat (of_nat (2 ^ n * k) :: u64) = 2 ^ n * k" by (simp add: unat_of_nat del: of_nat_mult of_nat_power)
  thus ?thesis by simp
qed

lemma length_concat_same: "length (concat (map (\<lambda>_. x) [0..<n])) = n * length x"
  by (induction n) simp_all

definition fresh_cqe :: "rdma \<Rightarrow> u8 list" where
  "fresh_cqe rd = set_cqe_owner rd (replicate 64 0) 1"

lemma cq_ring_bytes:
  assumes "n \<le> 30" and "length (fresh_cqe rd) = 64"
  shows "take (unat (of_int (as_int (LOG2VALUE n)) * LOG2VALUE 6)) (cq_ring_image rd (as_int (LOG2VALUE n))) =
    concat (map (\<lambda>_. fresh_cqe rd) [0..<2 ^ n])" (is "take ?k _ = ?image")
proof -
  have "LOG2VALUE 6 = of_nat 64" by (simp add: LOG2VALUE_pow)
  hence "?k = 2 ^ n * 64" using unat_ring_bytes [OF assms(1), of 64] by (simp only: as_int_log assms(1))
  moreover have "length ?image = 2 ^ n * 64" by (simp add: length_concat_same assms(2))
  ultimately show ?thesis by (simp add: cq_ring_image_def as_int_log assms(1) fresh_cqe_def nat_power_eq)
qed

text \<open>\<open>has st st' p bs\<close>: between the two states the region of \<open>bs\<close> at \<open>p\<close> was allocated, and it holds \<open>bs\<close>.\<close>

definition has :: "host \<Rightarrow> host \<Rightarrow> ptr \<Rightarrow> u8 list \<Rightarrow> bool" where
  "has st st' p bs \<longleftrightarrow> framed st st' \<and> (p, length bs) \<in> set (regions (fresh_calls st st')) \<and> length bs \<le> 2 ^ 64 \<and>
     load_bytes (dev_mem st') p (length bs) = bs"

lemma has_before: "framed st st\<^sub>1 \<Longrightarrow> has st\<^sub>1 st\<^sub>2 p bs \<Longrightarrow> has st st\<^sub>2 p bs"
  by (auto simp: has_def fresh_calls_trans intro: framed_trans)

lemma has_ask: "has st st\<^sub>1 p bs \<Longrightarrow> ask lib c st\<^sub>1 = Some (v, st\<^sub>2) \<Longrightarrow> has st st\<^sub>2 p bs"
  by (auto simp: has_def fresh_calls_trans ask_framed intro: framed_trans dest: ask_framed)

lemma has_later:
  assumes "has st st\<^sub>1 p bs" and "framed st\<^sub>1 st\<^sub>2" and "apart (fresh_calls st st\<^sub>2)"
  shows "has st st\<^sub>2 p bs"
proof -
  have f: "framed st st\<^sub>1" using assms(1) by (simp add: has_def)
  have "sep p (length bs) b l" if "(b, l) \<in> set (regions (fresh_calls st\<^sub>1 st\<^sub>2))" for b l
    using assms(1,3) that unfolding apart_def fresh_calls_trans [OF f assms(2)]
    by (auto simp: has_def sorted_wrt_append)
  hence "load_bytes (dev_mem st\<^sub>2) p (length bs) = load_bytes (dev_mem st\<^sub>1) p (length bs)"
    using assms(1) by (intro framed_bytes [OF assms(2)]) (auto simp: has_def)
  thus ?thesis using assms(1,2) by (auto simp: has_def fresh_calls_trans intro: framed_trans)
qed

lemma copy_has: "copy_from_host lib bs st = Some (a, st') \<Longrightarrow> length bs \<le> 2 ^ 64 \<Longrightarrow> has st st' a bs"
  using copy_framed by (simp add: has_def)

lemma dbr_has: "allocate_dbr lib st = Some (a, st') \<Longrightarrow> has st st' a (word_bytes 4 (0 :: u32) @ word_bytes 4 (0 :: u32))"
  unfolding allocate_dbr_def by (erule copy_has) simp

lemma allocate_cq_memory_has:
  assumes "allocate_cq_memory lib rd n st = Some ((dbr, ring), st')" and "n \<le> 30" and "length (fresh_cqe rd) = 64"
  shows "has st st' ring (concat (map (\<lambda>_. fresh_cqe rd) [0..<2 ^ n]))" (is "has _ _ _ ?image")
proof -
  from assms(1) obtain st\<^sub>1 v st\<^sub>2 where d: "allocate_dbr lib st = Some (dbr, st\<^sub>1)"
    and a: "ask lib (Calloc (of_int (as_int (LOG2VALUE n))) (LOG2VALUE 6)) st\<^sub>1 = Some (v, st\<^sub>2)"
    and c: "copy_from_host lib ?image st\<^sub>2 = Some (ring, st')"
    by (auto simp: allocate_cq_memory_def cq_ring_bytes [OF assms(2,3)] Let_def split: bind_splits)
  have "(2 :: nat) ^ n * 64 \<le> 2 ^ 30 * 64" using assms(2) by (intro mult_mono power_increasing) simp_all
  hence "has st\<^sub>2 st' ring ?image" by (intro copy_has [OF c]) (simp add: length_concat_same assms(3))
  moreover have "framed st st\<^sub>2"
    by (rule framed_trans [OF _ ask_framed(1) [OF a]]) (use dbr_has [OF d] in \<open>simp add: has_def\<close>)
  ultimately show ?thesis by (rule has_before [rotated])
qed

lemma uar_framed: "get_flexio_uar_id lib st = Some (uar, st') \<Longrightarrow> framed st st'"
  by (auto simp: get_flexio_uar_id_def dest: ask_framed split: if_splits bind_splits)

lemma CQ_new_has:
  assumes "CQ_new lib rd is_rq n e st = Some (q, st')" and "n \<le> 30" and "length (fresh_cqe rd) = 64"
  shows "has st st' (cq_ring_daddr (cq_transf q)) (concat (map (\<lambda>_. fresh_cqe rd) [0..<2 ^ n]))"
proof -
  from assms(1) obtain t st\<^sub>1 uar st\<^sub>2 dbr ring st\<^sub>3 v st\<^sub>4 num where
    h: "(if is_rq then do { h \<leftarrow> get_event_handler e st; (t, st) \<leftarrow> ask lib (Event_handler_get_thread h) st; Some (Some t, st) }
        else Some (None, st)) = Some (t, st\<^sub>1)"
    and u: "get_flexio_uar_id lib st\<^sub>1 = Some (uar, st\<^sub>2)"
    and a: "allocate_cq_memory lib rd n st\<^sub>2 = Some ((dbr, ring), st\<^sub>3)"
    and q: "ask lib (Cq_create t uar n 0 dbr ring) st\<^sub>3 = Some (v, st\<^sub>4)" "ask lib (Cq_get_cq_num v) st\<^sub>4 = Some (num, st')"
      "cq_ring_daddr (cq_transf q) = ring"
    by (auto simp: CQ_new_def split: bind_splits)
  have "framed st st\<^sub>1" using h by (auto simp: framed_refl dest: ask_framed split: if_splits bind_splits)
  hence "framed st st\<^sub>2" using uar_framed [OF u] by (rule framed_trans)
  thus ?thesis
    unfolding q(3) by (intro has_ask [OF has_ask [OF has_before [OF _ allocate_cq_memory_has [OF a assms(2,3)]] q(1)] q(2)])
qed

lemma memcpy_has:
  assumes "framed st st\<^sub>1" and "(p, length bs) \<in> set (regions (fresh_calls st st\<^sub>1))" and "length bs \<le> 2 ^ 64"
    and "host2dev_memcpy lib bs p st\<^sub>1 = Some st\<^sub>2"
  shows "has st st\<^sub>2 p bs" and "regions (fresh_calls st st\<^sub>2) = regions (fresh_calls st st\<^sub>1)"
proof -
  from assms(4) obtain v where d: "done_calls st\<^sub>2 = done_calls st\<^sub>1 @ [(Host2dev_memcpy bs p, v)]"
    and m: "dev_mem st\<^sub>2 = store_bytes (dev_mem st\<^sub>1) p bs"
    by (auto simp: host2dev_memcpy_def ask_def split: bind_splits)
  have "done_calls st\<^sub>2 = done_calls st @ (fresh_calls st st\<^sub>1 @ [(Host2dev_memcpy bs p, v)])"
    using d assms(1) by (simp add: framed_def)
  hence f: "fresh_calls st st\<^sub>2 = fresh_calls st st\<^sub>1 @ [(Host2dev_memcpy bs p, v)]" by (rule fresh_calls_append)
  thus r: "regions (fresh_calls st st\<^sub>2) = regions (fresh_calls st st\<^sub>1)" by simp
  have "dev_mem st\<^sub>2 a = dev_mem st a" if "\<forall>(b, l) \<in> set (regions (fresh_calls st st\<^sub>1)). \<not> inside a b l" for a
  proof -
    have "\<not> inside a p (length bs)" using that assms(2) by auto
    thus ?thesis using that assms(1) m by (simp add: framed_def store_bytes_outside)
  qed
  hence "framed st st\<^sub>2" unfolding framed_def r using assms(1) d f by (simp add: framed_def)
  thus "has st st\<^sub>2 p bs"
    using assms(2,3) r m by (simp add: has_def load_bytes_store_bytes)
qed

lemma memcpy_keeps:
  assumes "has st st\<^sub>1 p bs" and "(q, length cs) \<in> set (regions (fresh_calls st st\<^sub>1))" and "length cs \<le> 2 ^ 64"
    and "host2dev_memcpy lib cs q st\<^sub>1 = Some st\<^sub>2" and "sep p (length bs) q (length cs)"
  shows "has st st\<^sub>2 p bs"
proof -
  have f: "framed st st\<^sub>1" using assms(1) by (simp add: has_def)
  have "dev_mem st\<^sub>2 = store_bytes (dev_mem st\<^sub>1) q cs"
    using assms(4) by (auto simp: host2dev_memcpy_def ask_def split: bind_splits)
  moreover have "has st st\<^sub>2 q cs" "regions (fresh_calls st st\<^sub>2) = regions (fresh_calls st st\<^sub>1)"
    using memcpy_has [OF f assms(2-4)] by simp_all
  ultimately show ?thesis
    using assms(1,3,5) by (simp add: has_def load_bytes_store_bytes_sep sep_sym)
qed

lemma host_area_framed: "host_area lib n st = Some ((buf, mr), st') \<Longrightarrow> framed st st'"
  by (auto simp: host_area_def reg_mr_def ask_def framed_def fresh_calls_def split: bind_splits)

definition ring_then_dbr :: "host \<Rightarrow> host \<Rightarrow> nat \<Rightarrow> ptr \<Rightarrow> ptr \<Rightarrow> bool" where
  "ring_then_dbr st st' k ring dbr \<longleftrightarrow>
     framed st st' \<and> (\<exists>A B. regions (fresh_calls st st') = A @ (ring, k) # (dbr, 8) # B)"

lemma ring_then_dbr_grow:
  assumes "framed st st\<^sub>1" and "ring_then_dbr st\<^sub>1 st\<^sub>2 k ring dbr" and "framed st\<^sub>2 st\<^sub>3"
  shows "ring_then_dbr st st\<^sub>3 k ring dbr"
proof -
  have f: "framed st\<^sub>1 st\<^sub>2" using assms(2) by (simp add: ring_then_dbr_def)
  have "fresh_calls st st\<^sub>3 = fresh_calls st st\<^sub>1 @ fresh_calls st\<^sub>1 st\<^sub>2 @ fresh_calls st\<^sub>2 st\<^sub>3"
    using fresh_calls_trans [OF assms(1) framed_trans [OF f assms(3)]] fresh_calls_trans [OF f assms(3)] by simp
  moreover obtain A B where "regions (fresh_calls st\<^sub>1 st\<^sub>2) = A @ (ring, k) # (dbr, 8) # B"
    using assms(2) by (auto simp: ring_then_dbr_def)
  ultimately have "regions (fresh_calls st st\<^sub>3) =
    (regions (fresh_calls st st\<^sub>1) @ A) @ (ring, k) # (dbr, 8) # B @ regions (fresh_calls st\<^sub>2 st\<^sub>3)" by simp
  thus ?thesis using assms(1,3) f unfolding ring_then_dbr_def by (blast intro: framed_trans)
qed

lemma alloc_ring_then_dbr:
  assumes "ask lib (Buf_dev_alloc n) st = Some (ring, st\<^sub>1)" and "allocate_dbr lib st\<^sub>1 = Some (dbr, st\<^sub>2)"
  shows "ring_then_dbr st st\<^sub>2 (unat n) ring dbr"
proof -
  have f: "framed st st\<^sub>1" "framed st\<^sub>1 st\<^sub>2" "fresh_calls st st\<^sub>1 = [(Buf_dev_alloc n, ring)]"
    using ask_framed [OF assms(1)] dbr_has [OF assms(2)] by (simp_all add: has_def)
  obtain bs where "fresh_calls st\<^sub>1 st\<^sub>2 = [(Copy_from_host bs, dbr)]" "length bs = 8"
    using copy_framed(2) assms(2) unfolding allocate_dbr_def by fastforce
  thus ?thesis using f fresh_calls_trans [OF f(1,2)] by (auto simp: ring_then_dbr_def intro: framed_trans)
qed

lemma rq_area_regions:
  assumes "rq_area lib n d on_host st = Some ((wqd, ring, dbr, mkey, key), st')"
  shows "ring_then_dbr st st' (unat (LOG2VALUE n * 16)) ring dbr"
proof (cases on_host)
  case True
  with assms obtain mr st\<^sub>1 st\<^sub>2 st\<^sub>3 v where "host_area lib (n + d) st = Some ((wqd, mr), st\<^sub>1)"
    "ask lib (Buf_dev_alloc (LOG2VALUE n * 16)) st\<^sub>1 = Some (ring, st\<^sub>2)" "allocate_dbr lib st\<^sub>2 = Some (dbr, st\<^sub>3)"
    "ask lib (Mr_lkey mr) st\<^sub>3 = Some (v, st')"
    by (auto simp: rq_area_def allocate_rq_host_memory_def split: bind_splits)
  thus ?thesis
    using ring_then_dbr_grow [OF host_area_framed alloc_ring_then_dbr] ask_framed(1) by metis
next
  case False
  with assms obtain st\<^sub>1 st\<^sub>2 st\<^sub>3 st\<^sub>4 v where a: "ask lib (Buf_dev_alloc (LOG2VALUE (n + d))) st = Some (wqd, st\<^sub>1)"
    "ask lib (Buf_dev_alloc (LOG2VALUE n * 16)) st\<^sub>1 = Some (ring, st\<^sub>2)" "allocate_dbr lib st\<^sub>2 = Some (dbr, st\<^sub>3)"
    "create_dpa_mkey lib wqd (n + d) [LOCAL_WRITE, REMOTE_WRITE] st\<^sub>3 = Some (mkey, st\<^sub>4)"
    "ask lib (Mkey_get_id mkey) st\<^sub>4 = Some (v, st')"
    by (auto simp: rq_area_def allocate_rq_dpa_memory_def split: bind_splits)
  have "framed st\<^sub>3 st'" using ask_framed(1) [OF a(4) [unfolded create_dpa_mkey_def]] ask_framed(1) [OF a(5)] by (rule framed_trans)
  thus ?thesis
    using ring_then_dbr_grow [OF ask_framed(1) [OF a(1)] alloc_ring_then_dbr [OF a(2,3)]] by blast
qed

lemma LOG2VALUE_times_16: "n \<le> 30 \<Longrightarrow> unat (LOG2VALUE n * 16) = 2 ^ n * 16"
  using unat_ring_bytes [of n 16] by (simp add: LOG2VALUE_pow)

lemma length_rq_ring_image:
  assumes "\<And>l k a. length (data_seg rd l k a) = 16"
  shows "length (rq_ring_image rd n c key wqd) = n * 16"
  using assms by (induction n arbitrary: wqd) simp_all

lemma rq_ring_bytes:
  assumes "n \<le> 30" and "\<And>l k a. length (data_seg rd l k a) = 16"
  shows "take (unat (of_int (as_int (LOG2VALUE n)) * 16 :: u64)) (rq_ring_image rd (nat (as_int (LOG2VALUE n))) c key wqd) =
    rq_ring_image rd (2 ^ n) c key wqd"
proof -
  have "unat (of_int (as_int (LOG2VALUE n)) * 16 :: u64) = 2 ^ n * 16"
    using unat_ring_bytes [OF assms(1), of 16] by (simp add: as_int_log assms(1))
  thus ?thesis using length_rq_ring_image [OF assms(2)] by (simp add: as_int_log assms(1) nat_power_eq)
qed

definition rq_dbr_image :: "nat \<Rightarrow> u8 list" where
  "rq_dbr_image n = be32_bytes (ucast (LOG2VALUE n) AND 0xffff) @ be32_bytes (0 AND 0xffff)"

lemma apart_ring_dbr:
  assumes "ring_then_dbr st st' k ring dbr" and "apart (fresh_calls st st')"
  shows "sep ring k dbr 8"
  using assms by (auto simp: ring_then_dbr_def apart_def sorted_wrt_append)

lemma RQ_new_has:
  assumes "RQ_new lib rd n d cqn on_host st = Some (q, st')" and "n \<le> 30" and "\<And>l k a. length (data_seg rd l k a) = 16"
  shows "apart (fresh_calls st st') \<Longrightarrow> has st st' (wq_ring_daddr (wq_transf q))
      (rq_ring_image rd (2 ^ n) (LOG2VALUE d) (wqd_mkey_id (wq_transf q)) (wqd_daddr (wq_transf q)))" (is "_ \<Longrightarrow> has _ _ _ ?image")
    and "has st st' (wq_dbr_daddr (wq_transf q)) (rq_dbr_image n)"
proof -
  let ?t = "wq_transf q"
  from assms(1) obtain mkey st\<^sub>1 st\<^sub>2 st\<^sub>3 v st\<^sub>4 num st\<^sub>5 w where
    a: "rq_area lib n d on_host st = Some ((wqd_daddr ?t, wq_ring_daddr ?t, wq_dbr_daddr ?t, mkey, wqd_mkey_id ?t), st\<^sub>1)"
    and c: "ask lib (Calloc (of_int (as_int (LOG2VALUE n))) 16) st\<^sub>1 = Some (v, st\<^sub>2)"
    and m: "host2dev_memcpy lib ?image (wq_ring_daddr ?t) st\<^sub>2 = Some st\<^sub>3"
    and r: "ask lib (Rq_create cqn n (pd st\<^sub>3) (wq_dbr_daddr ?t) (wq_ring_daddr ?t)) st\<^sub>3 = Some (w, st\<^sub>4)"
      "ask lib (Rq_get_wq_num w) st\<^sub>4 = Some (num, st\<^sub>5)"
    and b: "host2dev_memcpy lib (rq_dbr_image n) (wq_dbr_daddr ?t) st\<^sub>5 = Some st'"
    by (auto simp: RQ_new_def init_dpa_rq_ring_def rq_ring_bytes [OF assms(2,3)] rq_dbr_image_def Let_def split: bind_splits)
  have len: "length ?image = 2 ^ n * 16" by (rule length_rq_ring_image [OF assms(3)])
  have l8: "length (rq_dbr_image n) = 8" by (simp add: rq_dbr_image_def be32_bytes_def)
  have "(2 :: nat) ^ n * 16 \<le> 2 ^ 30 * 16" using assms(2) by (intro mult_mono power_increasing) simp_all
  hence small: "length ?image \<le> 2 ^ 64" by (simp add: len)
  have "ring_then_dbr st st\<^sub>1 (2 ^ n * 16) (wq_ring_daddr ?t) (wq_dbr_daddr ?t)"
    using rq_area_regions [OF a] LOG2VALUE_times_16 [OF assms(2)] by simp
  from ring_then_dbr_grow [OF framed_refl this ask_framed(1) [OF c]]
  have g: "ring_then_dbr st st\<^sub>2 (2 ^ n * 16) (wq_ring_daddr ?t) (wq_dbr_daddr ?t)" .
  hence "framed st st\<^sub>2" "(wq_ring_daddr ?t, length ?image) \<in> set (regions (fresh_calls st st\<^sub>2))"
    and dbr: "(wq_dbr_daddr ?t, 8) \<in> set (regions (fresh_calls st st\<^sub>2))"
    by (auto simp: ring_then_dbr_def len)
  note ring = memcpy_has [OF this(1,2) small m]
  have h5: "has st st\<^sub>5 (wq_ring_daddr ?t) ?image" by (rule has_ask [OF has_ask [OF ring(1) r(1)] r(2)])
  have f3: "framed st st\<^sub>3" "framed st\<^sub>3 st\<^sub>4" "framed st\<^sub>4 st\<^sub>5"
    using ring(1) ask_framed(1) [OF r(1)] ask_framed(1) [OF r(2)] by (simp_all add: has_def)
  have reg5: "regions (fresh_calls st st\<^sub>5) = regions (fresh_calls st st\<^sub>2)"
    using ring(2) fresh_calls_trans [OF f3(1) framed_trans [OF f3(2,3)]] fresh_calls_trans [OF f3(2,3)]
      ask_framed(2) [OF r(1)] ask_framed(2) [OF r(2)] by simp
  have f5: "framed st st\<^sub>5" using h5 by (simp add: has_def)
  have "(wq_dbr_daddr ?t, length (rq_dbr_image n)) \<in> set (regions (fresh_calls st st\<^sub>5))" using dbr reg5 l8 by simp
  note d = memcpy_has [OF f5 this _ b] and k = memcpy_keeps [OF h5 this _ b]
  show dd: "has st st' (wq_dbr_daddr ?t) (rq_dbr_image n)" using d(1) l8 by simp
  assume "apart (fresh_calls st st')"
  hence "apart (fresh_calls st st\<^sub>2)" using d(2) reg5 l8 by (simp add: apart_def)
  hence "sep (wq_ring_daddr ?t) (2 ^ n * 16) (wq_dbr_daddr ?t) 8" by (rule apart_ring_dbr [OF g])
  thus "has st st' (wq_ring_daddr ?t) ?image" using k l8 len by simp
qed

section \<open>Entries\<close>

lemma load_bytes_part: "j + k \<le> n \<Longrightarrow> load_bytes m (p + of_nat j) k = take k (drop j (load_bytes m p n))"
  by (rule nth_equalityI) (simp_all add: add.assoc flip: of_nat_add)

lemma drop_concat_same:
  "i \<le> n \<Longrightarrow> drop (i * length x) (concat (map (\<lambda>_. x) [0..<n])) = concat (map (\<lambda>_. x) [0..<n - i])"
proof (induction i arbitrary: n)
  case 0
  show ?case by simp
next
  case (Suc i)
  then obtain k where n: "n = Suc k" by (cases n) auto
  have c: "concat (map (\<lambda>_. x) [0..<Suc k]) = x @ concat (map (\<lambda>_. x) [0..<k])"
    unfolding upt_conv_Cons [OF zero_less_Suc] map_Suc_upt [symmetric] by (simp add: comp_def)
  show ?case using Suc.IH [of k] Suc.prems unfolding n c by (simp del: upt_Suc add: add.commute flip: drop_drop)
qed

lemma part_concat_same:
  assumes "i < n"
  shows "take (length x) (drop (i * length x) (concat (map (\<lambda>_. x) [0..<n]))) = x"
proof -
  obtain k where "n - i = Suc k" using assms by (cases "n - i") auto
  moreover have "concat (map (\<lambda>_. x) [0..<Suc k]) = x @ concat (map (\<lambda>_. x) [0..<k])"
    unfolding upt_conv_Cons [OF zero_less_Suc] map_Suc_upt [symmetric] by (simp add: comp_def)
  ultimately show ?thesis using drop_concat_same [of i n x] assms by (simp del: upt_Suc)
qed

lemma part_rq_ring_image:
  assumes "\<And>l k a. length (data_seg rd l k a) = 16"
  shows "i < n \<Longrightarrow> take 16 (drop (i * 16) (rq_ring_image rd n c key wqd)) = data_seg rd (ucast c) key (wqd + of_nat i * c)"
proof (induction n arbitrary: i wqd)
  case 0
  thus ?case by simp
next
  case (Suc n)
  show ?case
  proof (cases i)
    case 0
    thus ?thesis using assms by simp
  next
    case (Suc j)
    thus ?thesis using Suc.IH [of j "wqd + c"] \<open>i < Suc n\<close> assms by (simp add: algebra_simps)
  qed
qed

text \<open>
  What the layout functions have to do with the device library: an entry whose owner bit was set to 1 is read back as
  owned, and the address of a data segment is read back.
\<close>

definition rdma_ok :: "flexio \<Rightarrow> rdma \<Rightarrow> bool" where
  "rdma_ok fx rd \<longleftrightarrow> cqe_bsize fx = 64 \<and> rwqe_bsize fx = 16 \<and> length (fresh_cqe rd) = 64 \<and>
     (\<forall>m p. load_bytes m p 64 = fresh_cqe rd \<longrightarrow> cqe_get_owner fx m p = 1) \<and>
     (\<forall>l k a. length (data_seg rd l k a) = 16) \<and>
     (\<forall>m p l k a. load_bytes m p 16 = data_seg rd l k a \<longrightarrow> rwqe_get_addr fx m p = a)"

lemma ring_holds_fresh:
  assumes "load_bytes m ring (length (concat (map (\<lambda>_. fresh_cqe rd) [0..<2 ^ n]))) = concat (map (\<lambda>_. fresh_cqe rd) [0..<2 ^ n])"
    and "rdma_ok fx rd"
  shows "ring_holds fx n ring m 0"
proof -
  let ?x = "fresh_cqe rd"
  have l: "length ?x = 64" "cqe_bsize fx = 64" using assms(2) by (simp_all add: rdma_ok_def)
  have img: "load_bytes m ring (2 ^ n * 64) = concat (map (\<lambda>_. ?x) [0..<2 ^ n])"
    using assms(1) by (simp add: length_concat_same l)
  have "cqe_get_owner fx m (ring + of_nat s * 64) = 1" if "s < 2 ^ n" for s
  proof -
    have "s * 64 + 64 \<le> 2 ^ n * 64" using that by simp
    from load_bytes_part [OF this, of m ring] part_concat_same [OF that, of ?x]
    have "load_bytes m (ring + of_nat (s * 64)) 64 = ?x" by (simp only: img l)
    thus ?thesis using assms(2) by (simp add: rdma_ok_def)
  qed
  thus ?thesis by (simp add: ring_holds_def l)
qed

lemma rq_entries:
  assumes "load_bytes m ring (length (rq_ring_image rd (2 ^ n) (LOG2VALUE d) key wqd)) = rq_ring_image rd (2 ^ n) (LOG2VALUE d) key wqd"
    and "rdma_ok fx rd" and "i < 2 ^ n"
  shows "rwqe_get_addr fx m (ring + of_nat i * rwqe_bsize fx) = wqd + of_nat (i * 2 ^ d)"
proof -
  have l: "\<And>l k a. length (data_seg rd l k a) = 16" and b: "rwqe_bsize fx = 16" using assms(2) by (simp_all add: rdma_ok_def)
  let ?img = "rq_ring_image rd (2 ^ n) (LOG2VALUE d) key wqd"
  have img: "load_bytes m ring (2 ^ n * 16) = ?img"
    using assms(1) by (simp add: length_rq_ring_image [OF l])
  have "i * 16 + 16 \<le> 2 ^ n * 16" using assms(3) by simp
  from load_bytes_part [OF this, of m ring] part_rq_ring_image [OF l assms(3)]
  have "load_bytes m (ring + of_nat (i * 16)) 16 =
    data_seg rd (ucast (LOG2VALUE d)) key (wqd + of_nat i * LOG2VALUE d)" by (simp only: img)
  hence "rwqe_get_addr fx m (ring + of_nat (i * 16)) = wqd + of_nat i * LOG2VALUE d"
    using assms(2) unfolding rdma_ok_def by blast
  thus ?thesis by (simp add: b LOG2VALUE_pow)
qed

section \<open>Send queues\<close>

lemma dbr_framed: "allocate_dbr lib st = Some (a, st') \<Longrightarrow> framed st st'"
  by (drule dbr_has) (simp add: has_def)

lemma window_framed: "get_window_id lib st = Some (w, st') \<Longrightarrow> framed st st'"
  by (auto simp: get_window_id_def dest: ask_framed split: if_splits bind_splits)

lemma mkey_framed: "create_dpa_mkey lib a n f st = Some (k, st') \<Longrightarrow> framed st st'"
  unfolding create_dpa_mkey_def by (rule ask_framed(1))

lemmas framed_calls = ask_framed(1) uar_framed dbr_framed window_framed mkey_framed host_area_framed

text \<open>The region of \<open>k\<close> bytes at \<open>p\<close> was allocated between the two states.\<close>

definition owns :: "host \<Rightarrow> host \<Rightarrow> ptr \<Rightarrow> nat \<Rightarrow> bool" where
  "owns st st' p k \<longleftrightarrow> framed st st' \<and> (p, k) \<in> set (regions (fresh_calls st st'))"

lemma owns_before: "framed st st\<^sub>1 \<Longrightarrow> owns st\<^sub>1 st\<^sub>2 p k \<Longrightarrow> owns st st\<^sub>2 p k"
  by (auto simp: owns_def fresh_calls_trans intro: framed_trans)

lemma owns_later: "owns st st\<^sub>1 p k \<Longrightarrow> framed st\<^sub>1 st\<^sub>2 \<Longrightarrow> owns st st\<^sub>2 p k"
  by (auto simp: owns_def fresh_calls_trans intro: framed_trans)

lemma alloc_owns: "ask lib (Buf_dev_alloc n) st = Some (p, st') \<Longrightarrow> owns st st' p (unat n)"
  by (simp add: owns_def ask_framed)

lemma owns_apart:
  assumes "has st st\<^sub>1 p bs" and "owns st\<^sub>1 st\<^sub>2 q k" and "apart (fresh_calls st st\<^sub>2)"
  shows "sep p (length bs) q k"
proof -
  have "framed st st\<^sub>1" "framed st\<^sub>1 st\<^sub>2" using assms by (simp_all add: has_def owns_def)
  thus ?thesis using assms by (auto simp: has_def owns_def apart_def fresh_calls_trans sorted_wrt_append)
qed

lemma SQ_shared_owns:
  assumes "SQ_shared lib n d cqn rq st = Some (q, st')"
  shows "owns st st' (wq_ring_daddr (wq_transf q)) (unat (LOG2VALUE (n + 6)))"
    and "wqd_daddr (wq_transf q) = wqd_daddr (wq_transf rq)" and "wqd_mkey_id (wq_transf q) = wqd_mkey_id (wq_transf rq)"
  using assms
  by (auto simp: SQ_shared_def Let_def split: bind_splits if_splits)
    (meson owns_before owns_later alloc_owns framed_trans framed_calls)

lemma SQ_new_owns:
  assumes "SQ_new lib n d cqn on_host st = Some (q, st')"
  shows "owns st st' (wq_ring_daddr (wq_transf q)) (unat (LOG2VALUE (n + 6)))"
  using assms
  by (auto simp: SQ_new_def allocate_sq_host_memory_def allocate_sq_dpa_memory_def split: bind_splits if_splits)
    (meson owns_before owns_later alloc_owns framed_trans framed_calls)+

lemma apart_mid:
  assumes "framed st st\<^sub>1" and "framed st\<^sub>1 st\<^sub>2" and "framed st\<^sub>2 st\<^sub>3" and "apart (fresh_calls st st\<^sub>3)"
  shows "apart (fresh_calls st\<^sub>1 st\<^sub>2)" and "apart (fresh_calls st st\<^sub>2)"
  using assms(4) unfolding apart_def fresh_calls_trans [OF assms(1) framed_trans [OF assms(2,3)]]
    fresh_calls_trans [OF assms(1,2)] fresh_calls_trans [OF assms(2,3)]
  by (simp_all add: sorted_wrt_append)

section \<open>What a device program finds\<close>

definition queue_images :: "rdma \<Rightarrow> queue_opts \<Rightarrow> queues \<Rightarrow> (ptr \<times> u8 list) list" where
  "queue_images rd opts q =
     [(cq_ring_daddr (cq_transf (q_rq_cq q)), concat (map (\<lambda>_. fresh_cqe rd) [0..<2 ^ cq_depth opts])),
      (cq_ring_daddr (cq_transf (q_sq_cq q)), concat (map (\<lambda>_. fresh_cqe rd) [0..<2 ^ cq_depth opts])),
      (wq_ring_daddr (wq_transf (q_rq q)), rq_ring_image rd (2 ^ rq_depth opts) (LOG2VALUE (data_bsize opts))
         (wqd_mkey_id (wq_transf (q_rq q))) (wqd_daddr (wq_transf (q_rq q)))),
      (wq_dbr_daddr (wq_transf (q_rq q)), rq_dbr_image (rq_depth opts))]"

definition small_rings :: "queue_opts \<Rightarrow> bool" where
  "small_rings opts \<longleftrightarrow> cq_depth opts \<le> 24 \<and> rq_depth opts \<le> 24 \<and> sq_depth opts \<le> 24"

lemma unat_LOG2VALUE: "n < 64 \<Longrightarrow> unat (LOG2VALUE n) = 2 ^ n"
  using power_strict_increasing [of n 64 "2 :: nat"] by (simp add: LOG2VALUE_pow unat_of_nat flip: of_nat_power)

lemma make_queues_has:
  assumes "make_queues lib rd opts i st = Some (q, st')" and "small_rings opts"
    and "length (fresh_cqe rd) = 64" and "\<And>l k a. length (data_seg rd l k a) = 16"
  shows "owns st st' (wq_ring_daddr (wq_transf (q_sq q))) (2 ^ sq_depth opts * 64)"
    and "apart (fresh_calls st st') \<Longrightarrow> (p, bs) \<in> set (queue_images rd opts q) \<Longrightarrow>
      has st st' p bs \<and> sep p (length bs) (wq_ring_daddr (wq_transf (q_sq q))) (2 ^ sq_depth opts * 64)"
    and "tx_shared_rx_buffer opts \<Longrightarrow> wqd_daddr (wq_transf (q_sq q)) = wqd_daddr (wq_transf (q_rq q)) \<and>
      wqd_mkey_id (wq_transf (q_sq q)) = wqd_mkey_id (wq_transf (q_rq q))"
proof -
  let ?c = "cq_depth opts" and ?s = "sq_depth opts"
  have le: "?c \<le> 30" "rq_depth opts \<le> 30" "?s + 6 < 64" using assms(2) by (simp_all add: small_rings_def)
  obtain rcq scq r s where q: "q = \<lparr>q_rq_cq = rcq, q_sq_cq = scq, q_rq = r, q_sq = s\<rparr>" by (cases q)
  from assms(1) obtain st\<^sub>1 st\<^sub>2 n st\<^sub>3 st\<^sub>4 k st\<^sub>5 where
    c: "CQ_new lib rd True ?c i st = Some (rcq, st\<^sub>1)" "CQ_new lib rd False ?c i st\<^sub>1 = Some (scq, st\<^sub>2)"
    and n: "ask lib (Cq_get_cq_num (inner_cq_ptr rcq)) st\<^sub>2 = Some (n, st\<^sub>3)"
    and r: "RQ_new lib rd (rq_depth opts) (data_bsize opts) (ucast n) (rq_buffer_on_host opts) st\<^sub>3 = Some (r, st\<^sub>4)"
    and k: "ask lib (Cq_get_cq_num (inner_cq_ptr scq)) st\<^sub>4 = Some (k, st\<^sub>5)"
    and s: "(if tx_shared_rx_buffer opts then SQ_shared lib ?s (sq_data_bsize opts) (ucast k) r st\<^sub>5
      else SQ_new lib ?s (sq_data_bsize opts) (ucast k) (sq_buffer_on_host opts) st\<^sub>5) = Some (s, st')"
    unfolding q by (auto simp: make_queues_def split: bind_splits)
  note h1 = CQ_new_has [OF c(1) le(1) assms(3)] and h2 = CQ_new_has [OF c(2) le(1) assms(3)] and h4 = RQ_new_has [OF r le(2) assms(4)]
  have f12: "framed st st\<^sub>1" "framed st\<^sub>1 st\<^sub>2" using h1 h2 by (simp_all add: has_def)
  have f3: "framed st st\<^sub>3" using framed_trans [OF f12] ask_framed(1) [OF n] by (rule framed_trans)
  have f34: "framed st\<^sub>3 st\<^sub>4" using h4(2) by (simp add: has_def)
  have "owns st\<^sub>5 st' (wq_ring_daddr (wq_transf s)) (unat (LOG2VALUE (?s + 6)))"
    using s SQ_shared_owns(1) SQ_new_owns by (auto split: if_splits)
  hence o4: "owns st\<^sub>4 st' (wq_ring_daddr (wq_transf s)) (2 ^ ?s * 64)"
    using owns_before [OF ask_framed(1) [OF k]] unat_LOG2VALUE [OF le(3)] by (simp add: power_add)
  show "owns st st' (wq_ring_daddr (wq_transf (q_sq q))) (2 ^ ?s * 64)" using owns_before [OF framed_trans [OF f3 f34] o4] by (simp add: q)
  show "tx_shared_rx_buffer opts \<Longrightarrow> wqd_daddr (wq_transf (q_sq q)) = wqd_daddr (wq_transf (q_rq q)) \<and>
      wqd_mkey_id (wq_transf (q_sq q)) = wqd_mkey_id (wq_transf (q_rq q))"
    using s SQ_shared_owns(2,3) by (simp add: q)
  have f4: "framed st\<^sub>4 st'" using o4 by (simp add: owns_def)
  assume ap: "apart (fresh_calls st st')" and im: "(p, bs) \<in> set (queue_images rd opts q)"
  note ap34 = apart_mid [OF f3 f34 f4 ap]
  have f23: "framed st\<^sub>2 st\<^sub>4" "framed st\<^sub>1 st\<^sub>4"
    using ask_framed(1) [OF n] f34 f12 by (blast intro: framed_trans)+
  have "has st st\<^sub>4 p bs"
    using im has_later [OF h1 f23(2) ap34(2)] has_later [OF has_before [OF f12(1) h2] f23(1) ap34(2)]
      has_before [OF f3 h4(1) [OF ap34(1)]] has_before [OF f3 h4(2)] by (auto simp: queue_images_def q)
  thus "has st st' p bs \<and> sep p (length bs) (wq_ring_daddr (wq_transf (q_sq q))) (2 ^ ?s * 64)"
    using has_later [OF _ f4 ap] owns_apart [OF _ o4 ap] by (simp add: q)
qed

text \<open>A completion queue at the start of the ownership protocol: nothing produced, nothing consumed.\<close>

definition cq_starts :: "flexio \<Rightarrow> nat \<Rightarrow> memory \<Rightarrow> cq_ctx_t \<Rightarrow> bool" where
  "cq_starts fx n m cq \<longleftrightarrow> n \<le> 31 \<and> cq_inv fx n cq \<and> cq_idx cq = 0 \<and> ring_holds fx n (cq_ring cq) m 0"

lemma cq_starts_nic_inv: "cq_starts fx n (mem d) (cqc c) = nic_inv fx n cqc (0, 0, d, c)"
  by (auto simp: cq_starts_def nic_inv_def)

lemma cq_starts_not_ready:
  assumes "cq_starts fx n m cq"
  shows "\<not> cqe_ready fx m cq"
  using ready_iff_pending [of fx n id 0 0 "\<lparr>mem = m, trace = [], clk = 0\<rparr>" cq] assms
    cq_starts_nic_inv [of fx n "\<lparr>mem = m, trace = [], clk = 0\<rparr>" id cq] by simp

text \<open>
  What a device program relies on, given its completion and send queues as it has set them up: both completion queues
  are at the start of the protocol; the entries of the receive ring point to consecutive parts of the data area; the
  doorbell record announces all of them; the device and the host agree on the depth of the send ring; and a shared
  data area is the same for both.
\<close>

definition queues_ready :: "flexio \<Rightarrow> queue_opts \<Rightarrow> queue_config_data \<Rightarrow> memory \<Rightarrow> cq_ctx_t \<Rightarrow> cq_ctx_t \<Rightarrow> sq_ctx_t \<Rightarrow> bool" where
  "queues_ready fx opts cfg m rcq scq s \<longleftrightarrow>
     cq_starts fx (cq_depth opts) m rcq \<and> cq_starts fx (cq_depth opts) m scq \<and>
     (\<forall>i < 2 ^ rq_depth opts. rwqe_get_addr fx m (wq_ring_daddr (rq_data cfg) + of_nat i * rwqe_bsize fx) =
        wqd_daddr (rq_data cfg) + of_nat (i * 2 ^ data_bsize opts)) \<and>
     load_bytes m (wq_dbr_daddr (rq_data cfg)) 8 = rq_dbr_image (rq_depth opts) \<and>
     sq_idx_mask s = ring_mask (sq_depth opts + log_sqe_num_segs fx) \<and>
     (tx_shared_rx_buffer opts \<longrightarrow> wqd_daddr (sq_data cfg) = wqd_daddr (rq_data cfg) \<and>
        wqd_mkey_id (sq_data cfg) = wqd_mkey_id (rq_data cfg))"

text \<open>A configuration that describes the queues \<open>q\<close>; a program may use the key of its send queue for something else.\<close>

definition config_of :: "queue_opts \<Rightarrow> queues \<Rightarrow> queue_config_data \<Rightarrow> bool" where
  "config_of opts q cfg \<longleftrightarrow>
     rq_cq_data cfg = cq_transf (q_rq_cq q) \<and> sq_cq_data cfg = cq_transf (q_sq_cq q) \<and> rq_data cfg = wq_transf (q_rq q) \<and>
     wq_ring_daddr (sq_data cfg) = wq_ring_daddr (wq_transf (q_sq q)) \<and> wqd_daddr (sq_data cfg) = wqd_daddr (wq_transf (q_sq q)) \<and>
     (tx_shared_rx_buffer opts \<longrightarrow> wqd_mkey_id (sq_data cfg) = wqd_mkey_id (wq_transf (q_sq q)))"

lemma config_of_queue_config: "config_of opts q (queue_config q i addr key)"
  by (simp add: config_of_def queue_config_def)

lemma queues_ready_images:
  assumes "\<And>p bs. (p, bs) \<in> set (queue_images rd opts q) \<Longrightarrow> load_bytes m p (length bs) = bs"
    and "rdma_ok fx rd" and "small_rings opts" and "config_of opts q cfg"
    and "rcq = init_cq_at (cq_depth opts) (rq_cq_data cfg) c" and "scq = init_cq_at (cq_depth opts) (sq_cq_data cfg) c'"
    and "sq_idx_mask s = ring_mask (sq_depth opts + log_sqe_num_segs fx)"
    and "tx_shared_rx_buffer opts \<Longrightarrow> wqd_daddr (wq_transf (q_sq q)) = wqd_daddr (wq_transf (q_rq q)) \<and>
      wqd_mkey_id (wq_transf (q_sq q)) = wqd_mkey_id (wq_transf (q_rq q))"
  shows "queues_ready fx opts cfg m rcq scq s"
proof -
  let ?r = "wq_transf (q_rq q)"
  have d: "cq_depth opts \<le> 31" using assms(3) by (simp add: small_rings_def)
  have st: "cq_starts fx (cq_depth opts) m rcq" "cq_starts fx (cq_depth opts) m scq"
    unfolding cq_starts_def assms(5,6) using d assms(2,4)
    by (auto simp: init_cq_at_inv config_of_def queue_images_def intro!: ring_holds_fresh assms(1))
  have en: "rwqe_get_addr fx m (wq_ring_daddr ?r + of_nat i * rwqe_bsize fx) = wqd_daddr ?r + of_nat (i * 2 ^ data_bsize opts)"
    if "i < 2 ^ rq_depth opts" for i
    using that by (intro rq_entries [where key = "wqd_mkey_id ?r", OF assms(1) assms(2)]) (simp_all add: queue_images_def)
  have "length (rq_dbr_image (rq_depth opts)) = 8" by (simp add: rq_dbr_image_def be32_bytes_def)
  hence db: "load_bytes m (wq_dbr_daddr ?r) 8 = rq_dbr_image (rq_depth opts)"
    using assms(1) [of "wq_dbr_daddr ?r" "rq_dbr_image (rq_depth opts)"] by (simp add: queue_images_def)
  show ?thesis using st en db assms(4,7,8) by (auto simp: queues_ready_def config_of_def)
qed

section \<open>Calls that do not write device memory\<close>

lemma ask_any_framed: "ask_any lib c st = (v, st') \<Longrightarrow> framed st st'"
  by (auto simp: ask_any_def framed_def fresh_calls_def Let_def)

lemma DR_new_framed: "DR_new lib t st = (d, st') \<Longrightarrow> framed st st'"
  unfolding DR_new_def by (rule ask_any_framed)

lemma create_flow_table_framed: "create_flow_table lib d l p mt st = (t, st') \<Longrightarrow> framed st st'"
  by (auto simp: create_flow_table_def split: prod.splits dest!: ask_any_framed intro: framed_trans)

lemma rule_framed:
  "add_dest_devx_tir lib q as st = Some (bs, st') \<Longrightarrow> framed st st'"
  "add_dest_table lib t as st = Some (bs, st') \<Longrightarrow> framed st st'"
  "add_dest_vport lib d v as st = Some (bs, st') \<Longrightarrow> framed st st'"
  "create_dr_rule lib u mt as st = Some (r, st') \<Longrightarrow> framed st st'"
  by (auto simp: add_dest_devx_tir_def add_dest_table_def add_dest_vport_def create_dr_rule_def Let_def
      dest!: ask_any_framed ask_framed(1) split: bind_splits if_splits prod.splits intro: framed_trans)

lemma event_handler_run_framed: "event_handler_run lib a i st = Some st' \<Longrightarrow> framed st st'"
  by (auto simp: event_handler_run_def dest: ask_framed split: bind_splits)

lemma create_event_handler_framed: "create_event_handler lib f st = Some (h, st') \<Longrightarrow> framed st st'"
  by (auto simp: create_event_handler_def ask_def framed_def fresh_calls_def split: bind_splits)

lemma move_to_dev_framed: "move_to_dev lib bs st = Some (a, st') \<Longrightarrow> framed st st'"
  unfolding move_to_dev_def by (rule copy_framed(1))

lemmas framed_rules = DR_new_framed create_flow_table_framed rule_framed

section \<open>What the device writes\<close>

text \<open>The functions of the device library that fill a segment of a send entry write that segment only.\<close>

definition segments_local :: "flexio \<Rightarrow> bool" where
  "segments_local fx \<longleftrightarrow> sqe_seg_bsize fx = 16 \<and> log_sqe_num_segs fx = 2 \<and>
     (\<forall>p a m. \<not> inside a p 16 \<longrightarrow> swqe_seg_eth_set fx p m a = m a) \<and>
     (\<forall>p a m i n. \<not> inside a p 16 \<longrightarrow> swqe_seg_ctrl_set fx p i n m a = m a) \<and>
     (\<forall>p a m z key b. \<not> inside a p 16 \<longrightarrow> swqe_seg_mem_ptr_data_set fx p z key b m a = m a)"

lemma send_ring_outside:
  assumes "segments_local fx" and "\<not> inside a ring (n * 64)" and "n \<le> 2 ^ 24"
  shows "k \<le> n \<Longrightarrow> fold (send_entry_ref fx ring num key) [0..<k] m a = m a"
proof (induction k)
  case 0
  show ?case by simp
next
  case (Suc k)
  have o: "\<not> inside a (ring + of_nat (4 * k + j) * 16) 16" if "j < 4" for j
    using outside_sub [OF assms(2), of "(4 * k + j) * 16" 16] Suc.prems that assms(3) by simp
  show ?case
    using Suc assms(1) o [of 0] o [of 1] o [of 2] by (simp add: send_entry_ref_def segments_local_def)
qed

lemma init_send_sq_at:
  assumes "segments_local fx" and "k \<le> 24"
  shows "init_send_sq fx (init_sq_at fx k w s) (ucast (LOG2VALUE k)) key d =
    (upd_mem (fold (send_entry_ref fx (wq_ring_daddr w) (wq_num w) key) [0..<2 ^ k]) d, init_sq_at fx k w s)"
proof -
  have l: "log_sqe_num_segs fx = 2" using assms(1) by (simp add: segments_local_def)
  have "(2 :: nat) ^ k < 2 ^ 32" using assms(2) by (intro power_strict_increasing) simp_all
  hence sz: "unat (ucast (LOG2VALUE k) :: u32) = 2 ^ k"
    using assms(2) by (simp add: unsigned_ucast_eq unat_LOG2VALUE take_bit_nat_eq_self)
  show ?thesis using init_send_sq_ref [of "init_sq_at fx k w s" k "ucast (LOG2VALUE k)"] assms(2) l unfolding sz by simp
qed

lemma init_send_sq_frame:
  assumes "segments_local fx" and "k \<le> n" "n \<le> 24" and "\<not> inside a (wq_ring_daddr w) (2 ^ n * 64)"
  shows "mem (fst (init_send_sq fx (init_sq_at fx k w s) (ucast (LOG2VALUE k)) key d)) a = mem d a"
proof -
  have "(2 :: nat) ^ k \<le> 2 ^ n" "(2 :: nat) ^ n \<le> 2 ^ 24" using assms(2,3) by (intro power_increasing; simp)+
  thus ?thesis using send_ring_outside [OF assms(1,4)] assms(2,3) by (simp add: init_send_sq_at [OF assms(1)] upd_mem_def)
qed

lemma init_send_sq_snd: "segments_local fx \<Longrightarrow> k \<le> 24 \<Longrightarrow>
  snd (init_send_sq fx (init_sq_at fx k w s) (ucast (LOG2VALUE k)) key d) = init_sq_at fx k w s"
  by (simp add: init_send_sq_at)

text \<open>Writes of the device inside a region that was handed out.\<close>

lemma framed_write:
  assumes "owns st st\<^sub>1 ring k" and "\<And>a. \<not> inside a ring k \<Longrightarrow> m a = dev_mem st\<^sub>1 a"
  shows "framed st (st\<^sub>1\<lparr>dev_mem := m\<rparr>)" and "fresh_calls st (st\<^sub>1\<lparr>dev_mem := m\<rparr>) = fresh_calls st st\<^sub>1"
proof -
  show f: "fresh_calls st (st\<^sub>1\<lparr>dev_mem := m\<rparr>) = fresh_calls st st\<^sub>1" by (simp add: fresh_calls_def)
  have "m a = dev_mem st a" if "\<forall>(b, l) \<in> set (regions (fresh_calls st st\<^sub>1)). \<not> inside a b l" for a
  proof -
    have "\<not> inside a ring k" using that assms(1) by (auto simp: owns_def)
    thus ?thesis using assms(2) [of a] that assms(1) by (simp add: owns_def framed_def)
  qed
  thus "framed st (st\<^sub>1\<lparr>dev_mem := m\<rparr>)" using assms(1) unfolding framed_def f by (simp add: owns_def framed_def)
qed

lemma has_write:
  assumes "has st st\<^sub>1 p bs" and "owns st st\<^sub>1 ring k" and "\<And>a. \<not> inside a ring k \<Longrightarrow> m a = dev_mem st\<^sub>1 a"
    and "sep p (length bs) ring k"
  shows "has st (st\<^sub>1\<lparr>dev_mem := m\<rparr>) p bs"
proof -
  have "load_bytes m p (length bs) = load_bytes (dev_mem st\<^sub>1) p (length bs)"
  proof (rule load_bytes_cong)
    fix i assume "i < length bs"
    hence "\<not> inside (p + of_nat i) ring k" using assms(1,4) sep_outside inside_off by (auto simp: has_def)
    thus "m (p + of_nat i) = dev_mem st\<^sub>1 (p + of_nat i)" by (rule assms(3))
  qed
  thus ?thesis using assms(1) framed_write [OF assms(2,3)] by (simp add: has_def)
qed

end
