(* ===== verification/Host_Setup.thy ===== *)
theory Host_Setup
  imports Host_Memory Magic_Scan Hostrq Send
begin

text \<open>
  The host programs that start one device thread: \<open>main.cpp\<close> of \<open>flexio/dpa_refactor\<close>, \<open>dpa_refactor_workingset\<close>,
  \<open>dpa_refactor_random_access\<close>, \<open>dpa_refactor_ddio\<close>, \<open>dpa_refactor_test_hostrq\<close>, \<open>dpa_send\<close> and \<open>dpa_send_ntp\<close>.  They
  have the same text up to the constants, so they are instances of the steps below.  The locale \<open>device_program\<close> is
  what the host needs to know of a device program's initialisation; inside it, the start of the device program from
  the memory that the host has prepared is shown once for all of them.

  A program runs up to the loop that waits for a signal.  Command line, printing and signals are left out.
\<close>

section \<open>Starting a device program\<close>

text \<open>What a host program gets from outside: the libraries, the image of a configuration in memory, the device code
  and the event handler, two constants of the steering library, the devices of the machine and the name to use.\<close>

record host_env =
  env_lib :: hostlib
  env_rdma :: rdma
  config_bytes :: "queue_config_data \<Rightarrow> u8 list"
  app_device :: u64
  handler_func :: u64
  NIC_RX :: u64
  FDB :: u64
  dev_list :: "string list option"
  dev_name :: string

definition start_context :: "host_env \<Rightarrow> memory \<Rightarrow> host option" where
  "start_context E m = do {
     st \<leftarrow> Context_new (env_lib E) (dev_list E) (dev_name E) m;
     st \<leftarrow> alloc_pd (env_lib E) st;
     st \<leftarrow> create_process (env_lib E) (app_device E) st;
     st \<leftarrow> create_window (env_lib E) st;
     generate_flexio_uar (env_lib E) st }"

text \<open>The rules: frames to \<open>mac\<close> go to the receive queue, frames from it to the wire.\<close>

definition mac_rules :: "host_env \<Rightarrow> u64 \<Rightarrow> bool \<Rightarrow> wq_obj \<Rightarrow> host \<Rightarrow> host option" where
  "mac_rules E mac nic_mode r st = do {
     let lib = env_lib E;
     let rd = env_rdma E;
     let (rx_dr, st) = DR_new lib (NIC_RX E) st;
     let matcher = set_dst_mac_mask rd clear;
     let (rx_table, st) = create_flow_table lib rx_dr 0 0 matcher st;
     (rx_actions, st) \<leftarrow> add_dest_devx_tir lib (inner_wq_ptr r) [] st;
     let matcher = set_dst_mac rd mac matcher;
     (_, st) \<leftarrow> create_dr_rule lib rx_table matcher rx_actions st;
     let (tx_dr, st) = DR_new lib (FDB E) st;
     let matcher = set_src_mac_mask rd clear;
     let (root_table, st) = create_flow_table lib tx_dr 0 0 matcher st;
     let (tx_table, st) = create_flow_table lib tx_dr 1 0 matcher st;
     (root_actions, st) \<leftarrow> add_dest_table lib (dr_table tx_table) [] st;
     (tx_actions, st) \<leftarrow> add_dest_vport lib tx_dr 0xFFFF [] st;
     let matcher = set_src_mac rd mac matcher;
     st \<leftarrow> (if \<not> nic_mode then map_option snd (create_dr_rule lib root_table matcher root_actions st) else Some st);
     map_option snd (create_dr_rule lib tx_table matcher tx_actions st) }"

text \<open>The configuration is copied to the device, whose initialisation runs on device memory; then the rules are made
  and the event handler is started.\<close>

definition call_init ::
  "host_env \<Rightarrow> (queue_config_data \<Rightarrow> dpa \<times> 'c \<Rightarrow> dpa \<times> 'c) \<Rightarrow> queue_config_data \<Rightarrow> dpa \<times> 'c \<Rightarrow> host \<Rightarrow> ((dpa \<times> 'c) \<times> host) option" where
  "call_init E init cfg s st = do {
     (a, st) \<leftarrow> move_to_dev (env_lib E) (config_bytes E cfg) st;
     (_, st) \<leftarrow> ask (env_lib E) (Process_call (process st) a) st;
     let s = init cfg ((fst s)\<lparr>mem := dev_mem st\<rparr>, snd s);
     Some (s, st\<lparr>dev_mem := mem (fst s)\<rparr>) }"

definition launch ::
  "host_env \<Rightarrow> u64 \<Rightarrow> bool \<Rightarrow> (queue_config_data \<Rightarrow> dpa \<times> 'c \<Rightarrow> dpa \<times> 'c) \<Rightarrow> queue_config_data \<Rightarrow> wq_obj \<Rightarrow> dpa \<times> 'c \<Rightarrow> host \<Rightarrow>
   ((queue_config_data \<times> dpa \<times> 'c) \<times> host) option" where
  "launch E mac nic_mode init cfg r s st = do {
     (s, st) \<leftarrow> call_init E init cfg s st;
     st \<leftarrow> mac_rules E mac nic_mode r st;
     st \<leftarrow> event_handler_run (env_lib E) 0 0 st;
     Some ((cfg, (fst s)\<lparr>mem := dev_mem st\<rparr>, snd s), st) }"

definition single_main ::
  "host_env \<Rightarrow> queue_opts \<Rightarrow> u64 \<Rightarrow> bool \<Rightarrow> (queue_config_data \<Rightarrow> dpa \<times> 'c \<Rightarrow> dpa \<times> 'c) \<Rightarrow> dpa \<times> 'c \<Rightarrow>
   ((queue_config_data \<times> dpa \<times> 'c) \<times> host) option" where
  "single_main E opts mac nic_mode init s = do {
     st \<leftarrow> start_context E (mem (fst s));
     (_, st) \<leftarrow> create_event_handler (env_lib E) (handler_func E) st;
     (q, st) \<leftarrow> make_queues (env_lib E) (env_rdma E) opts 0 st;
     (w, st) \<leftarrow> get_window_id (env_lib E) st;
     launch E mac nic_mode init (queue_config q 0 0 w) (q_rq q) s st }"

section \<open>The programs\<close>

definition SELF_MAC :: u64 where "SELF_MAC = 0x010101010101"

definition refactor_opts :: "bool \<Rightarrow> bool \<Rightarrow> queue_opts" where
  "refactor_opts on_host shared = \<lparr>cq_depth = 7, rq_depth = 7, data_bsize = 10, sq_depth = 7, sq_data_bsize = 10,
     rq_buffer_on_host = on_host, tx_shared_rx_buffer = shared, sq_buffer_on_host = False\<rparr>"

definition refactor_main ::
  "host_env \<Rightarrow> flexio \<Rightarrow> bool \<Rightarrow> bool \<Rightarrow> bool \<Rightarrow> dpa \<Rightarrow> ((queue_config_data \<times> dpa \<times> refactor_ctx) \<times> host) option" where
  "refactor_main E fx on_host shared nic_mode d =
     single_main E (refactor_opts on_host shared) SELF_MAC nic_mode (\<lambda>q s. snd (dpa_refactor_device_init fx q s)) (d, dev_ctx_refactor)"

definition workingset_opts :: "bool \<Rightarrow> bool \<Rightarrow> queue_opts" where
  "workingset_opts on_host shared = \<lparr>cq_depth = 7, rq_depth = 7, data_bsize = 11, sq_depth = 7, sq_data_bsize = 11,
     rq_buffer_on_host = on_host, tx_shared_rx_buffer = shared, sq_buffer_on_host = False\<rparr>"

definition workingset_main ::
  "host_env \<Rightarrow> flexio \<Rightarrow> bool \<Rightarrow> bool \<Rightarrow> bool \<Rightarrow> dpa \<times> random_ctx \<Rightarrow> ((queue_config_data \<times> dpa \<times> random_ctx) \<times> host) option" where
  "workingset_main E fx on_host shared nic_mode s =
     single_main E (workingset_opts on_host shared) SELF_MAC nic_mode (\<lambda>q s. snd (dpa_refactor_workingset_device_init fx q s)) s"

definition random_opts :: "bool \<Rightarrow> bool \<Rightarrow> queue_opts" where
  "random_opts on_host shared = \<lparr>cq_depth = 12, rq_depth = 12, data_bsize = 11, sq_depth = 12, sq_data_bsize = 11,
     rq_buffer_on_host = on_host, tx_shared_rx_buffer = shared, sq_buffer_on_host = False\<rparr>"

definition random_main ::
  "host_env \<Rightarrow> flexio \<Rightarrow> bool \<Rightarrow> bool \<Rightarrow> bool \<Rightarrow> dpa \<times> random_ctx \<Rightarrow> ((queue_config_data \<times> dpa \<times> random_ctx) \<times> host) option" where
  "random_main E fx on_host shared nic_mode s =
     single_main E (random_opts on_host shared) SELF_MAC nic_mode (\<lambda>q s. snd (dpa_refactor_random_access_device_init fx q s)) s"

definition send_opts :: "bool \<Rightarrow> bool \<Rightarrow> bool \<Rightarrow> queue_opts" where
  "send_opts on_host shared tx_on_host = \<lparr>cq_depth = 7, rq_depth = 7, data_bsize = 10, sq_depth = 7, sq_data_bsize = 10,
     rq_buffer_on_host = on_host, tx_shared_rx_buffer = shared, sq_buffer_on_host = tx_on_host\<rparr>"

text \<open>The two generators then ask the device for the first packet.\<close>

definition first_packet_call ::
  "host_env \<Rightarrow> (dpa \<times> 'c \<Rightarrow> u64 \<times> dpa \<times> 'c) \<Rightarrow> queue_config_data \<times> dpa \<times> 'c \<Rightarrow> host \<Rightarrow> ((queue_config_data \<times> dpa \<times> 'c) \<times> host) option" where
  "first_packet_call E first = (\<lambda>(cfg, s) st. do {
     (_, st) \<leftarrow> ask (env_lib E) (Process_call (process st) 0) st;
     let (_, s) = first s;
     Some ((cfg, s), st\<lparr>dev_mem := mem (fst s)\<rparr>) })"

definition send_main ::
  "host_env \<Rightarrow> u16 \<times> u16 \<Rightarrow> flexio \<Rightarrow> bool \<Rightarrow> bool \<Rightarrow> bool \<Rightarrow> bool \<Rightarrow> dpa \<times> send_ctx \<Rightarrow>
   ((queue_config_data \<times> dpa \<times> send_ctx) \<times> host) option" where
  "send_main E ck fx on_host shared tx_on_host nic_mode s = do {
     (s, st) \<leftarrow> single_main E (send_opts on_host shared tx_on_host) (addr_to_num SRC_ADDR_send) nic_mode
       (\<lambda>q s. snd (dpa_send_device_init fx q s)) s;
     first_packet_call E (dpa_send_deivce_first_packet ck fx) s st }"

definition send_ntp_main ::
  "host_env \<Rightarrow> u16 \<times> u16 \<Rightarrow> flexio \<Rightarrow> bool \<Rightarrow> bool \<Rightarrow> bool \<Rightarrow> bool \<Rightarrow> dpa \<times> send_ctx \<Rightarrow>
   ((queue_config_data \<times> dpa \<times> send_ctx) \<times> host) option" where
  "send_ntp_main E ck fx on_host shared tx_on_host nic_mode s = do {
     (s, st) \<leftarrow> single_main E (send_opts on_host shared tx_on_host) (addr_to_num SRC_ADDR_send) nic_mode
       (\<lambda>q s. snd (dpa_send_ntp_device_init fx q s)) s;
     first_packet_call E (dpa_send_ntp_deivce_first_packet ck fx) s st }"

definition SELF_MAC_ddio :: u64 where "SELF_MAC_ddio = 0xa088c231f7e6"

definition ddio_opts :: "bool \<Rightarrow> queue_opts" where
  "ddio_opts on_host = \<lparr>cq_depth = 10, rq_depth = 10, data_bsize = 10, sq_depth = 13, sq_data_bsize = 12,
     rq_buffer_on_host = on_host, tx_shared_rx_buffer = False, sq_buffer_on_host = False\<rparr>"

definition ddio_main ::
  "host_env \<Rightarrow> flexio \<Rightarrow> bool \<Rightarrow> dpa \<times> ddio_ctx \<Rightarrow> ((queue_config_data \<times> dpa \<times> ddio_ctx) \<times> host) option" where
  "ddio_main E fx on_host s =
     single_main E (ddio_opts on_host) SELF_MAC_ddio False (\<lambda>q s. snd (snd (dpa_ddio_device_init fx q s))) s"

text \<open>The host-receive-queue experiment makes its window last and gives the device another data area.\<close>

definition TARGET_MAC_hostrq :: u64 where "TARGET_MAC_hostrq = 0xa088c231f7ee"

definition hostrq_opts :: queue_opts where
  "hostrq_opts = \<lparr>cq_depth = 11, rq_depth = 11, data_bsize = 10, sq_depth = 13, sq_data_bsize = 12,
     rq_buffer_on_host = True, tx_shared_rx_buffer = False, sq_buffer_on_host = False\<rparr>"

definition hostrq_main ::
  "host_env \<Rightarrow> flexio \<Rightarrow> dpa \<times> hostrq_ctx \<Rightarrow> ((queue_config_data \<times> dpa \<times> hostrq_ctx) \<times> host) option" where
  "hostrq_main E fx s = do {
     let lib = env_lib E;
     st \<leftarrow> Context_new lib (dev_list E) (dev_name E) (mem (fst s));
     st \<leftarrow> alloc_pd lib st;
     st \<leftarrow> create_process lib (app_device E) st;
     st \<leftarrow> generate_flexio_uar lib st;
     st \<leftarrow> create_window lib st;
     (_, st) \<leftarrow> create_event_handler lib (handler_func E) st;
     (q, st) \<leftarrow> make_queues lib (env_rdma E) hostrq_opts 0 st;
     (new_dpa_buffer, st) \<leftarrow> ask lib (Buf_dev_alloc (LOG2VALUE (11 + 10))) st;
     (tmp_key, st) \<leftarrow> create_dpa_mkey lib new_dpa_buffer (11 + 10) [LOCAL_WRITE, REMOTE_WRITE] st;
     (key, st) \<leftarrow> ask lib (Mkey_get_id tmp_key) st;
     launch E TARGET_MAC_hostrq False (\<lambda>q s. snd (snd (dpa_hostrq_device_init fx q s)))
       (queue_config q 0 new_dpa_buffer (ucast key)) (q_rq q) s st }"

section \<open>From the host to the receive loop\<close>

lemma start_context_calls: "start_context E m = Some st \<Longrightarrow> regions (done_calls st) = []"
  by (auto simp: start_context_def Context_new_def alloc_pd_def create_process_def create_window_def generate_flexio_uar_def ask_def
      split: bind_splits if_splits)

lemma mac_rules_framed: "mac_rules E mac nic_mode r st = Some st' \<Longrightarrow> framed st st'"
  by (auto simp: mac_rules_def Let_def split: bind_splits if_splits prod.splits dest!: framed_rules) (meson framed_trans)+

definition grows :: "host \<Rightarrow> host \<Rightarrow> bool" where
  "grows st st' \<longleftrightarrow> (\<exists>cs. done_calls st' = done_calls st @ cs)"

lemma framed_grows: "framed st st' \<Longrightarrow> grows st st'"
  by (auto simp: framed_def grows_def)

lemma grows_trans: "grows st st\<^sub>1 \<Longrightarrow> grows st\<^sub>1 st\<^sub>2 \<Longrightarrow> grows st st\<^sub>2"
  by (auto simp: grows_def)

lemma apart_grows:
  assumes "framed st st\<^sub>1" and "grows st\<^sub>1 st\<^sub>2" and "apart (fresh_calls st st\<^sub>2)"
  shows "apart (fresh_calls st st\<^sub>1)"
proof -
  obtain cs where "done_calls st\<^sub>2 = done_calls st\<^sub>1 @ cs" using assms(2) by (auto simp: grows_def)
  hence "fresh_calls st st\<^sub>2 = fresh_calls st st\<^sub>1 @ cs" using assms(1) by (intro fresh_calls_append) (simp add: framed_def)
  thus ?thesis using assms(3) by (simp add: apart_def sorted_wrt_append)
qed

lemma make_queues_Sq_create:
  assumes "make_queues lib rd opts i st = Some (q, st')" and "\<not> tx_shared_rx_buffer opts"
  shows "\<exists>u p a v. (Sq_create u (sq_depth opts) p a (wq_ring_daddr (wq_transf (q_sq q))), v) \<in> set (done_calls st')"
  using assms by (auto simp: make_queues_def SQ_new_def ask_def split: bind_splits) blast+

text \<open>A call of a device program's initialisation that writes only a region that was handed out.\<close>

lemma call_init_frame:
  assumes "call_init E init cfg s st\<^sub>1 = Some (s', st\<^sub>2)"
    and "\<And>a s. \<not> inside a ring k \<Longrightarrow> mem (fst (init cfg s)) a = mem (fst s) a" and "owns st st\<^sub>1 ring k"
  shows "framed st st\<^sub>2" "grows st\<^sub>1 st\<^sub>2"
    and "apart (fresh_calls st st\<^sub>2) \<Longrightarrow> has st st\<^sub>1 p bs \<Longrightarrow> sep p (length bs) ring k \<Longrightarrow> has st st\<^sub>2 p bs"
    and "\<exists>d. s' = init cfg (d, snd s)"
proof -
  from assms(1) obtain a st\<^sub>3 v st\<^sub>4 where m: "move_to_dev (env_lib E) (config_bytes E cfg) st\<^sub>1 = Some (a, st\<^sub>3)"
    and c: "ask (env_lib E) (Process_call (process st\<^sub>3) a) st\<^sub>3 = Some (v, st\<^sub>4)"
    and i: "s' = init cfg ((fst s)\<lparr>mem := dev_mem st\<^sub>4\<rparr>, snd s)" "st\<^sub>2 = st\<^sub>4\<lparr>dev_mem := mem (fst s')\<rparr>"
    by (auto simp: call_init_def Let_def split: bind_splits)
  show "\<exists>d. s' = init cfg (d, snd s)" using i(1) by blast
  have f: "framed st\<^sub>1 st\<^sub>4" using move_to_dev_framed [OF m] ask_framed(1) [OF c] by (rule framed_trans)
  note o = owns_later [OF assms(3) f]
  have w: "mem (fst s') a = dev_mem st\<^sub>4 a" if "\<not> inside a ring k" for a using assms(2) [OF that] by (simp add: i(1))
  note fw = framed_write [OF o w]
  show "framed st st\<^sub>2" using fw(1) by (simp add: i(2))
  show "grows st\<^sub>1 st\<^sub>2" using framed_grows [OF f] by (simp add: i(2) grows_def)
  assume "apart (fresh_calls st st\<^sub>2)" and h: "has st st\<^sub>1 p bs" and s: "sep p (length bs) ring k"
  hence "has st st\<^sub>4 p bs" using has_later [OF h f] fw(2) by (simp add: i(2))
  thus "has st st\<^sub>2 p bs" using has_write [OF _ o w s] by (simp add: i(2))
qed

text \<open>
  What the host relies on when it starts a device program with completion rings of \<open>2 ^ n\<close> and a send ring of \<open>2 ^ k\<close>
  entries: the initialisation writes nothing but the send ring, and sets the queues up for these depths.
\<close>

locale device_program =
  fixes init :: "flexio \<Rightarrow> queue_config_data \<Rightarrow> dpa \<times> 'c \<Rightarrow> dpa \<times> 'c"
    and rqcq :: "'c \<Rightarrow> cq_ctx_t" and sqcq :: "'c \<Rightarrow> cq_ctx_t" and sqc :: "'c \<Rightarrow> sq_ctx_t" and n k :: nat
  assumes init_frame: "segments_local fx \<Longrightarrow> k \<le> j \<Longrightarrow> j \<le> 24 \<Longrightarrow> \<not> inside a (wq_ring_daddr (sq_data q)) (2 ^ j * 64) \<Longrightarrow>
      mem (fst (init fx q s)) a = mem (fst s) a"
    and init_rqcq: "rqcq (snd (init fx q s)) = init_cq_at n (rq_cq_data q) (rqcq (snd s))"
    and init_sqcq: "sqcq (snd (init fx q s)) = init_cq_at n (sq_cq_data q) (sqcq (snd s))"
    and init_sqc: "segments_local fx \<Longrightarrow> sqc (snd (init fx q s)) = init_sq_at fx k (sq_data q) (sqc (snd s))"
begin

lemma call_init_has:
  assumes "call_init E (init fx) cfg s st\<^sub>1 = Some (s', st\<^sub>2)" and "segments_local fx" and "k \<le> j" "j \<le> 24"
    and "owns st st\<^sub>1 (wq_ring_daddr (sq_data cfg)) (2 ^ j * 64)"
  shows "framed st st\<^sub>2" "grows st\<^sub>1 st\<^sub>2" and "apart (fresh_calls st st\<^sub>2) \<Longrightarrow> has st st\<^sub>1 p bs \<Longrightarrow>
      sep p (length bs) (wq_ring_daddr (sq_data cfg)) (2 ^ j * 64) \<Longrightarrow> has st st\<^sub>2 p bs"
    and "rqcq (snd s') = init_cq_at n (rq_cq_data cfg) (rqcq (snd s))" "sqcq (snd s') = init_cq_at n (sq_cq_data cfg) (sqcq (snd s))"
    and "sqc (snd s') = init_sq_at fx k (sq_data cfg) (sqc (snd s))"
proof -
  note c = call_init_frame [OF assms(1) init_frame [OF assms(2-4)] assms(5)]
  show "framed st st\<^sub>2" "grows st\<^sub>1 st\<^sub>2" using c(1,2) by simp_all
  show "apart (fresh_calls st st\<^sub>2) \<Longrightarrow> has st st\<^sub>1 p bs \<Longrightarrow>
      sep p (length bs) (wq_ring_daddr (sq_data cfg)) (2 ^ j * 64) \<Longrightarrow> has st st\<^sub>2 p bs" by (rule c(3))
  show "rqcq (snd s') = init_cq_at n (rq_cq_data cfg) (rqcq (snd s))" "sqcq (snd s') = init_cq_at n (sq_cq_data cfg) (sqcq (snd s))"
    "sqc (snd s') = init_sq_at fx k (sq_data cfg) (sqc (snd s))"
    using c(4) init_rqcq init_sqcq init_sqc [OF assms(2)] by auto
qed

lemma launch_has:
  assumes "launch E mac nic_mode (init fx) cfg r s st\<^sub>1 = Some ((cfg', s'), st\<^sub>2)" and "segments_local fx" and "k \<le> j" "j \<le> 24"
    and "owns st st\<^sub>1 (wq_ring_daddr (sq_data cfg)) (2 ^ j * 64)"
  shows "framed st st\<^sub>2" "grows st\<^sub>1 st\<^sub>2" and "apart (fresh_calls st st\<^sub>2) \<Longrightarrow> has st st\<^sub>1 p bs \<Longrightarrow>
      sep p (length bs) (wq_ring_daddr (sq_data cfg)) (2 ^ j * 64) \<Longrightarrow> has st st\<^sub>2 p bs"
    and "cfg' = cfg" "mem (fst s') = dev_mem st\<^sub>2"
    and "rqcq (snd s') = init_cq_at n (rq_cq_data cfg) (rqcq (snd s))" "sqcq (snd s') = init_cq_at n (sq_cq_data cfg) (sqcq (snd s))"
    and "sqc (snd s') = init_sq_at fx k (sq_data cfg) (sqc (snd s))"
proof -
  from assms(1) obtain s\<^sub>3 st\<^sub>3 st\<^sub>4 where c: "call_init E (init fx) cfg s st\<^sub>1 = Some (s\<^sub>3, st\<^sub>3)"
    and m: "mac_rules E mac nic_mode r st\<^sub>3 = Some st\<^sub>4" "event_handler_run (env_lib E) 0 0 st\<^sub>4 = Some st\<^sub>2"
    and e: "cfg' = cfg" "s' = ((fst s\<^sub>3)\<lparr>mem := dev_mem st\<^sub>2\<rparr>, snd s\<^sub>3)"
    by (auto simp: launch_def split: bind_splits)
  note h = call_init_has [OF c assms(2-5)]
  have f: "framed st\<^sub>3 st\<^sub>2" using mac_rules_framed [OF m(1)] event_handler_run_framed [OF m(2)] by (rule framed_trans)
  show "framed st st\<^sub>2" by (rule framed_trans [OF h(1) f])
  show "grows st\<^sub>1 st\<^sub>2" by (rule grows_trans [OF h(2) framed_grows [OF f]])
  show "cfg' = cfg" "mem (fst s') = dev_mem st\<^sub>2" "rqcq (snd s') = init_cq_at n (rq_cq_data cfg) (rqcq (snd s))"
    "sqcq (snd s') = init_cq_at n (sq_cq_data cfg) (sqcq (snd s))" "sqc (snd s') = init_sq_at fx k (sq_data cfg) (sqc (snd s))"
    using h(4-6) by (simp_all add: e)
  assume ap: "apart (fresh_calls st st\<^sub>2)" and x: "has st st\<^sub>1 p bs" "sep p (length bs) (wq_ring_daddr (sq_data cfg)) (2 ^ j * 64)"
  have "apart (fresh_calls st st\<^sub>3)" by (rule apart_mid(2) [OF framed_refl h(1) f ap])
  thus "has st st\<^sub>2 p bs" using has_later [OF h(3) f ap] x by blast
qed

lemma main_ready:
  assumes "single_main E opts mac nic_mode (init fx) s = Some ((cfg, s'), st)" and "apart (done_calls st)"
    and "rdma_ok fx (env_rdma E)" and "segments_local fx" and "small_rings opts" and "cq_depth opts = n" and "sq_depth opts = k"
  shows "queues_ready fx opts cfg (mem (fst s')) (rqcq (snd s')) (sqcq (snd s')) (sqc (snd s'))" and "mem (fst s') = dev_mem st"
proof -
  from assms(1) obtain st\<^sub>1 q st\<^sub>2 w st\<^sub>3 where q: "make_queues (env_lib E) (env_rdma E) opts 0 st\<^sub>1 = Some (q, st\<^sub>2)"
    and w: "get_window_id (env_lib E) st\<^sub>2 = Some (w, st\<^sub>3)"
    and l: "launch E mac nic_mode (init fx) (queue_config q 0 0 w) (q_rq q) s st\<^sub>3 = Some ((cfg, s'), st)"
    by (auto simp: single_main_def split: bind_splits)
  let ?cfg = "queue_config q 0 0 w" and ?ring = "wq_ring_daddr (sq_data (queue_config q 0 0 w))"
  have z: "length (fresh_cqe (env_rdma E)) = 64" "\<And>l k a. length (data_seg (env_rdma E) l k a) = 16"
    using assms(3) by (simp_all add: rdma_ok_def)
  note h = make_queues_has [OF q assms(5) z, folded assms(7)]
  have k: "k \<le> k" "k \<le> 24" using assms(5,7) by (simp_all add: small_rings_def)
  have r: "?ring = wq_ring_daddr (wq_transf (q_sq q))" by (simp add: queue_config_def)
  have "owns st\<^sub>1 st\<^sub>3 ?ring (2 ^ k * 64)" using owns_later [OF h(1) window_framed [OF w]] by (simp add: r assms(7))
  note lh = launch_has [OF l assms(4) k this]
  show "mem (fst s') = dev_mem st" by (rule lh(5))
  have f2: "framed st\<^sub>1 st\<^sub>2" using h(1) by (simp add: owns_def)
  hence f3: "framed st\<^sub>1 st\<^sub>3" using window_framed [OF w] by (rule framed_trans)
  have f: "framed st\<^sub>1 st" by (rule lh(1))
  have ap: "apart (fresh_calls st\<^sub>1 st)" using assms(2) f by (simp add: framed_def apart_def sorted_wrt_append)
  have "load_bytes (mem (fst s')) p (length bs) = bs" if "(p, bs) \<in> set (queue_images (env_rdma E) opts q)" for p bs
  proof -
    have ap3: "apart (fresh_calls st\<^sub>1 st\<^sub>3)" by (rule apart_grows [OF f3 lh(2) ap])
    hence "apart (fresh_calls st\<^sub>1 st\<^sub>2)" by (rule apart_grows [OF f2 framed_grows [OF window_framed [OF w]]])
    note x = h(2) [OF this that]
    hence "has st\<^sub>1 st\<^sub>3 p bs" using has_later [OF _ window_framed [OF w] ap3] by blast
    thus ?thesis using lh(3) [OF ap] x lh(5) by (simp add: has_def r assms(7))
  qed
  thus "queues_ready fx opts cfg (mem (fst s')) (rqcq (snd s')) (sqcq (snd s')) (sqc (snd s'))"
    by (rule queues_ready_images [OF _ assms(3,5) config_of_queue_config [of _ q 0 0 w, folded lh(4)]]) (use lh h(3) assms(6,7) in auto)
qed

text \<open>A send queue of its own: the depth it is created with, and the ring the device works on.\<close>

lemma main_send_ring:
  assumes "single_main E opts mac nic_mode (init fx) s = Some ((cfg, s'), st)" and "\<not> tx_shared_rx_buffer opts"
    and "segments_local fx" and "small_rings opts" and "k \<le> sq_depth opts" and "rdma_ok fx (env_rdma E)"
  shows "\<exists>u p a v. (Sq_create u (sq_depth opts) p a (wq_ring_daddr (sq_data cfg)), v) \<in> set (done_calls st)"
    and "sqc (snd s') = init_sq_at fx k (sq_data cfg) (sqc (snd s))"
proof -
  from assms(1) obtain st\<^sub>1 q st\<^sub>2 w st\<^sub>3 where q: "make_queues (env_lib E) (env_rdma E) opts 0 st\<^sub>1 = Some (q, st\<^sub>2)"
    and w: "get_window_id (env_lib E) st\<^sub>2 = Some (w, st\<^sub>3)"
    and l: "launch E mac nic_mode (init fx) (queue_config q 0 0 w) (q_rq q) s st\<^sub>3 = Some ((cfg, s'), st)"
    by (auto simp: single_main_def split: bind_splits)
  have z: "length (fresh_cqe (env_rdma E)) = 64" "\<And>l k a. length (data_seg (env_rdma E) l k a) = 16"
    using assms(6) by (simp_all add: rdma_ok_def)
  have d: "sq_depth opts \<le> 24" using assms(4) by (simp add: small_rings_def)
  have "owns st\<^sub>1 st\<^sub>3 (wq_ring_daddr (sq_data (queue_config q 0 0 w))) (2 ^ sq_depth opts * 64)"
    using owns_later [OF make_queues_has(1) [OF q assms(4) z] window_framed [OF w]] by (simp add: queue_config_def)
  note lh = launch_has [OF l assms(3,5) d this]
  show "sqc (snd s') = init_sq_at fx k (sq_data cfg) (sqc (snd s))" using lh(4,8) by simp
  obtain u p a v where "(Sq_create u (sq_depth opts) p a (wq_ring_daddr (wq_transf (q_sq q))), v) \<in> set (done_calls st\<^sub>2)"
    using make_queues_Sq_create [OF q assms(2)] by blast
  moreover have "grows st\<^sub>2 st" using framed_grows [OF window_framed [OF w]] lh(2) by (rule grows_trans)
  ultimately show "\<exists>u p a v. (Sq_create u (sq_depth opts) p a (wq_ring_daddr (sq_data cfg)), v) \<in> set (done_calls st)"
    unfolding lh(4) by (fastforce simp: grows_def queue_config_def)
qed

end

interpretation refactor_dev: device_program "\<lambda>fx q s. snd (dpa_refactor_device_init fx q s)" rqcq_ctx sqcq_ctx sq_ctx 7 7
  by unfold_locales
    (auto simp: dpa_refactor_device_init_def init_cq_refactor_def init_sq_refactor_def Let_def case_prod_beta init_send_sq_frame init_send_sq_snd)

interpretation workingset_dev: device_program "\<lambda>fx q s. snd (dpa_refactor_workingset_device_init fx q s)" rqcq_ctx sqcq_ctx sq_ctx 7 7
  by unfold_locales
    (auto simp: dpa_refactor_workingset_device_init_def init_cq_ws_def init_sq_ws_def Let_def case_prod_beta init_send_sq_frame init_send_sq_snd)

interpretation random_dev: device_program "\<lambda>fx q s. snd (dpa_refactor_random_access_device_init fx q s)" rqcq_ctx sqcq_ctx sq_ctx 12 12
  by unfold_locales
    (auto simp: dpa_refactor_random_access_device_init_def init_cq_random_def init_sq_random_def Let_def case_prod_beta init_send_sq_frame init_send_sq_snd)

interpretation send_dev: device_program "\<lambda>fx q s. snd (dpa_send_device_init fx q s)" rqcq_ctx sqcq_ctx sq_ctx 7 7
  by unfold_locales
    (auto simp: dpa_send_device_init_def device_init_at_def init_cq_send_def init_sq_send_def Let_def case_prod_beta init_send_sq_frame init_send_sq_snd)

interpretation send_ntp_dev: device_program "\<lambda>fx q s. snd (dpa_send_ntp_device_init fx q s)" rqcq_ctx sqcq_ctx sq_ctx 7 7
  by unfold_locales
    (auto simp: dpa_send_ntp_device_init_def device_init_at_def init_cq_ntp_def init_sq_ntp_def Let_def case_prod_beta init_send_sq_frame init_send_sq_snd)

interpretation ddio_dev: device_program "\<lambda>fx q s. snd (snd (dpa_ddio_device_init fx q s))" rqcq_ctx sqcq_ctx sq_ctx 10 10
  by unfold_locales
    (auto simp: dpa_ddio_device_init_def init_cq_ddio_def init_sq_ddio_def Let_def case_prod_beta init_send_sq_frame init_send_sq_snd)

interpretation hostrq_dev: device_program "\<lambda>fx q s. snd (snd (dpa_hostrq_device_init fx q s))" rqcq_ctx sqcq_ctx sq_ctx 11 11
  by unfold_locales
    (auto simp: dpa_hostrq_device_init_def init_cq_hostrq_def init_sq_hostrq_def Let_def case_prod_beta init_send_sq_frame init_send_sq_snd)

text \<open>Documented behaviour of the card: it takes the send entries of a queue created with depth \<open>2 ^ n\<close> in turn, and
  starts again after the last; an entry has four segments of 16 bytes.\<close>

definition card_entry :: "ptr \<Rightarrow> nat \<Rightarrow> nat \<Rightarrow> ptr" where
  "card_entry ring n m = ring + of_nat (m mod 2 ^ n * 64)"

lemma sq_sent_iterate:
  "(sq_sent ^^ m) s = s\<lparr>sq_wqe_seg_idx := sq_wqe_seg_idx s + 4 * of_nat m, sq_pi := sq_pi s + of_nat m\<rparr>"
  by (induction m) (simp_all add: sq_sent_def algebra_simps)

lemma device_entry:
  assumes "segments_local fx" and "k \<le> 24"
  shows "fst (get_next_data_sqe fx ((sq_sent ^^ m) (init_sq_at fx k w s))) = card_entry (wq_ring_daddr w) k m + 32"
proof -
  have fx: "sqe_seg_bsize fx = 16" "log_sqe_num_segs fx = 2" using assms(1) by (simp_all add: segments_local_def)
  have "(4 * m + 2) div 4 = m" "(4 * m + 2) mod 4 = 2" by presburger+
  hence "(4 * m + 2) mod 2 ^ (k + 2) = 4 * (m mod 2 ^ k) + 2"
    using mod_mult2_eq [of "4 * m + 2" 4 "2 ^ k"] by (simp only: power_add) (simp add: mult.commute)
  moreover have "unat ((4 * of_nat m + 2 :: u32) AND ring_mask (k + 2)) = (4 * m + 2) mod 2 ^ (k + 2)"
    using unat_of_nat_mod_pow [of "k + 2" "4 * m + 2"] assms(2) by (simp add: unat_and_ring_mask add.commute)
  ultimately have "ucast ((4 * of_nat m + 2 :: u32) AND ring_mask (k + 2)) = (of_nat (4 * (m mod 2 ^ k) + 2) :: u64)"
    by (metis of_nat_unat)
  thus ?thesis by (simp add: get_next_data_sqe_def sq_sent_iterate card_entry_def fx algebra_simps)
qed

lemma card_entry_eq:
  assumes "k \<le> n" and "n \<le> 30"
  shows "card_entry r k m = card_entry r n m \<longleftrightarrow> m mod 2 ^ n < 2 ^ k"
proof -
  have l: "m mod 2 ^ j * 64 < 2 ^ 64" if "j \<le> 30" for j
  proof -
    have "m mod 2 ^ j < 2 ^ 30" using that power_increasing [of j 30 "2 :: nat"] by (simp add: less_le_trans [OF mod_less_divisor])
    thus ?thesis by simp
  qed
  have "card_entry r k m = card_entry r n m \<longleftrightarrow> m mod 2 ^ k * 64 = m mod 2 ^ n * 64"
    unfolding card_entry_def add_left_cancel using l [of k] l [of n] assms
    by (subst word_unat_eq_iff) (simp add: unat_of_nat take_bit_nat_eq_self del: of_nat_mult)
  also have "\<dots> \<longleftrightarrow> m mod 2 ^ n mod 2 ^ k = m mod 2 ^ n"
    using assms(1) by (simp add: mod_mod_cancel le_imp_power_dvd)
  also have "\<dots> \<longleftrightarrow> m mod 2 ^ n < 2 ^ k" by (metis mod_less mod_less_divisor zero_less_numeral zero_less_power)
  finally show ?thesis .
qed

section \<open>Properties\<close>

text \<open>
  C3: the host program sets up what the device program relies on.  When \<open>main\<close> of the reflector has run up to its
  waiting loop, and the library handed out disjoint parts of device memory, then both completion queues start in the
  ownership protocol with nothing produced and nothing consumed: every entry of the rings that the host filled belongs
  to the card, so the device finds no packet before the card writes one; the 128 entries of the receive ring point to
  consecutive parts of 1024 bytes of the data area; the doorbell record announces 128 entries; host and device agree on
  the depth of the send ring; and with a shared buffer the send queue uses the data area and the key of the receive
  queue.
\<close>

theorem refactor_main_ready:
  assumes "refactor_main E fx on_host shared nic_mode d0 = Some ((cfg, d, c), st)" and "apart (done_calls st)"
    and "rdma_ok fx (env_rdma E)" and "segments_local fx"
  shows "mem d = dev_mem st \<and> nic_inv fx 7 rqcq_ctx (0, 0, d, c) \<and> nic_inv fx 7 sqcq_ctx (0, 0, d, c) \<and>
    \<not> cqe_ready fx (mem d) (rqcq_ctx c) \<and>
    (\<forall>i < 128. rwqe_get_addr fx (mem d) (wq_ring_daddr (rq_data cfg) + of_nat i * rwqe_bsize fx) =
      wqd_daddr (rq_data cfg) + of_nat (i * 1024)) \<and>
    load_bytes (mem d) (wq_dbr_daddr (rq_data cfg)) 8 = [0, 0, 0, 128, 0, 0, 0, 0] \<and>
    sq_idx_mask (sq_ctx c) = ring_mask (7 + log_sqe_num_segs fx) \<and>
    (shared \<longrightarrow> wqd_daddr (sq_data cfg) = wqd_daddr (rq_data cfg) \<and> wqd_mkey_id (sq_data cfg) = wqd_mkey_id (rq_data cfg))"
proof -
  have "small_rings (refactor_opts on_host shared)" by (simp add: small_rings_def refactor_opts_def)
  note m = refactor_dev.main_ready [OF assms(1) [unfolded refactor_main_def] assms(2-4) this]
  have "rq_dbr_image 7 = [0, 0, 0, 128, 0, 0, 0, 0]"
    by (simp add: rq_dbr_image_def be32_bytes_def LOG2VALUE_def word_bytes_def upt_rec)
  thus ?thesis
    using m cq_starts_not_ready by (simp add: refactor_opts_def queues_ready_def flip: cq_starts_nic_inv) blast
qed

lemma workingset_main_ready:
  assumes "workingset_main E fx on_host shared nic_mode s = Some ((cfg, d, c), st)" and "apart (done_calls st)"
    and "rdma_ok fx (env_rdma E)" and "segments_local fx"
  shows "queues_ready fx (workingset_opts on_host shared) cfg (mem d) (rqcq_ctx c) (sqcq_ctx c) (sq_ctx c)"
  using workingset_dev.main_ready(1) [OF assms(1) [unfolded workingset_main_def] assms(2-4)]
  by (simp add: workingset_opts_def small_rings_def)

lemma random_main_ready:
  assumes "random_main E fx on_host shared nic_mode s = Some ((cfg, d, c), st)" and "apart (done_calls st)"
    and "rdma_ok fx (env_rdma E)" and "segments_local fx"
  shows "queues_ready fx (random_opts on_host shared) cfg (mem d) (rqcq_ctx c) (sqcq_ctx c) (sq_ctx c)"
  using random_dev.main_ready(1) [OF assms(1) [unfolded random_main_def] assms(2-4)]
  by (simp add: random_opts_def small_rings_def)

text \<open>The generators find the same state before they send their first packet.\<close>

lemma send_main_ready:
  assumes "send_main E ck fx on_host shared tx_on_host nic_mode s = Some (r, st)" and "rdma_ok fx (env_rdma E)" and "segments_local fx"
  shows "\<exists>cfg d c st'. first_packet_call E (dpa_send_deivce_first_packet ck fx) (cfg, d, c) st' = Some (r, st) \<and>
    (apart (done_calls st') \<longrightarrow>
      queues_ready fx (send_opts on_host shared tx_on_host) cfg (mem d) (rqcq_ctx c) (sqcq_ctx c) (sq_ctx c))"
proof -
  from assms(1) obtain cfg d c st' where
    m: "single_main E (send_opts on_host shared tx_on_host) (addr_to_num SRC_ADDR_send) nic_mode (\<lambda>q s. snd (dpa_send_device_init fx q s)) s =
      Some ((cfg, d, c), st')"
    and f: "first_packet_call E (dpa_send_deivce_first_packet ck fx) (cfg, d, c) st' = Some (r, st)"
    by (auto simp: send_main_def split: bind_splits)
  have "queues_ready fx (send_opts on_host shared tx_on_host) cfg (mem d) (rqcq_ctx c) (sqcq_ctx c) (sq_ctx c)" if "apart (done_calls st')"
    using send_dev.main_ready(1) [OF m that assms(2,3)] by (simp add: send_opts_def small_rings_def)
  with f show ?thesis by blast
qed

lemma send_ntp_main_ready:
  assumes "send_ntp_main E ck fx on_host shared tx_on_host nic_mode s = Some (r, st)" and "rdma_ok fx (env_rdma E)" and "segments_local fx"
  shows "\<exists>cfg d c st'. first_packet_call E (dpa_send_ntp_deivce_first_packet ck fx) (cfg, d, c) st' = Some (r, st) \<and>
    (apart (done_calls st') \<longrightarrow>
      queues_ready fx (send_opts on_host shared tx_on_host) cfg (mem d) (rqcq_ctx c) (sqcq_ctx c) (sq_ctx c))"
proof -
  from assms(1) obtain cfg d c st' where
    m: "single_main E (send_opts on_host shared tx_on_host) (addr_to_num SRC_ADDR_send) nic_mode (\<lambda>q s. snd (dpa_send_ntp_device_init fx q s)) s =
      Some ((cfg, d, c), st')"
    and f: "first_packet_call E (dpa_send_ntp_deivce_first_packet ck fx) (cfg, d, c) st' = Some (r, st)"
    by (auto simp: send_ntp_main_def split: bind_splits)
  have "queues_ready fx (send_opts on_host shared tx_on_host) cfg (mem d) (rqcq_ctx c) (sqcq_ctx c) (sq_ctx c)" if "apart (done_calls st')"
    using send_ntp_dev.main_ready(1) [OF m that assms(2,3)] by (simp add: send_opts_def small_rings_def)
  with f show ?thesis by blast
qed

text \<open>
  C37: the cache-placement program sets its send queue up with two depths.  The host creates the queue with \<open>2 ^ 13\<close>
  entries, while the device goes round after \<open>2 ^ 10\<close>: for packet \<open>m\<close>, counted from 0, it fills the data segment of
  entry \<open>m mod 1024\<close>, so the entries from 1024 on are never filled, and it is the entry that the card takes exactly for
  the packets with \<open>m mod 8192 < 1024\<close>.
\<close>

theorem ddio_send_ring_depths:
  assumes "ddio_main E fx on_host s = Some ((cfg, d, c), st)" and "rdma_ok fx (env_rdma E)" and "segments_local fx"
  shows "(\<exists>u p a v. (Sq_create u 13 p a (wq_ring_daddr (sq_data cfg)), v) \<in> set (done_calls st)) \<and>
    (\<forall>m. fst (get_next_data_sqe fx ((sq_sent ^^ m) (sq_ctx c))) = wq_ring_daddr (sq_data cfg) + of_nat (m mod 1024 * 64) + 32) \<and>
    (\<forall>m. fst (get_next_data_sqe fx ((sq_sent ^^ m) (sq_ctx c))) = card_entry (wq_ring_daddr (sq_data cfg)) 13 m + 32 \<longleftrightarrow>
      m mod 8192 < 1024)"
proof -
  note m = ddio_dev.main_send_ring [OF assms(1) [unfolded ddio_main_def] _ assms(3) _ _ assms(2)]
  have s: "sq_ctx c = init_sq_at fx 10 (sq_data cfg) (sq_ctx (snd s))" using m(2) by (simp add: ddio_opts_def small_rings_def)
  have "\<exists>u p a v. (Sq_create u 13 p a (wq_ring_daddr (sq_data cfg)), v) \<in> set (done_calls st)"
    using m(1) by (simp add: ddio_opts_def small_rings_def)
  moreover have "fst (get_next_data_sqe fx ((sq_sent ^^ m) (sq_ctx c))) = card_entry (wq_ring_daddr (sq_data cfg)) 10 m + 32" for m
    unfolding s by (rule device_entry [OF assms(3)]) simp
  moreover have "card_entry r 10 m = card_entry r 13 m \<longleftrightarrow> m mod 8192 < 1024" for r m
    using card_entry_eq [of 10 13 r m] by simp
  ultimately show ?thesis by (simp add: card_entry_def)
qed

section \<open>An example\<close>

text \<open>A library that hands out a new megabyte at every call, and the layout of the entries.\<close>

definition new_megabyte :: hostlib where
  "new_megabyte h c = Some (0x100000 * of_nat (Suc (length h)))"

definition sample_rd :: rdma where
  "sample_rd = \<lparr>set_cqe_owner = (\<lambda>bs b. bs[63 := b]),
     data_seg = (\<lambda>l k a. word_bytes 4 (bswap32 l) @ word_bytes 4 (bswap32 k) @ word_bytes 8 (bswap64 a)),
     devx_set = (\<lambda>f v b. b)\<rparr>"

lemma bit_bswap32:
  "bit (bswap32 w) n \<longleftrightarrow> (if n < 8 then bit w (n + 24) else if n < 16 then bit w (n + 8)
     else if n < 24 then bit w (n - 8) else n < 32 \<and> bit w (n - 24))"
proof -
  have m: "(0xff0000 :: u32) = push_bit 16 (mask 8)" "(0xff00 :: u32) = push_bit 8 (mask 8)" by (simp_all add: mask_eq_exp_minus_1)
  have "k < 32" if "bit w k" for k using bit_imp_le_length [OF that] by simp
  from this [of "n + 24"] show ?thesis unfolding bswap32_def m by (auto simp: bit_simps add.commute)
qed

lemma bswap32_twice: "bswap32 (bswap32 w) = w"
  by (rule bit_word_eqI) (auto simp: bit_bswap32)

lemma bswap64_twice: "bswap64 (bswap64 w) = w"
proof -
  have no: "\<not> bit x (32 + n)" for x :: u32 and n using bit_imp_le_length [of x "32 + n"] by auto
  have "ucast (bswap64 w) = bswap32 (ucast (drop_bit 32 w))" "ucast (drop_bit 32 (bswap64 w)) = bswap32 (ucast w)"
    unfolding bswap64_def by (rule bit_word_eqI; simp add: bit_simps no)+
  hence "bswap64 (bswap64 w) = push_bit 32 (ucast (ucast (drop_bit 32 w) :: u32)) OR ucast (ucast w :: u32)"
    unfolding bswap64_def [of "bswap64 w"] by (simp add: bswap32_twice)
  also have "\<dots> = w" by (rule bit_word_eqI) (auto simp: bit_simps)
  finally show ?thesis .
qed

lemma sample_segments: "segments_local sample_fx"
proof -
  have w: "store32 m p v a = m a" "store32 m (p + 4) v a = m a" "store64 m p x a = m a" "store64 m (p + 8) x a = m a"
    if "\<not> inside a p 16" for m p v a x
    using that outside_sub [of a p 16 0 4] outside_sub [of a p 16 4 4] outside_sub [of a p 16 0 8] outside_sub [of a p 16 8 8]
    by (simp_all add: store_le_outside)
  show ?thesis unfolding segments_local_def by (simp add: sample_fx_def w)
qed

lemma sample_rdma: "rdma_ok sample_fx sample_rd"
proof -
  have c: "fresh_cqe sample_rd = (replicate 64 0)[63 := 1]" by (simp add: fresh_cqe_def sample_rd_def)
  have "m (p + 63) AND 1 = 1" if "load_bytes m p 64 = fresh_cqe sample_rd" for m p
    using arg_cong [OF that, of "\<lambda>xs. xs ! 63"] by (simp add: c)
  moreover have "load64 m (p + 8) = bswap64 a" if "load_bytes m p 16 = data_seg sample_rd l k a" for m p l k a
  proof (rule load_le_bytes)
    fix i :: nat assume i: "i < 8"
    have "m (p + of_nat (8 + i)) = data_seg sample_rd l k a ! (8 + i)"
      using arg_cong [OF that, of "\<lambda>xs. xs ! (8 + i)"] i by simp
    thus "m (p + 8 + of_nat i) = ucast (drop_bit (8 * i) (bswap64 a))"
      using i by (simp add: sample_rd_def nth_append nth_word_bytes add.assoc)
  qed simp
  moreover have "length (fresh_cqe sample_rd) = 64" "\<And>l k a. length (data_seg sample_rd l k a) = 16"
    unfolding c by (simp_all add: sample_rd_def)
  ultimately show ?thesis unfolding rdma_ok_def by (simp add: sample_fx_def bswap64_twice)
qed

lemma ask_new_megabyte: "ask new_megabyte c st = Some (0x100000 * of_nat (Suc (length (done_calls st))),
    st\<lparr>done_calls := done_calls st @ [(c, 0x100000 * of_nat (Suc (length (done_calls st))))]\<rparr>)"
  by (simp add: ask_def new_megabyte_def)

lemma ask_any_new_megabyte: "ask_any new_megabyte c st = (0x100000 * of_nat (Suc (length (done_calls st))),
    st\<lparr>done_calls := done_calls st @ [(c, 0x100000 * of_nat (Suc (length (done_calls st))))]\<rparr>)"
  by (simp add: ask_any_def new_megabyte_def Let_def)

definition sample_env :: host_env where
  "sample_env = \<lparr>env_lib = new_megabyte, env_rdma = sample_rd, config_bytes = (\<lambda>_. []), app_device = 1, handler_func = 2,
     NIC_RX = 3, FDB = 4, dev_list = Some [''mlx5_0''], dev_name = ''mlx5_0''\<rparr>"

lemmas sample_calls = ask_new_megabyte ask_any_new_megabyte Context_new_def alloc_pd_def create_process_def create_window_def
  generate_flexio_uar_def create_event_handler_def CQ_new_def get_event_handler_def get_flexio_uar_id_def
  allocate_cq_memory_def allocate_dbr_def copy_from_host_def host2dev_memcpy_def RQ_new_def rq_area_def
  allocate_rq_host_memory_def allocate_rq_dpa_memory_def create_dpa_mkey_def host_area_def reg_mr_def init_dpa_rq_ring_def SQ_shared_def
  SQ_new_def allocate_sq_dpa_memory_def get_window_id_def
  move_to_dev_def DR_new_def create_flow_table_def add_dest_devx_tir_def add_dest_table_def add_dest_vport_def
  create_dr_rule_def event_handler_run_def

lemma sample_start:
  "\<exists>h st. do { st \<leftarrow> start_context sample_env m; create_event_handler new_megabyte 2 st } = Some (h, st) \<and>
     length (done_calls st) = 6 \<and> flexio_uar st \<noteq> 0 \<and> window st \<noteq> 0 \<and> event_handler_vec st \<noteq> [] \<and> regions (done_calls st) = []"
  by (simp add: start_context_def sample_env_def sample_calls)

lemma sample_rules:
  "\<exists>st'. mac_rules sample_env mac False r st = Some st' \<and> regions (done_calls st') = regions (done_calls st) \<and>
     event_handler_vec st' = event_handler_vec st"
  by (simp add: mac_rules_def sample_env_def sample_calls Let_def)

lemma sample_launch:
  assumes "event_handler_vec st \<noteq> []"
  shows "\<exists>s' st'. launch sample_env mac False init cfg r s st = Some ((cfg, s'), st') \<and>
    regions (done_calls st') = regions (done_calls st) @ [(0x100000 * of_nat (Suc (length (done_calls st))), 0)]"
proof -
  obtain s\<^sub>1 st\<^sub>1 where c: "call_init sample_env init cfg s st = Some (s\<^sub>1, st\<^sub>1)"
    and v: "event_handler_vec st\<^sub>1 = event_handler_vec st"
      "regions (done_calls st\<^sub>1) = regions (done_calls st) @ [(0x100000 * of_nat (Suc (length (done_calls st))), 0)]"
    by (simp add: call_init_def sample_env_def sample_calls Let_def)
  obtain st\<^sub>2 where r: "mac_rules sample_env mac False r st\<^sub>1 = Some st\<^sub>2" "regions (done_calls st\<^sub>2) = regions (done_calls st\<^sub>1)"
    "event_handler_vec st\<^sub>2 = event_handler_vec st\<^sub>1" using sample_rules by blast
  obtain st\<^sub>3 where "event_handler_run new_megabyte 0 0 st\<^sub>2 = Some st\<^sub>3" "regions (done_calls st\<^sub>3) = regions (done_calls st\<^sub>2)"
    using assms v(1) r(3) by (simp add: sample_calls)
  thus ?thesis using c r v by (simp add: launch_def sample_env_def)
qed

lemma sample_make_queues:
  assumes "length (done_calls st) = 6" "flexio_uar st \<noteq> 0" "event_handler_vec st \<noteq> []"
  shows "\<exists>q st'. make_queues new_megabyte sample_rd (refactor_opts True True) 0 st = Some (q, st') \<and> length (done_calls st') = 37 \<and>
    event_handler_vec st' = event_handler_vec st \<and> window st' = window st \<and>
    regions (done_calls st') = regions (done_calls st) @
      [(0x900000, 8), (0xb00000, 8192), (0xf00000, 8), (0x1100000, 8192), (0x1800000, 2048), (0x1900000, 8),
       (0x2200000, 8192), (0x2300000, 8)]"
proof -
  have a: "as_int 128 = 128" "unat (LOG2VALUE 6) = 64" "LOG2VALUE 6 = 64" "LOG2VALUE 13 = 8192" "LOG2VALUE 7 = 128"
    using as_int_of_nat [of 128] by (simp_all add: LOG2VALUE_def)
  have c: "length (fresh_cqe sample_rd) = 64" using sample_rdma by (simp add: rdma_ok_def)
  hence "length (cq_ring_image sample_rd 128) = 8192"
    using length_concat_same [of "fresh_cqe sample_rd" 128] by (simp add: cq_ring_image_def fresh_cqe_def)
  with assms show ?thesis by (simp add: make_queues_def refactor_opts_def sample_calls Let_def a)
qed

lemma sample_main:
  "\<exists>cfg s' st. single_main sample_env (refactor_opts True True) mac False init s = Some ((cfg, s'), st) \<and> apart (done_calls st)"
proof -
  obtain st\<^sub>0 h\<^sub>0 st\<^sub>1 where s: "start_context sample_env (mem (fst s)) = Some st\<^sub>0" "create_event_handler new_megabyte 2 st\<^sub>0 = Some (h\<^sub>0, st\<^sub>1)"
    and z: "length (done_calls st\<^sub>1) = 6" "flexio_uar st\<^sub>1 \<noteq> 0" "event_handler_vec st\<^sub>1 \<noteq> []" "window st\<^sub>1 \<noteq> 0" "regions (done_calls st\<^sub>1) = []"
    using sample_start [of "mem (fst s)"] by (auto split: bind_splits)
  from sample_make_queues [OF z(1-3)] z(3-5) obtain q st\<^sub>2 where
    q: "make_queues new_megabyte sample_rd (refactor_opts True True) 0 st\<^sub>1 = Some (q, st\<^sub>2)"
    "length (done_calls st\<^sub>2) = 37" "event_handler_vec st\<^sub>2 \<noteq> []" "window st\<^sub>2 \<noteq> 0"
    "regions (done_calls st\<^sub>2) = [(0x900000, 8), (0xb00000, 8192), (0xf00000, 8), (0x1100000, 8192), (0x1800000, 2048), (0x1900000, 8),
       (0x2200000, 8192), (0x2300000, 8)]" by auto
  obtain w st\<^sub>3 where w: "get_window_id new_megabyte st\<^sub>2 = Some (w, st\<^sub>3)" "length (done_calls st\<^sub>3) = 38"
    "event_handler_vec st\<^sub>3 \<noteq> []" "regions (done_calls st\<^sub>3) = regions (done_calls st\<^sub>2)"
    using q(2-4) by (simp add: sample_calls)
  obtain s' st where l: "launch sample_env mac False init (queue_config q 0 0 w) (q_rq q) s st\<^sub>3 = Some ((queue_config q 0 0 w, s'), st)"
    "regions (done_calls st) = regions (done_calls st\<^sub>3) @ [(0x2700000, 0)]"
    using sample_launch [OF w(3), of mac init "queue_config q 0 0 w" "q_rq q" s] w(2) by auto
  have "apart (done_calls st)" by (simp add: apart_def l(2) w(4) q(5) sep_def)
  moreover have "single_main sample_env (refactor_opts True True) mac False init s = Some ((queue_config q 0 0 w, s'), st)"
    using s q(1) w(1) l(1) by (simp add: single_main_def sample_env_def)
  ultimately show ?thesis by blast
qed

theorem refactor_main_ready_witness:
  "\<exists>cfg d c st. refactor_main sample_env sample_fx True True False sample_dpa = Some ((cfg, d, c), st) \<and>
     nic_inv sample_fx 7 rqcq_ctx (0, 0, d, c) \<and> \<not> cqe_ready sample_fx (mem d) (rqcq_ctx c) \<and>
     load_bytes (mem d) (wq_dbr_daddr (rq_data cfg)) 8 = [0, 0, 0, 128, 0, 0, 0, 0]"
proof -
  obtain cfg d c st where m: "refactor_main sample_env sample_fx True True False sample_dpa = Some ((cfg, d, c), st)" "apart (done_calls st)"
    using sample_main unfolding refactor_main_def by (metis prod.collapse)
  have "rdma_ok sample_fx (env_rdma sample_env)" using sample_rdma by (simp add: sample_env_def)
  from refactor_main_ready [OF m this sample_segments] m(1) show ?thesis by blast
qed

lemma sample_own_queues:
  assumes "\<not> tx_shared_rx_buffer opts" "\<not> sq_buffer_on_host opts" "flexio_uar st \<noteq> 0" "event_handler_vec st \<noteq> []"
  shows "\<exists>q st'. make_queues new_megabyte sample_rd opts 0 st = Some (q, st') \<and>
    event_handler_vec st' = event_handler_vec st \<and> window st' = window st"
  using assms by (cases "rq_buffer_on_host opts") (simp_all add: make_queues_def sample_calls Let_def)

lemma sample_own_main:
  assumes "\<not> tx_shared_rx_buffer opts" "\<not> sq_buffer_on_host opts"
  shows "\<exists>cfg s' st. single_main sample_env opts mac False init s = Some ((cfg, s'), st)"
proof -
  obtain st\<^sub>0 h\<^sub>0 st\<^sub>1 where s: "start_context sample_env (mem (fst s)) = Some st\<^sub>0" "create_event_handler new_megabyte 2 st\<^sub>0 = Some (h\<^sub>0, st\<^sub>1)"
    and z: "flexio_uar st\<^sub>1 \<noteq> 0" "event_handler_vec st\<^sub>1 \<noteq> []" "window st\<^sub>1 \<noteq> 0"
    using sample_start [of "mem (fst s)"] by (auto split: bind_splits)
  from sample_own_queues [OF assms z(1,2)] z(2,3) obtain q st\<^sub>2 where
    q: "make_queues new_megabyte sample_rd opts 0 st\<^sub>1 = Some (q, st\<^sub>2)" "event_handler_vec st\<^sub>2 \<noteq> []" "window st\<^sub>2 \<noteq> 0" by auto
  obtain w st\<^sub>3 where w: "get_window_id new_megabyte st\<^sub>2 = Some (w, st\<^sub>3)" "event_handler_vec st\<^sub>3 \<noteq> []"
    using q(2,3) by (simp add: sample_calls)
  obtain s' st where "launch sample_env mac False init (queue_config q 0 0 w) (q_rq q) s st\<^sub>3 = Some ((queue_config q 0 0 w, s'), st)"
    using sample_launch [OF w(2), of mac init "queue_config q 0 0 w" "q_rq q" s] by auto
  thus ?thesis using s q(1) w(1) by (simp add: single_main_def sample_env_def)
qed

theorem ddio_send_ring_depths_witness:
  "\<exists>cfg d c st. ddio_main sample_env sample_fx True (sample_dpa, sample_ddio) = Some ((cfg, d, c), st) \<and>
     fst (get_next_data_sqe sample_fx ((sq_sent ^^ 1024) (sq_ctx c))) \<noteq> card_entry (wq_ring_daddr (sq_data cfg)) 13 1024 + 32"
proof -
  obtain cfg d c st where m: "ddio_main sample_env sample_fx True (sample_dpa, sample_ddio) = Some ((cfg, d, c), st)"
    using sample_own_main [of "ddio_opts True"] unfolding ddio_main_def by (force simp: ddio_opts_def)
  have "rdma_ok sample_fx (env_rdma sample_env)" using sample_rdma by (simp add: sample_env_def)
  from ddio_send_ring_depths [OF m this sample_segments] have
    "\<forall>k. fst (get_next_data_sqe sample_fx ((sq_sent ^^ k) (sq_ctx c))) = card_entry (wq_ring_daddr (sq_data cfg)) 13 k + 32 \<longleftrightarrow> k mod 8192 < 1024"
    by blast
  from this [rule_format, of 1024] m show ?thesis by auto
qed

end
