(* ===== verification/Host_Threads.thy ===== *)
theory Host_Threads
  imports Host_Setup Refactor_Mt Kv_Aggregation Network_Function Send_Mt Bank_Client
begin

text \<open>
  The host programs that start several device threads: \<open>main.cpp\<close> of \<open>flexio/dpa_refactor_mt\<close>, \<open>dpa_network_function\<close>,
  \<open>dpa_kv_aggregation\<close> and \<open>dpa_send_mt\<close>, and \<open>flexio/dpa_small_bank/client.cpp\<close>.  One after the other, each thread gets
  its event handler, its queues, its initialisation on the device and its steering rules.  The locale \<open>thread_program\<close>
  says what the host needs to know of the initialisation of one thread; inside it, the setup of a thread is shown to
  leave alone what was set up for the others.
\<close>

section \<open>Steps of the host programs\<close>

record tables =
  rx_flow_table :: dr_flow_table
  tx_domain :: u64
  tx_flow_root_table :: dr_flow_table
  tx_flow_table :: dr_flow_table

definition global_tables :: "host_env \<Rightarrow> host \<Rightarrow> tables \<times> host" where
  "global_tables E st =
     (let lib = env_lib E; rd = env_rdma E;
          (rx_dr, st) = DR_new lib (NIC_RX E) st;
          (tx_dr, st) = DR_new lib (FDB E) st;
          matcher = set_dst_mac_mask rd clear;
          (rx_table, st) = create_flow_table lib rx_dr 0 0 matcher st;
          matcher = set_src_mac_mask rd clear;
          (root_table, st) = create_flow_table lib tx_dr 0 0 matcher st;
          (tx_table, st) = create_flow_table lib tx_dr 1 0 matcher st
      in (\<lparr>rx_flow_table = rx_table, tx_domain = tx_dr, tx_flow_root_table = root_table, tx_flow_table = tx_table\<rparr>, st))"

definition thread_rules :: "host_env \<Rightarrow> tables \<Rightarrow> u64 \<Rightarrow> bool \<Rightarrow> wq_obj \<Rightarrow> host \<Rightarrow> host option" where
  "thread_rules E T mac nic_mode r st = do {
     let lib = env_lib E;
     let rd = env_rdma E;
     (rx_actions, st) \<leftarrow> add_dest_devx_tir lib (inner_wq_ptr r) [] st;
     (_, st) \<leftarrow> create_dr_rule lib (rx_flow_table T) (set_dst_mac rd mac clear) rx_actions st;
     (root_actions, st) \<leftarrow> add_dest_table lib (dr_table (tx_flow_table T)) [] st;
     (tx_actions, st) \<leftarrow> add_dest_vport lib (tx_domain T) 0xFFFF [] st;
     let matcher = set_src_mac rd mac clear;
     st \<leftarrow> (if \<not> nic_mode then map_option snd (create_dr_rule lib (tx_flow_root_table T) matcher root_actions st) else Some st);
     map_option snd (create_dr_rule lib (tx_flow_table T) matcher tx_actions st) }"

text \<open>What the loops of the programs have in common: the queues, the address of the first thread, the number of the
  first thread, and the configuration made from the queues, the number of the thread and the window.\<close>

record thread_opts =
  thread_queues :: queue_opts
  target_mac :: u64
  begin_thread :: u64
  nic_mode_flag :: bool
  thread_config :: "queues \<Rightarrow> u32 \<Rightarrow> u32 \<Rightarrow> queue_config_data"

definition thread_number :: "thread_opts \<Rightarrow> nat \<Rightarrow> u32" where
  "thread_number o\<^sub>t i = ucast (of_nat i + begin_thread o\<^sub>t)"

definition start_thread ::
  "host_env \<Rightarrow> thread_opts \<Rightarrow> tables \<Rightarrow> (queue_config_data \<Rightarrow> dpa \<times> 's \<Rightarrow> dpa \<times> 's) \<Rightarrow> nat \<Rightarrow> dpa \<times> 's \<Rightarrow> host \<Rightarrow>
   ((queue_config_data \<times> dpa \<times> 's) \<times> host) option" where
  "start_thread E o\<^sub>t T init i s st = do {
     let lib = env_lib E;
     (_, st) \<leftarrow> create_event_handler lib (handler_func E) st;
     (q, st) \<leftarrow> make_queues lib (env_rdma E) (thread_queues o\<^sub>t) i st;
     (w, st) \<leftarrow> get_window_id lib st;
     let cfg = thread_config o\<^sub>t q (thread_number o\<^sub>t i) w;
     (s, st) \<leftarrow> call_init E init cfg s st;
     st \<leftarrow> thread_rules E T (target_mac o\<^sub>t + of_nat i + begin_thread o\<^sub>t) (nic_mode_flag o\<^sub>t) (q_rq q) st;
     st \<leftarrow> event_handler_run lib (of_nat i + begin_thread o\<^sub>t) i st;
     Some ((cfg, s), st) }"

fun start_threads ::
  "host_env \<Rightarrow> thread_opts \<Rightarrow> tables \<Rightarrow> (queue_config_data \<Rightarrow> dpa \<times> 's \<Rightarrow> dpa \<times> 's) \<Rightarrow> nat list \<Rightarrow> dpa \<times> 's \<Rightarrow> host \<Rightarrow>
   ((queue_config_data list \<times> dpa \<times> 's) \<times> host) option" where
  "start_threads E o\<^sub>t T init [] s st = Some (([], s), st)"
| "start_threads E o\<^sub>t T init (i # js) s st = do {
     ((cfg, s), st) \<leftarrow> start_thread E o\<^sub>t T init i s st;
     ((cfgs, s), st) \<leftarrow> start_threads E o\<^sub>t T init js s st;
     Some ((cfg # cfgs, s), st) }"

text \<open>A program without memory of its own for all threads.\<close>

definition threads_main ::
  "host_env \<Rightarrow> thread_opts \<Rightarrow> (queue_config_data \<Rightarrow> dpa \<times> 's \<Rightarrow> dpa \<times> 's) \<Rightarrow> nat \<Rightarrow> dpa \<times> 's \<Rightarrow>
   ((queue_config_data list \<times> dpa \<times> 's) \<times> host) option" where
  "threads_main E o\<^sub>t init g_thread_num s = do {
     st \<leftarrow> start_context E (mem (fst s));
     let (T, st) = global_tables E st;
     ((cfgs, s), st) \<leftarrow> start_threads E o\<^sub>t T init [0..<g_thread_num] s st;
     Some ((cfgs, (fst s)\<lparr>mem := dev_mem st\<rparr>, snd s), st) }"

section \<open>The programs\<close>

definition mt_opts :: "u64 \<Rightarrow> bool \<Rightarrow> bool \<Rightarrow> bool \<Rightarrow> thread_opts" where
  "mt_opts first on_host shared nic = \<lparr>thread_queues = \<lparr>cq_depth = 7, rq_depth = 7, data_bsize = 11, sq_depth = 7, sq_data_bsize = 11,
       rq_buffer_on_host = on_host, tx_shared_rx_buffer = shared, sq_buffer_on_host = False\<rparr>,
     target_mac = 0x010101010101, begin_thread = first, nic_mode_flag = nic, thread_config = (\<lambda>q i w. queue_config q i 0 w)\<rparr>"

definition mt_main ::
  "host_env \<Rightarrow> flexio \<Rightarrow> u64 \<Rightarrow> bool \<Rightarrow> bool \<Rightarrow> bool \<Rightarrow> nat \<Rightarrow> dpa \<Rightarrow>
   ((queue_config_data list \<times> dpa \<times> refactor_mt_ctx list) \<times> host) option" where
  "mt_main E fx first on_host shared nic g_thread_num d =
     threads_main E (mt_opts first on_host shared nic) (\<lambda>q s. snd (dpa_refactor_mt_device_init fx q s)) g_thread_num (d, dev_ctxs_mt)"

definition nf_opts :: "u64 \<Rightarrow> bool \<Rightarrow> bool \<Rightarrow> bool \<Rightarrow> thread_opts" where
  "nf_opts first on_host shared nic = \<lparr>thread_queues = \<lparr>cq_depth = 7, rq_depth = 7, data_bsize = 11, sq_depth = 7, sq_data_bsize = 11,
       rq_buffer_on_host = on_host, tx_shared_rx_buffer = shared, sq_buffer_on_host = False\<rparr>,
     target_mac = 0xa088c2320440, begin_thread = first, nic_mode_flag = nic, thread_config = (\<lambda>q i w. queue_config q i 0 w)\<rparr>"

definition nf_main ::
  "host_env \<Rightarrow> flexio \<Rightarrow> u64 \<Rightarrow> bool \<Rightarrow> bool \<Rightarrow> bool \<Rightarrow> nat \<Rightarrow> dpa \<times> nf_ctx list \<Rightarrow>
   ((queue_config_data list \<times> dpa \<times> nf_ctx list) \<times> host) option" where
  "nf_main E fx first on_host shared nic g_thread_num s =
     threads_main E (nf_opts first on_host shared nic) (\<lambda>q s. snd (dpa_network_function_device_init fx q s)) g_thread_num s"

definition smt_opts :: "u64 \<Rightarrow> bool \<Rightarrow> bool \<Rightarrow> bool \<Rightarrow> bool \<Rightarrow> thread_opts" where
  "smt_opts first on_host shared tx_on_host nic = \<lparr>thread_queues = \<lparr>cq_depth = 7, rq_depth = 7, data_bsize = 10, sq_depth = 7,
       sq_data_bsize = 10, rq_buffer_on_host = on_host, tx_shared_rx_buffer = shared, sq_buffer_on_host = tx_on_host\<rparr>,
     target_mac = 0x020101010101, begin_thread = first, nic_mode_flag = nic, thread_config = (\<lambda>q i w. queue_config q i 0 w)\<rparr>"

text \<open>The generator then asks for the packets of all threads.\<close>

definition smt_main ::
  "host_env \<Rightarrow> mt_build \<Rightarrow> u16 \<times> u16 \<Rightarrow> flexio \<Rightarrow> u64 \<Rightarrow> bool \<Rightarrow> bool \<Rightarrow> bool \<Rightarrow> bool \<Rightarrow> nat \<Rightarrow> dpa \<times> smt_ctx list \<Rightarrow>
   ((queue_config_data list \<times> dpa \<times> smt_ctx list) \<times> host) option" where
  "smt_main E b ck fx first on_host shared tx_on_host nic g_thread_num s = do {
     ((cfgs, s), st) \<leftarrow> threads_main E (smt_opts first on_host shared tx_on_host nic) (\<lambda>q s. snd (dpa_send_mt_device_init fx q s)) g_thread_num s;
     (_, st) \<leftarrow> ask (env_lib E) (Process_call (process st) 0) st;
     let (_, s) = dpa_send_mt_deivce_first_packet b fx ck s;
     Some ((cfgs, s), st\<lparr>dev_mem := mem (fst s)\<rparr>) }"

definition client_opts :: thread_opts where
  "client_opts = \<lparr>thread_queues = \<lparr>cq_depth = 7, rq_depth = 7, data_bsize = 10, sq_depth = 7, sq_data_bsize = 10,
       rq_buffer_on_host = False, tx_shared_rx_buffer = False, sq_buffer_on_host = False\<rparr>,
     target_mac = 0x020101010101, begin_thread = 0, nic_mode_flag = False, thread_config = (\<lambda>q i w. queue_config q i 0 w)\<rparr>"

definition client_main ::
  "host_env \<Rightarrow> flexio \<Rightarrow> nat \<Rightarrow> dpa \<times> client_ctx list \<Rightarrow> ((queue_config_data list \<times> dpa \<times> client_ctx list) \<times> host) option" where
  "client_main E fx g_thread_num s = do {
     ((cfgs, s), st) \<leftarrow> threads_main E client_opts (\<lambda>q s. snd (dpa_small_bank_client_device_init fx q s)) g_thread_num s;
     (_, st) \<leftarrow> ask (env_lib E) (Process_call (process st) 0) st;
     let (_, s) = dpa_small_bank_client_device_ping_packet fx s;
     Some ((cfgs, s), st\<lparr>dev_mem := mem (fst s)\<rparr>) }"

text \<open>The aggregation program allocates the table of the sums, on the device or on the host, and borrows the key field
  of the send queue for its key.\<close>

definition kv_table :: "host_env \<Rightarrow> bool \<Rightarrow> host \<Rightarrow> ((ptr \<times> u32) \<times> host) option" where
  "kv_table E kv_on_host st = do {
     let lib = env_lib E;
     if \<not> kv_on_host then do {
       (a, st) \<leftarrow> ask lib (Buf_dev_alloc (4 * entry_size)) st;
       Some ((a, 0), st) }
     else do {
       (a, st) \<leftarrow> alloc_huge lib ((4 * entry_size + 63) AND NOT 63) st;
       (mr, st) \<leftarrow> reg_mr lib a ((4 * entry_size + 63) AND NOT 63) [LOCAL_WRITE, REMOTE_WRITE, REMOTE_READ, REMOTE_ATOMIC] st;
       (key, st) \<leftarrow> ask lib (Mr_lkey mr) st;
       Some ((a, ucast key), st) } }"

definition kv_config :: "ptr \<Rightarrow> u32 \<Rightarrow> queues \<Rightarrow> u32 \<Rightarrow> u32 \<Rightarrow> queue_config_data" where
  "kv_config global_address mkey q i w =
     (let cfg = queue_config q i global_address w in cfg\<lparr>sq_data := (sq_data cfg)\<lparr>wqd_mkey_id := mkey\<rparr>\<rparr>)"

definition kv_opts :: "u64 \<Rightarrow> bool \<Rightarrow> bool \<Rightarrow> bool \<Rightarrow> ptr \<Rightarrow> u32 \<Rightarrow> thread_opts" where
  "kv_opts first on_host kv_on_host nic a key = \<lparr>thread_queues = \<lparr>cq_depth = 7, rq_depth = 7, data_bsize = 11, sq_depth = 7,
       sq_data_bsize = 11, rq_buffer_on_host = on_host, tx_shared_rx_buffer = False, sq_buffer_on_host = kv_on_host\<rparr>,
     target_mac = 0x010101010101, begin_thread = first, nic_mode_flag = nic, thread_config = kv_config a key\<rparr>"

definition init_kv :: "flexio \<Rightarrow> queue_config_data \<Rightarrow> dpa \<times> kv_ctx list \<times> kv_globals \<Rightarrow> dpa \<times> kv_ctx list \<times> kv_globals" where
  "init_kv fx q = (\<lambda>(d, s). (d, snd (dpa_kv_aggregation_device_init fx q s)))"

definition kv_main ::
  "host_env \<Rightarrow> flexio \<Rightarrow> u64 \<Rightarrow> bool \<Rightarrow> bool \<Rightarrow> bool \<Rightarrow> nat \<Rightarrow> dpa \<times> kv_ctx list \<times> kv_globals \<Rightarrow>
   ((ptr \<times> queue_config_data list \<times> dpa \<times> kv_ctx list \<times> kv_globals) \<times> host) option" where
  "kv_main E fx first on_host kv_on_host nic g_thread_num s = do {
     st \<leftarrow> start_context E (mem (fst s));
     let (T, st) = global_tables E st;
     ((a, key), st) \<leftarrow> kv_table E kv_on_host st;
     ((cfgs, s), st) \<leftarrow> start_threads E (kv_opts first on_host kv_on_host nic a key) T (init_kv fx) [0..<g_thread_num] s st;
     Some ((a, cfgs, (fst s)\<lparr>mem := dev_mem st\<rparr>, snd s), st) }"

section \<open>The setup of a thread\<close>

lemma thread_rules_framed: "thread_rules E T mac nic_mode r st = Some st' \<Longrightarrow> framed st st'"
  by (auto simp: thread_rules_def Let_def split: bind_splits if_splits dest!: rule_framed) (meson framed_trans)+

lemma global_tables_framed: "global_tables E st = (T, st') \<Longrightarrow> framed st st'"
  by (auto simp: global_tables_def Let_def split: prod.splits dest!: DR_new_framed create_flow_table_framed) (meson framed_trans)+

text \<open>The memory of a thread's queues is as its host program left it.\<close>

definition thread_memory :: "host \<Rightarrow> host \<Rightarrow> rdma \<Rightarrow> queue_opts \<Rightarrow> queue_config_data \<Rightarrow> bool" where
  "thread_memory st st' rd opts cfg \<longleftrightarrow> (\<exists>q. config_of opts q cfg \<and>
     (tx_shared_rx_buffer opts \<longrightarrow> wqd_daddr (wq_transf (q_sq q)) = wqd_daddr (wq_transf (q_rq q)) \<and>
        wqd_mkey_id (wq_transf (q_sq q)) = wqd_mkey_id (wq_transf (q_rq q))) \<and>
     (\<forall>(p, bs) \<in> set (queue_images rd opts q). has st st' p bs)) \<and>
     (wq_ring_daddr (sq_data cfg), 2 ^ sq_depth opts * 64) \<in> set (regions (fresh_calls st st'))"

lemma regions_grows:
  "framed st st\<^sub>1 \<Longrightarrow> grows st\<^sub>1 st\<^sub>2 \<Longrightarrow> set (regions (fresh_calls st st\<^sub>1)) \<subseteq> set (regions (fresh_calls st st\<^sub>2))"
  by (auto simp: framed_def grows_def dest!: fresh_calls_append)

lemma thread_memory_before:
  assumes "framed st st\<^sub>1" and "framed st\<^sub>1 st\<^sub>2" and "thread_memory st\<^sub>1 st\<^sub>2 rd opts cfg"
  shows "thread_memory st st\<^sub>2 rd opts cfg"
proof -
  have "set (regions (fresh_calls st\<^sub>1 st\<^sub>2)) \<subseteq> set (regions (fresh_calls st st\<^sub>2))" by (simp add: fresh_calls_trans [OF assms(1,2)])
  with assms show ?thesis unfolding thread_memory_def by (fastforce intro: has_before)
qed

lemma thread_memory_later:
  assumes "thread_memory st st\<^sub>1 rd opts cfg" and "framed st st\<^sub>1" and "framed st\<^sub>1 st\<^sub>2" and "apart (fresh_calls st st\<^sub>2)"
  shows "thread_memory st st\<^sub>2 rd opts cfg"
proof -
  have "set (regions (fresh_calls st st\<^sub>1)) \<subseteq> set (regions (fresh_calls st st\<^sub>2))" by (simp add: fresh_calls_trans [OF assms(2,3)])
  with assms(1,3,4) show ?thesis unfolding thread_memory_def by (fastforce intro: has_later)
qed

text \<open>The rings of a thread are among the regions allocated for it.\<close>

definition thread_rings :: "queue_opts \<Rightarrow> queue_config_data \<Rightarrow> (ptr \<times> nat) list" where
  "thread_rings opts cfg =
     [(cq_ring_daddr (rq_cq_data cfg), 2 ^ cq_depth opts * 64), (cq_ring_daddr (sq_cq_data cfg), 2 ^ cq_depth opts * 64),
      (wq_ring_daddr (rq_data cfg), 2 ^ rq_depth opts * 16), (wq_ring_daddr (sq_data cfg), 2 ^ sq_depth opts * 64)]"

definition rings_apart :: "queue_opts \<Rightarrow> queue_config_data \<Rightarrow> queue_config_data \<Rightarrow> bool" where
  "rings_apart opts cfg cfg' \<longleftrightarrow>
     list_all (\<lambda>(a, k). list_all (\<lambda>(b, l). sep a k b l) (thread_rings opts cfg')) (thread_rings opts cfg)"

lemma thread_rings_regions:
  assumes "thread_memory st st' rd opts cfg" and "rdma_ok fx rd"
  shows "set (thread_rings opts cfg) \<subseteq> set (regions (fresh_calls st st'))"
proof -
  have "length (rq_ring_image rd n l k a) = n * 16" for n l k a
    using assms(2) by (simp add: length_rq_ring_image rdma_ok_def)
  thus ?thesis using assms length_concat_same [of "fresh_cqe rd" "2 ^ cq_depth opts"]
    by (auto simp: thread_memory_def thread_rings_def queue_images_def config_of_def has_def rdma_ok_def)
qed

lemma rings_apart_regions:
  assumes "framed st st\<^sub>1" and "framed st\<^sub>1 st\<^sub>2" and "apart (fresh_calls st st\<^sub>2)"
    and "set (thread_rings opts cfg) \<subseteq> set (regions (fresh_calls st st\<^sub>1))"
    and "set (thread_rings opts cfg') \<subseteq> set (regions (fresh_calls st\<^sub>1 st\<^sub>2))"
  shows "rings_apart opts cfg cfg'"
  using assms(3-5) unfolding fresh_calls_trans [OF assms(1,2)] rings_apart_def
  by (fastforce simp: apart_def sorted_wrt_append list_all_iff)

text \<open>The context of a thread is as its initialisation left it.\<close>

definition thread_context :: "flexio \<Rightarrow> nat \<Rightarrow> nat \<Rightarrow> queue_config_data \<Rightarrow> cq_ctx_t \<Rightarrow> cq_ctx_t \<Rightarrow> sq_ctx_t \<Rightarrow> bool" where
  "thread_context fx n k cfg rcq scq s \<longleftrightarrow> (\<exists>c. rcq = init_cq_at n (rq_cq_data cfg) c) \<and>
     (\<exists>c. scq = init_cq_at n (sq_cq_data cfg) c) \<and> (\<exists>c. s = init_sq_at fx k (sq_data cfg) c)"

lemma thread_ready:
  assumes "thread_memory st st' rd opts cfg" and "thread_context fx (cq_depth opts) (sq_depth opts) cfg rcq scq s"
    and "rdma_ok fx rd" and "small_rings opts"
  shows "queues_ready fx opts cfg (dev_mem st') rcq scq s"
proof -
  obtain q where q: "config_of opts q cfg" "\<And>p bs. (p, bs) \<in> set (queue_images rd opts q) \<Longrightarrow> load_bytes (dev_mem st') p (length bs) = bs"
    "tx_shared_rx_buffer opts \<Longrightarrow> wqd_daddr (wq_transf (q_sq q)) = wqd_daddr (wq_transf (q_rq q)) \<and>
        wqd_mkey_id (wq_transf (q_sq q)) = wqd_mkey_id (wq_transf (q_rq q))"
    using assms(1) by (auto simp: thread_memory_def has_def)
  obtain c1 c2 c3 where c: "rcq = init_cq_at (cq_depth opts) (rq_cq_data cfg) c1" "scq = init_cq_at (cq_depth opts) (sq_cq_data cfg) c2"
    "s = init_sq_at fx (sq_depth opts) (sq_data cfg) c3" using assms(2) by (auto simp: thread_context_def)
  have "sq_idx_mask s = ring_mask (sq_depth opts + log_sqe_num_segs fx)" unfolding c(3) by simp
  thus ?thesis by (intro queues_ready_images [OF q(2) assms(3,4) q(1) c(1,2) _ q(3)])
qed

text \<open>What the configurations of the programs have in common.\<close>

definition config_law :: "thread_opts \<Rightarrow> bool" where
  "config_law o\<^sub>t \<longleftrightarrow> (\<forall>q i w. config_of (thread_queues o\<^sub>t) q (thread_config o\<^sub>t q i w) \<and> thread_index (thread_config o\<^sub>t q i w) = i)"

text \<open>
  What the host relies on when it starts a thread of a program with at most \<open>N\<close> threads: the initialisation writes
  nothing but the send ring of the thread, sets up the context of the thread, and leaves the other contexts alone.
\<close>

locale thread_program =
  fixes init :: "flexio \<Rightarrow> queue_config_data \<Rightarrow> dpa \<times> 's \<Rightarrow> dpa \<times> 's"
    and rqcq :: "'s \<Rightarrow> nat \<Rightarrow> cq_ctx_t" and sqcq :: "'s \<Rightarrow> nat \<Rightarrow> cq_ctx_t" and sqc :: "'s \<Rightarrow> nat \<Rightarrow> sq_ctx_t"
    and wf :: "'s \<Rightarrow> bool" and n k N :: nat
  assumes init_frame: "segments_local fx \<Longrightarrow> k \<le> j \<Longrightarrow> j \<le> 24 \<Longrightarrow> \<not> inside a (wq_ring_daddr (sq_data q)) (2 ^ j * 64) \<Longrightarrow>
      mem (fst (init fx q s)) a = mem (fst s) a"
    and init_own: "segments_local fx \<Longrightarrow> wf (snd s) \<Longrightarrow> unat (thread_index q) = i \<Longrightarrow> i < N \<Longrightarrow>
      thread_context fx n k q (rqcq (snd (init fx q s)) i) (sqcq (snd (init fx q s)) i) (sqc (snd (init fx q s)) i)"
    and init_other: "i \<noteq> unat (thread_index q) \<Longrightarrow> rqcq (snd (init fx q s)) i = rqcq (snd s) i \<and>
      sqcq (snd (init fx q s)) i = sqcq (snd s) i \<and> sqc (snd (init fx q s)) i = sqc (snd s) i"
    and init_wf: "wf (snd s) \<Longrightarrow> wf (snd (init fx q s))"
begin

lemma start_thread_has:
  assumes "start_thread E o\<^sub>t T (init fx) i s st = Some ((cfg, s'), st')" and "rdma_ok fx (env_rdma E)" and "segments_local fx"
    and "small_rings (thread_queues o\<^sub>t)" and "sq_depth (thread_queues o\<^sub>t) = k" and "config_law o\<^sub>t"
  shows "framed st st'" and "apart (fresh_calls st st') \<Longrightarrow> thread_memory st st' (env_rdma E) (thread_queues o\<^sub>t) cfg"
    and "thread_index cfg = thread_number o\<^sub>t i" and "\<exists>d. s' = init fx cfg (d, snd s)"
proof -
  let ?opts = "thread_queues o\<^sub>t"
  from assms(1) obtain h st\<^sub>0 q st\<^sub>1 w st\<^sub>2 st\<^sub>3 st\<^sub>4 where e: "create_event_handler (env_lib E) (handler_func E) st = Some (h, st\<^sub>0)"
    and q: "make_queues (env_lib E) (env_rdma E) ?opts i st\<^sub>0 = Some (q, st\<^sub>1)"
    and w: "get_window_id (env_lib E) st\<^sub>1 = Some (w, st\<^sub>2)"
    and c: "cfg = thread_config o\<^sub>t q (thread_number o\<^sub>t i) w" and ci: "call_init E (init fx) cfg s st\<^sub>2 = Some (s', st\<^sub>3)"
    and r: "thread_rules E T (target_mac o\<^sub>t + of_nat i + begin_thread o\<^sub>t) (nic_mode_flag o\<^sub>t) (q_rq q) st\<^sub>3 = Some st\<^sub>4"
      "event_handler_run (env_lib E) (of_nat i + begin_thread o\<^sub>t) i st\<^sub>4 = Some st'"
    by (auto simp: start_thread_def Let_def split: bind_splits)
  have co: "config_of ?opts q cfg" "thread_index cfg = thread_number o\<^sub>t i" using assms(6) by (simp_all add: c config_law_def)
  have z: "length (fresh_cqe (env_rdma E)) = 64" "\<And>l k a. length (data_seg (env_rdma E) l k a) = 16"
    using assms(2) by (simp_all add: rdma_ok_def)
  have k: "k \<le> k" "k \<le> 24" using assms(4,5) by (simp_all add: small_rings_def)
  have ring: "wq_ring_daddr (sq_data cfg) = wq_ring_daddr (wq_transf (q_sq q))" using co(1) by (simp add: config_of_def)
  note mq = make_queues_has [OF q assms(4) z, unfolded assms(5), folded ring]
  note ow = owns_later [OF mq(1) window_framed [OF w]]
  have "mem (fst (init fx cfg s)) a = mem (fst s) a" if "\<not> inside a (wq_ring_daddr (sq_data cfg)) (2 ^ k * 64)" for a s
    by (rule init_frame [OF assms(3) k that])
  note cf = call_init_frame [OF ci this ow]
  have f0: "framed st st\<^sub>0" by (rule create_event_handler_framed [OF e])
  have f3: "framed st\<^sub>3 st'" using thread_rules_framed [OF r(1)] event_handler_run_framed [OF r(2)] by (rule framed_trans)
  have f03: "framed st\<^sub>0 st'" by (rule framed_trans [OF cf(1) f3])
  show "framed st st'" by (rule framed_trans [OF f0 f03])
  show "thread_index cfg = thread_number o\<^sub>t i" by (rule co(2))
  show "\<exists>d. s' = init fx cfg (d, snd s)" by (rule cf(4))
  assume ap: "apart (fresh_calls st st')"
  have ap3: "apart (fresh_calls st\<^sub>0 st\<^sub>3)" by (rule apart_mid(1) [OF f0 cf(1) f3 ap])
  have ap0: "apart (fresh_calls st\<^sub>0 st')" by (rule apart_mid(1) [OF f0 f03 framed_refl ap])
  have f02: "framed st\<^sub>0 st\<^sub>1" "framed st\<^sub>0 st\<^sub>2" using mq(1) ow by (simp_all add: owns_def)
  have ap2: "apart (fresh_calls st\<^sub>0 st\<^sub>2)" by (rule apart_grows [OF f02(2) cf(2) ap3])
  have ap1: "apart (fresh_calls st\<^sub>0 st\<^sub>1)" by (rule apart_grows [OF f02(1) framed_grows [OF window_framed [OF w]] ap2])
  have "has st\<^sub>0 st' p bs" if "(p, bs) \<in> set (queue_images (env_rdma E) ?opts q)" for p bs
  proof -
    note x = mq(2) [OF ap1 that]
    have "has st\<^sub>0 st\<^sub>2 p bs" using x has_later [OF _ window_framed [OF w] ap2] by blast
    hence "has st\<^sub>0 st\<^sub>3 p bs" using cf(3) ap3 x by blast
    thus ?thesis by (rule has_later [OF _ f3 ap0])
  qed
  moreover have "(wq_ring_daddr (sq_data cfg), 2 ^ sq_depth ?opts * 64) \<in> set (regions (fresh_calls st\<^sub>0 st'))"
    using ow regions_grows [OF f02(2) grows_trans [OF cf(2) framed_grows [OF f3]]] by (auto simp: owns_def assms(5))
  ultimately have "thread_memory st\<^sub>0 st' (env_rdma E) ?opts cfg" unfolding thread_memory_def using co(1) mq(3) by blast
  thus "thread_memory st st' (env_rdma E) ?opts cfg" by (rule thread_memory_before [OF f0 f03])
qed

text \<open>The threads one after the other: the memory of each is still as it was set up when the last one has started.\<close>

lemma start_threads_memory:
  assumes "rdma_ok fx (env_rdma E)" and "segments_local fx" and "small_rings (thread_queues o\<^sub>t)" and "sq_depth (thread_queues o\<^sub>t) = k"
    and "config_law o\<^sub>t" and "start_threads E o\<^sub>t T (init fx) js s st = Some ((cfgs, s'), st')"
  shows "framed st st' \<and> (apart (fresh_calls st st') \<longrightarrow>
    (\<forall>cfg \<in> set cfgs. thread_memory st st' (env_rdma E) (thread_queues o\<^sub>t) cfg) \<and> sorted_wrt (rings_apart (thread_queues o\<^sub>t)) cfgs)"
  using assms(6)
proof (induction js arbitrary: s st cfgs)
  case (Cons i js)
  from Cons.prems obtain cfg s\<^sub>1 st\<^sub>1 cfgs' where h: "start_thread E o\<^sub>t T (init fx) i s st = Some ((cfg, s\<^sub>1), st\<^sub>1)"
    and t: "start_threads E o\<^sub>t T (init fx) js s\<^sub>1 st\<^sub>1 = Some ((cfgs', s'), st')" and c: "cfgs = cfg # cfgs'"
    by (auto split: bind_splits)
  note hm = start_thread_has [OF h assms(1-5)] and IH = Cons.IH [OF t]
  hence f: "framed st\<^sub>1 st'" by blast
  have ff: "framed st st'" by (rule framed_trans [OF hm(1) f])
  let ?M = "\<lambda>st st'. thread_memory st st' (env_rdma E) (thread_queues o\<^sub>t)"
  have "(\<forall>x \<in> set cfgs. ?M st st' x) \<and> sorted_wrt (rings_apart (thread_queues o\<^sub>t)) cfgs" if ap: "apart (fresh_calls st st')"
  proof -
    have t: "\<forall>x \<in> set cfgs'. ?M st\<^sub>1 st' x" "sorted_wrt (rings_apart (thread_queues o\<^sub>t)) cfgs'"
      using IH apart_mid(1) [OF hm(1) f framed_refl ap] by blast+
    have h: "?M st st\<^sub>1 cfg" by (rule hm(2) [OF apart_mid(1) [OF framed_refl hm(1) f ap]])
    have "\<forall>x \<in> set cfgs'. rings_apart (thread_queues o\<^sub>t) cfg x"
      using rings_apart_regions [OF hm(1) f ap thread_rings_regions [OF h assms(1)]] thread_rings_regions [OF _ assms(1)] t(1) by blast
    moreover have "?M st st' cfg" by (rule thread_memory_later [OF h hm(1) f ap])
    moreover have "\<forall>x \<in> set cfgs'. ?M st st' x" using t(1) thread_memory_before [OF hm(1) f] by blast
    ultimately show ?thesis using t(2) by (simp add: c)
  qed
  with ff show ?case by blast
qed (simp add: framed_refl)

lemma start_threads_contexts:
  assumes "rdma_ok fx (env_rdma E)" and "segments_local fx" and "small_rings (thread_queues o\<^sub>t)" and "sq_depth (thread_queues o\<^sub>t) = k"
    and "config_law o\<^sub>t" and "start_threads E o\<^sub>t T (init fx) js s st = Some ((cfgs, s'), st')" and "wf (snd s)"
    and "distinct (map (unat \<circ> thread_number o\<^sub>t) js)" and "\<And>j. j \<in> set js \<Longrightarrow> unat (thread_number o\<^sub>t j) < N"
  shows "wf (snd s') \<and> (\<forall>i. i \<notin> unat ` thread_number o\<^sub>t ` set js \<longrightarrow>
      rqcq (snd s') i = rqcq (snd s) i \<and> sqcq (snd s') i = sqcq (snd s) i \<and> sqc (snd s') i = sqc (snd s) i) \<and>
    list_all2 (\<lambda>j cfg. thread_index cfg = thread_number o\<^sub>t j \<and> thread_context fx n k cfg (rqcq (snd s') (unat (thread_number o\<^sub>t j)))
      (sqcq (snd s') (unat (thread_number o\<^sub>t j))) (sqc (snd s') (unat (thread_number o\<^sub>t j)))) js cfgs"
  using assms(6-9)
proof (induction js arbitrary: s st cfgs)
  case (Cons i js)
  from Cons.prems(1) obtain cfg s\<^sub>1 st\<^sub>1 cfgs' where h: "start_thread E o\<^sub>t T (init fx) i s st = Some ((cfg, s\<^sub>1), st\<^sub>1)"
    and t: "start_threads E o\<^sub>t T (init fx) js s\<^sub>1 st\<^sub>1 = Some ((cfgs', s'), st')" and c: "cfgs = cfg # cfgs'"
    by (auto split: bind_splits)
  note hm = start_thread_has [OF h assms(1-5)]
  from hm(4) obtain d where d: "s\<^sub>1 = init fx cfg (d, snd s)" by blast
  have w: "wf (snd s\<^sub>1)" using init_wf [of "(d, snd s)"] Cons.prems(2) by (simp add: d)
  have own: "thread_context fx n k cfg (rqcq (snd s\<^sub>1) (unat (thread_number o\<^sub>t i))) (sqcq (snd s\<^sub>1) (unat (thread_number o\<^sub>t i)))
      (sqc (snd s\<^sub>1) (unat (thread_number o\<^sub>t i)))"
    using init_own [OF assms(2), of "(d, snd s)" cfg "unat (thread_number o\<^sub>t i)"] Cons.prems(2,4) hm(3) by (simp add: d)
  have oth: "rqcq (snd s\<^sub>1) j = rqcq (snd s) j \<and> sqcq (snd s\<^sub>1) j = sqcq (snd s) j \<and> sqc (snd s\<^sub>1) j = sqc (snd s) j"
    if "j \<noteq> unat (thread_number o\<^sub>t i)" for j
    using init_other [of j cfg fx "(d, snd s)"] that hm(3) by (simp add: d)
  have n: "unat (thread_number o\<^sub>t i) \<notin> unat ` thread_number o\<^sub>t ` set js" using Cons.prems(3) by (simp add: image_comp)
  have IH: "wf (snd s') \<and> (\<forall>i. i \<notin> unat ` thread_number o\<^sub>t ` set js \<longrightarrow>
      rqcq (snd s') i = rqcq (snd s\<^sub>1) i \<and> sqcq (snd s') i = sqcq (snd s\<^sub>1) i \<and> sqc (snd s') i = sqc (snd s\<^sub>1) i) \<and>
    list_all2 (\<lambda>j cfg. thread_index cfg = thread_number o\<^sub>t j \<and> thread_context fx n k cfg (rqcq (snd s') (unat (thread_number o\<^sub>t j)))
      (sqcq (snd s') (unat (thread_number o\<^sub>t j))) (sqc (snd s') (unat (thread_number o\<^sub>t j)))) js cfgs'"
    by (rule Cons.IH [OF t w]) (use Cons.prems(3,4) in auto)
  with own n hm(3) oth show ?case by (simp add: c)
qed simp

end

lemma unat_thread_number: "unat (begin_thread o\<^sub>t) + i < 2 ^ 32 \<Longrightarrow> unat (thread_number o\<^sub>t i) = unat (begin_thread o\<^sub>t) + i"
  by (simp add: thread_number_def unsigned_ucast_eq take_bit_nat_eq_self unat_word_ariths unat_of_nat take_bit_eq_mod)

context thread_program
begin

text \<open>All threads are ready when the host program has started the last one.\<close>

lemma start_threads_ready:
  assumes "rdma_ok fx (env_rdma E)" and "segments_local fx" and "small_rings (thread_queues o\<^sub>t)" and "sq_depth (thread_queues o\<^sub>t) = k"
    and "config_law o\<^sub>t" and "start_threads E o\<^sub>t T (init fx) [0..<g] s st = Some ((cfgs, s'), st')" and "wf (snd s)"
    and "unat (begin_thread o\<^sub>t) + g \<le> N" and "N < 2 ^ 32" and "cq_depth (thread_queues o\<^sub>t) = n" and "apart (done_calls st')"
  shows "length cfgs = g" and "sorted_wrt (rings_apart (thread_queues o\<^sub>t)) cfgs" and "\<And>i j. j < g \<Longrightarrow> i = unat (begin_thread o\<^sub>t) + j \<Longrightarrow> unat (thread_index (cfgs ! j)) = i \<and>
    queues_ready fx (thread_queues o\<^sub>t) (cfgs ! j) (dev_mem st') (rqcq (snd s') i) (sqcq (snd s') i) (sqc (snd s') i)"
proof -
  have u: "unat (thread_number o\<^sub>t j) = unat (begin_thread o\<^sub>t) + j" if "j < g" for j
    by (rule unat_thread_number) (use that assms(8,9) in linarith)
  have "distinct (map (unat \<circ> thread_number o\<^sub>t) [0..<g])" by (auto simp: distinct_map inj_on_def u)
  from start_threads_contexts [OF assms(1-7) this] u assms(8)
  have a: "list_all2 (\<lambda>j cfg. thread_index cfg = thread_number o\<^sub>t j \<and> thread_context fx n k cfg (rqcq (snd s') (unat (thread_number o\<^sub>t j)))
      (sqcq (snd s') (unat (thread_number o\<^sub>t j))) (sqc (snd s') (unat (thread_number o\<^sub>t j)))) [0..<g] cfgs" by auto
  show g: "length cfgs = g" using list_all2_lengthD [OF a] by simp
  note m = start_threads_memory [OF assms(1-6)]
  have ap: "apart (fresh_calls st st')" using assms(11) m by (simp add: framed_def apart_def sorted_wrt_append)
  show "sorted_wrt (rings_apart (thread_queues o\<^sub>t)) cfgs" using m ap by blast
  fix i j assume j: "j < g" "i = unat (begin_thread o\<^sub>t) + j"
  have "thread_memory st st' (env_rdma E) (thread_queues o\<^sub>t) (cfgs ! j)" using m ap j(1) g by simp
  moreover have "thread_index (cfgs ! j) = thread_number o\<^sub>t j \<and> thread_context fx n k (cfgs ! j) (rqcq (snd s') i) (sqcq (snd s') i) (sqc (snd s') i)"
    using list_all2_nthD [OF a, of j] j u by simp
  ultimately show "unat (thread_index (cfgs ! j)) = i \<and>
      queues_ready fx (thread_queues o\<^sub>t) (cfgs ! j) (dev_mem st') (rqcq (snd s') i) (sqcq (snd s') i) (sqc (snd s') i)"
    using thread_ready [OF _ _ assms(1,3), unfolded assms(4,10)] u j by simp
qed

lemma threads_main_ready:
  assumes "threads_main E o\<^sub>t (init fx) g s = Some ((cfgs, s'), st')" and "apart (done_calls st')"
    and "rdma_ok fx (env_rdma E)" and "segments_local fx" and "small_rings (thread_queues o\<^sub>t)" and "config_law o\<^sub>t"
    and "sq_depth (thread_queues o\<^sub>t) = k" and "cq_depth (thread_queues o\<^sub>t) = n" and "wf (snd s)"
    and "unat (begin_thread o\<^sub>t) + g \<le> N" and "N < 2 ^ 32"
  shows "mem (fst s') = dev_mem st'" and "length cfgs = g" and "sorted_wrt (rings_apart (thread_queues o\<^sub>t)) cfgs"
    and "\<And>i j. j < g \<Longrightarrow> i = unat (begin_thread o\<^sub>t) + j \<Longrightarrow> unat (thread_index (cfgs ! j)) = i \<and>
      queues_ready fx (thread_queues o\<^sub>t) (cfgs ! j) (mem (fst s')) (rqcq (snd s') i) (sqcq (snd s') i) (sqc (snd s') i)"
proof -
  from assms(1) obtain T st\<^sub>1 s\<^sub>1 where t: "start_threads E o\<^sub>t T (init fx) [0..<g] s st\<^sub>1 = Some ((cfgs, s\<^sub>1), st')"
    and s: "s' = ((fst s\<^sub>1)\<lparr>mem := dev_mem st'\<rparr>, snd s\<^sub>1)"
    by (auto simp: threads_main_def split: bind_splits prod.splits)
  show m: "mem (fst s') = dev_mem st'" by (simp add: s)
  note r = start_threads_ready [OF assms(3-5,7,6) t assms(9-11,8,2)]
  show "length cfgs = g" "sorted_wrt (rings_apart (thread_queues o\<^sub>t)) cfgs" using r(1,2) by simp_all
  fix i j assume "j < g" "i = unat (begin_thread o\<^sub>t) + j"
  from r(3) [OF this] show "unat (thread_index (cfgs ! j)) = i \<and>
      queues_ready fx (thread_queues o\<^sub>t) (cfgs ! j) (mem (fst s')) (rqcq (snd s') i) (sqcq (snd s') i) (sqc (snd s') i)"
    by (simp add: s)
qed

end

section \<open>The device programs as thread programs\<close>

lemmas init_defs = Let_def case_prod_beta init_send_sq_frame init_send_sq_snd thread_context_def

interpretation mt_dev: thread_program "\<lambda>fx q s. snd (dpa_refactor_mt_device_init fx q s)"
  "\<lambda>s i. rqcq_ctx (s ! i)" "\<lambda>s i. sqcq_ctx (s ! i)" "\<lambda>s i. sq_ctx (s ! i)" "\<lambda>s. length s = MAX_THREADS_mt" 7 7 MAX_THREADS_mt
  by unfold_locales
    (auto simp: dpa_refactor_mt_device_init_def init_ctx_mt_def init_cq_mt_def init_sq_mt_def init_defs)

interpretation nf_dev: thread_program "\<lambda>fx q s. snd (dpa_network_function_device_init fx q s)"
  "\<lambda>s i. rqcq_ctx (s ! i)" "\<lambda>s i. sqcq_ctx (s ! i)" "\<lambda>s i. sq_ctx (s ! i)" "\<lambda>s. length s = MAX_THREADS_mt" 7 7 MAX_THREADS_mt
  by unfold_locales
    (auto simp: dpa_network_function_device_init_def init_cq_nf_def init_sq_nf_def init_defs)

interpretation smt_dev: thread_program "\<lambda>fx q s. snd (dpa_send_mt_device_init fx q s)"
  "\<lambda>s i. rqcq_ctx (s ! i)" "\<lambda>s i. sqcq_ctx (s ! i)" "\<lambda>s i. sq_ctx (s ! i)" "\<lambda>s. length s = MAX_THREADS_smt" 7 7 MAX_THREADS_smt
  by unfold_locales
    (auto simp: dpa_send_mt_device_init_def init_ctx_smt_def init_cq_smt_def init_sq_smt_def init_defs)

interpretation client_dev: thread_program "\<lambda>fx q s. snd (dpa_small_bank_client_device_init fx q s)"
  "\<lambda>s i. rqcq_ctx (s ! i)" "\<lambda>s i. sqcq_ctx (s ! i)" "\<lambda>s i. sq_ctx (s ! i)" "\<lambda>s. length s = 190" 7 7 190
  by unfold_locales
    (auto simp: dpa_small_bank_client_device_init_def init_ctx_client_def init_cq_client_def init_sq_client_def init_defs)

interpretation kv_dev: thread_program init_kv
  "\<lambda>s i. rqcq_ctx (fst s ! i)" "\<lambda>s i. sqcq_ctx (fst s ! i)" "\<lambda>s i. sq_ctx (fst s ! i)" "\<lambda>s. length (fst s) = MAX_THREADS_kv" 7 7 MAX_THREADS_kv
  by unfold_locales
    (auto simp: init_kv_def dpa_kv_aggregation_device_init_def init_cq_kv_def init_sq_kv_def init_defs)

lemmas opts_defs = config_law_def config_of_def queue_config_def kv_config_def small_rings_def Let_def

section \<open>The numbers of the threads and the table of the sums\<close>

lemma start_thread_config:
  "start_thread E o\<^sub>t T init i s st = Some ((cfg, s'), st') \<Longrightarrow>
     \<exists>q w d. cfg = thread_config o\<^sub>t q (thread_number o\<^sub>t i) w \<and> s' = init cfg (d, snd s)"
  by (auto simp: start_thread_def call_init_def Let_def split: bind_splits) metis+

lemma init_kv_globals:
  "thread_index q \<noteq> 0 \<Longrightarrow> snd (snd (init_kv fx q s)) = snd (snd s)"
  "thread_index q = 0 \<Longrightarrow> snd (snd (init_kv fx q s)) = (snd (snd s))\<lparr>global_entry_ptr := new_buffer_addr q, is_stop := 0, begin_time := 0\<rparr>"
  by (auto simp: init_kv_def dpa_kv_aggregation_device_init_def Let_def case_prod_beta)

lemma kv_thread_config:
  "thread_index (thread_config (kv_opts first on_host kv_on_host nic a key) q i w) = i"
  "new_buffer_addr (thread_config (kv_opts first on_host kv_on_host nic a key) q i w) = a"
  by (simp_all add: kv_opts_def kv_config_def queue_config_def Let_def)

lemma later_threads_globals:
  assumes "start_threads E (kv_opts first on_host kv_on_host nic a key) T (init_kv fx) js s st = Some ((cfgs, s'), st')"
    and "\<And>j. j \<in> set js \<Longrightarrow> thread_number (kv_opts first on_host kv_on_host nic a key) j \<noteq> 0"
  shows "snd (snd s') = snd (snd s)"
  using assms
proof (induction js arbitrary: s st cfgs)
  case (Cons i js)
  from Cons.prems(1) obtain cfg s\<^sub>1 st\<^sub>1 cfgs' where
    h: "start_thread E (kv_opts first on_host kv_on_host nic a key) T (init_kv fx) i s st = Some ((cfg, s\<^sub>1), st\<^sub>1)"
    and t: "start_threads E (kv_opts first on_host kv_on_host nic a key) T (init_kv fx) js s\<^sub>1 st\<^sub>1 = Some ((cfgs', s'), st')"
    by (auto split: bind_splits)
  have "snd (snd s\<^sub>1) = snd (snd s)" using start_thread_config [OF h] Cons.prems(2) [of i]
    by (auto simp: init_kv_globals(1) kv_thread_config)
  moreover have "snd (snd s') = snd (snd s\<^sub>1)" by (rule Cons.IH [OF t]) (use Cons.prems(2) in auto)
  ultimately show ?case by simp
qed simp

section \<open>The other programs\<close>

lemma nf_main_ready:
  assumes "nf_main E fx first on_host shared nic g s = Some ((cfgs, d, cs), st)" and "apart (done_calls st)"
    and "rdma_ok fx (env_rdma E)" and "segments_local fx" and "length (snd s) = 190" and "unat first + g \<le> 190"
    and "j < g" and "i = unat first + j"
  shows "queues_ready fx (thread_queues (nf_opts first on_host shared nic)) (cfgs ! j) (mem d) (rqcq_ctx (cs ! i)) (sqcq_ctx (cs ! i)) (sq_ctx (cs ! i))"
  using nf_dev.threads_main_ready(4) [OF assms(1) [unfolded nf_main_def] assms(2-4), of j i] assms(5-8)
  by (simp add: nf_opts_def opts_defs)

lemma kv_main_ready:
  assumes "kv_main E fx first on_host kv_on_host nic g s = Some ((a, cfgs, d, cs, gl), st)" and "apart (done_calls st)"
    and "rdma_ok fx (env_rdma E)" and "segments_local fx" and "length (fst (snd s)) = 190" and "unat first + g \<le> 190"
    and "j < g" and "i = unat first + j"
  shows "\<exists>key. queues_ready fx (thread_queues (kv_opts first on_host kv_on_host nic a key)) (cfgs ! j) (mem d)
    (rqcq_ctx (cs ! i)) (sqcq_ctx (cs ! i)) (sq_ctx (cs ! i))"
proof -
  from assms(1) obtain key T st\<^sub>1 s\<^sub>1 where
    t: "start_threads E (kv_opts first on_host kv_on_host nic a key) T (init_kv fx) [0..<g] s st\<^sub>1 = Some ((cfgs, s\<^sub>1), st)"
    and s: "mem d = dev_mem st" "cs = fst (snd s\<^sub>1)" by (auto simp: kv_main_def split: bind_splits prod.splits)
  have "small_rings (thread_queues (kv_opts first on_host kv_on_host nic a key))" "config_law (kv_opts first on_host kv_on_host nic a key)"
    by (simp_all add: kv_opts_def opts_defs)
  from kv_dev.start_threads_ready(3) [OF assms(3,4) this(1) _ this(2) t, of j i] assms(2,5-8) show ?thesis
    by (auto simp: kv_opts_def s)
qed

text \<open>The generator and the client find the same state when they are asked for their first packets.\<close>

lemma smt_main_ready:
  assumes "smt_main E b ck fx first on_host shared tx_on_host nic g s = Some (r, st)" and "apart (done_calls st)"
    and "rdma_ok fx (env_rdma E)" and "segments_local fx" and "length (snd s) = 190" and "unat first + g \<le> 190"
  shows "\<exists>cfgs d cs. r = (cfgs, snd (dpa_send_mt_deivce_first_packet b fx ck (d, cs))) \<and>
    (\<forall>j < g. let i = unat first + j in queues_ready fx (thread_queues (smt_opts first on_host shared tx_on_host nic)) (cfgs ! j) (mem d)
      (rqcq_ctx (cs ! i)) (sqcq_ctx (cs ! i)) (sq_ctx (cs ! i)))"
proof -
  from assms(1) obtain cfgs d cs st\<^sub>1 v st\<^sub>2 where
    m: "threads_main E (smt_opts first on_host shared tx_on_host nic) (\<lambda>q s. snd (dpa_send_mt_device_init fx q s)) g s = Some ((cfgs, d, cs), st\<^sub>1)"
    and a: "ask (env_lib E) (Process_call (process st\<^sub>1) 0) st\<^sub>1 = Some (v, st\<^sub>2)" "done_calls st = done_calls st\<^sub>2"
    and r: "r = (cfgs, snd (dpa_send_mt_deivce_first_packet b fx ck (d, cs)))" by (auto simp: smt_main_def Let_def split: bind_splits prod.splits)
  have "apart (done_calls st\<^sub>1)" using assms(2) a by (auto simp: ask_def apart_def split: bind_splits)
  note t = smt_dev.threads_main_ready(4) [OF m this assms(3,4)]
  have "\<forall>j < g. let i = unat first + j in queues_ready fx (thread_queues (smt_opts first on_host shared tx_on_host nic)) (cfgs ! j) (mem d)
      (rqcq_ctx (cs ! i)) (sqcq_ctx (cs ! i)) (sq_ctx (cs ! i))"
    using t assms(5,6) by (simp add: smt_opts_def opts_defs)
  with r show ?thesis by blast
qed

lemma client_main_ready:
  assumes "client_main E fx g s = Some (r, st)" and "apart (done_calls st)"
    and "rdma_ok fx (env_rdma E)" and "segments_local fx" and "length (snd s) = 190" and "g \<le> 190"
  shows "\<exists>cfgs d cs. r = (cfgs, snd (dpa_small_bank_client_device_ping_packet fx (d, cs))) \<and>
    (\<forall>j < g. let i = j in queues_ready fx (thread_queues client_opts) (cfgs ! j) (mem d)
      (rqcq_ctx (cs ! i)) (sqcq_ctx (cs ! i)) (sq_ctx (cs ! i)))"
proof -
  from assms(1) obtain cfgs d cs st\<^sub>1 v st\<^sub>2 where
    m: "threads_main E client_opts (\<lambda>q s. snd (dpa_small_bank_client_device_init fx q s)) g s = Some ((cfgs, d, cs), st\<^sub>1)"
    and a: "ask (env_lib E) (Process_call (process st\<^sub>1) 0) st\<^sub>1 = Some (v, st\<^sub>2)" "done_calls st = done_calls st\<^sub>2"
    and r: "r = (cfgs, snd (dpa_small_bank_client_device_ping_packet fx (d, cs)))" by (auto simp: client_main_def Let_def split: bind_splits prod.splits)
  have "apart (done_calls st\<^sub>1)" using assms(2) a by (auto simp: ask_def apart_def split: bind_splits)
  note t = client_dev.threads_main_ready(4) [OF m this assms(3,4)]
  have "\<forall>j < g. let i = j in queues_ready fx (thread_queues client_opts) (cfgs ! j) (mem d)
      (rqcq_ctx (cs ! i)) (sqcq_ctx (cs ! i)) (sq_ctx (cs ! i))"
    using t assms(5,6) by (simp add: client_opts_def opts_defs)
  with r show ?thesis by blast
qed

section \<open>Properties\<close>

text \<open>
  C8: the host program of the multi-threaded reflector.  When it has started its threads, with the numbers from
  \<open>begin_thread\<close> on, all below 190, and the library handed out disjoint parts of device memory, then every thread finds
  its own context and queues as its receive loop assumes them: both completion queues start empty in the ownership
  protocol, the receive ring points to consecutive parts of 2048 bytes, its doorbell record announces all 128 entries,
  and the depth of the send ring is the one the host chose; setting up the later threads has changed none of it, and no
  two threads share a part of a ring.
\<close>

theorem mt_main_ready:
  assumes "mt_main E fx first on_host shared nic g d0 = Some ((cfgs, d, cs), st)" and "apart (done_calls st)"
    and "rdma_ok fx (env_rdma E)" and "segments_local fx" and "unat first + g \<le> 190"
  shows "mem d = dev_mem st \<and> length cfgs = g \<and> sorted_wrt (rings_apart (thread_queues (mt_opts first on_host shared nic))) cfgs \<and>
    (\<forall>j < g. let i = unat first + j; cfg = cfgs ! j; c = cs ! i in
      unat (thread_index cfg) = i \<and> nic_inv fx 7 rqcq_ctx (0, 0, d, c) \<and> nic_inv fx 7 sqcq_ctx (0, 0, d, c) \<and>
      \<not> cqe_ready fx (mem d) (rqcq_ctx c) \<and>
      (\<forall>e < 128. rwqe_get_addr fx (mem d) (wq_ring_daddr (rq_data cfg) + of_nat e * rwqe_bsize fx) =
        wqd_daddr (rq_data cfg) + of_nat (e * 2048)) \<and>
      load_bytes (mem d) (wq_dbr_daddr (rq_data cfg)) 8 = [0, 0, 0, 128, 0, 0, 0, 0] \<and>
      sq_idx_mask (sq_ctx c) = ring_mask (7 + log_sqe_num_segs fx))"
proof -
  have o: "small_rings (thread_queues (mt_opts first on_host shared nic))" "config_law (mt_opts first on_host shared nic)"
    by (simp_all add: mt_opts_def opts_defs)
  note m = mt_dev.threads_main_ready [OF assms(1) [unfolded mt_main_def] assms(2-4) o]
  have "rq_dbr_image 7 = [0, 0, 0, 128, 0, 0, 0, 0]"
    by (simp add: rq_dbr_image_def be32_bytes_def LOG2VALUE_def word_bytes_def upt_rec)
  thus ?thesis using m assms(5) cq_starts_not_ready
    by (simp add: mt_opts_def dev_ctxs_mt_def queues_ready_def flip: cq_starts_nic_inv) blast
qed

text \<open>
  C38: the table of the aggregation program reaches the device only through the thread with number 0.  With threads
  numbered from 0 the device ends up with the address the host allocated; with \<open>begin_thread\<close> above 0 the
  initialisations leave the address, and the other variables of all threads, as they were.
\<close>

theorem kv_first_thread:
  assumes "kv_main E fx first on_host kv_on_host nic g s = Some ((a, cfgs, d, cs, gl), st)" and "unat first + g \<le> 190" and "0 < g"
  shows "if first = 0 then global_entry_ptr gl = a \<and> is_stop gl = 0 \<and> begin_time gl = 0 else gl = snd (snd s)"
proof -
  from assms(1) obtain key T st\<^sub>1 s\<^sub>1 where
    t: "start_threads E (kv_opts first on_host kv_on_host nic a key) T (init_kv fx) [0..<g] s st\<^sub>1 = Some ((cfgs, s\<^sub>1), st)"
    and s: "gl = snd (snd s\<^sub>1)" by (auto simp: kv_main_def split: bind_splits prod.splits)
  let ?o = "kv_opts first on_host kv_on_host nic a key"
  have u: "unat (thread_number ?o j) = unat first + j" if "j < g" for j
    using unat_thread_number [of ?o j] that assms(2) by (simp add: kv_opts_def)
  show ?thesis
  proof (cases "first = 0")
    case False
    hence "thread_number ?o j \<noteq> 0" if "j < g" for j using u [OF that] by (auto simp: unat_eq_0)
    thus ?thesis using later_threads_globals [OF t] False s by auto
  next
    case True
    from t [unfolded upt_conv_Cons [OF assms(3)]] obtain cfg s\<^sub>2 st\<^sub>2 cfgs' where
      h: "start_thread E ?o T (init_kv fx) 0 s st\<^sub>1 = Some ((cfg, s\<^sub>2), st\<^sub>2)"
      and r: "start_threads E ?o T (init_kv fx) [Suc 0..<g] s\<^sub>2 st\<^sub>2 = Some ((cfgs', s\<^sub>1), st)" by (auto split: bind_splits)
    have "thread_number ?o j \<noteq> 0" if "j \<in> set [Suc 0..<g]" for j using u [of j] that by auto
    from later_threads_globals [OF r this] have e: "gl = snd (snd s\<^sub>2)" by (simp add: s)
    have "thread_number ?o 0 = 0" using u [OF assms(3)] True by (simp add: unat_eq_0)
    thus ?thesis using start_thread_config [OF h] True e by (auto simp: init_kv_globals(2) kv_thread_config)
  qed
qed

section \<open>Concrete runs\<close>

text \<open>A thread of the reflector, with the library that hands out a new megabyte at every call.\<close>

definition megabytes :: "nat \<Rightarrow> (nat \<times> nat) list \<Rightarrow> (ptr \<times> nat) list" where
  "megabytes n = map (\<lambda>(o\<^sub>c, k). (0x100000 * of_nat (n + o\<^sub>c), k))"

lemma sample_mt_queues:
  assumes "length (done_calls st) = 14 \<or> length (done_calls st) = 57" and "flexio_uar st \<noteq> 0" "i < length (event_handler_vec st)"
  shows "\<exists>q st'. make_queues new_megabyte sample_rd (thread_queues (mt_opts first True True False)) i st = Some (q, st') \<and>
    length (done_calls st') = length (done_calls st) + 31 \<and> event_handler_vec st' = event_handler_vec st \<and> window st' = window st \<and>
    flexio_uar st' = flexio_uar st \<and> regions (done_calls st') = regions (done_calls st) @
      megabytes (length (done_calls st)) [(3, 8), (5, 8192), (9, 8), (11, 8192), (18, 2048), (19, 8), (28, 8192), (29, 8)]"
proof -
  have a: "as_int 128 = 128" "unat (LOG2VALUE 6) = 64" "LOG2VALUE 6 = 64" "LOG2VALUE 13 = 8192" "LOG2VALUE 7 = 128"
    using as_int_of_nat [of 128] by (simp_all add: LOG2VALUE_def)
  have c: "length (fresh_cqe sample_rd) = 64" using sample_rdma by (simp add: rdma_ok_def)
  hence "length (cq_ring_image sample_rd 128) = 8192"
    using length_concat_same [of "fresh_cqe sample_rd" 128] by (simp add: cq_ring_image_def fresh_cqe_def)
  with assms show ?thesis by (elim disjE) (simp_all add: make_queues_def mt_opts_def sample_calls Let_def a megabytes_def)
qed

lemma sample_thread_rules:
  "\<exists>st'. thread_rules sample_env T mac False r st = Some st' \<and> regions (done_calls st') = regions (done_calls st) \<and>
     length (done_calls st') = length (done_calls st) + 7 \<and>
     event_handler_vec st' = event_handler_vec st \<and> window st' = window st \<and> flexio_uar st' = flexio_uar st"
  by (simp add: thread_rules_def sample_env_def sample_calls Let_def)

lemma sample_tables:
  assumes "start_context sample_env m = Some st"
  shows "\<exists>T st'. global_tables sample_env st = (T, st') \<and> regions (done_calls st') = [] \<and>
     length (done_calls st') = 13 \<and> event_handler_vec st' = [] \<and> window st' \<noteq> 0 \<and> flexio_uar st' \<noteq> 0"
  using assms by (auto simp: start_context_def global_tables_def sample_env_def sample_calls Let_def)

definition mt_regions :: "(nat \<times> nat) list" where
  "mt_regions = [(3, 8), (5, 8192), (9, 8), (11, 8192), (18, 2048), (19, 8), (28, 8192), (29, 8), (33, 0)]"

lemma sample_mt_thread:
  assumes "length (done_calls st) = 13 \<or> length (done_calls st) = 56" and "flexio_uar st \<noteq> 0" "window st \<noteq> 0" "length (event_handler_vec st) = i"
  shows "\<exists>cfg s' st'. start_thread sample_env (mt_opts first True True False) T init i s st = Some ((cfg, s'), st') \<and>
    length (done_calls st') = length (done_calls st) + 43 \<and> flexio_uar st' \<noteq> 0 \<and> window st' \<noteq> 0 \<and> length (event_handler_vec st') = Suc i \<and>
    regions (done_calls st') = regions (done_calls st) @ megabytes (Suc (length (done_calls st))) mt_regions"
proof -
  obtain h st\<^sub>1 where e: "create_event_handler new_megabyte 2 st = Some (h, st\<^sub>1)" "length (done_calls st\<^sub>1) = Suc (length (done_calls st))"
    "flexio_uar st\<^sub>1 = flexio_uar st" "window st\<^sub>1 = window st" "length (event_handler_vec st\<^sub>1) = Suc i" "regions (done_calls st\<^sub>1) = regions (done_calls st)"
    using assms(4) by (simp add: sample_calls)
  obtain q st\<^sub>2 where q: "make_queues new_megabyte sample_rd (thread_queues (mt_opts first True True False)) i st\<^sub>1 = Some (q, st\<^sub>2)"
    "length (done_calls st\<^sub>2) = length (done_calls st) + 32" "event_handler_vec st\<^sub>2 = event_handler_vec st\<^sub>1" "window st\<^sub>2 = window st"
    "flexio_uar st\<^sub>2 = flexio_uar st" "regions (done_calls st\<^sub>2) = regions (done_calls st) @ megabytes (Suc (length (done_calls st))) (butlast mt_regions)"
    using sample_mt_queues [of st\<^sub>1 i first] e(2-6) assms(1,2) by (auto simp: mt_regions_def)
  obtain w st\<^sub>3 where w: "get_window_id new_megabyte st\<^sub>2 = Some (w, st\<^sub>3)" "length (done_calls st\<^sub>3) = length (done_calls st) + 33"
    "event_handler_vec st\<^sub>3 = event_handler_vec st\<^sub>1" "window st\<^sub>3 = window st" "flexio_uar st\<^sub>3 = flexio_uar st"
    "regions (done_calls st\<^sub>3) = regions (done_calls st\<^sub>2)"
    using q(2-5) assms(3) by (simp add: sample_calls)
  let ?cfg = "thread_config (mt_opts first True True False) q (thread_number (mt_opts first True True False) i) w"
  obtain s' st\<^sub>4 where c: "call_init sample_env init ?cfg s st\<^sub>3 = Some (s', st\<^sub>4)" "length (done_calls st\<^sub>4) = length (done_calls st) + 35"
    "event_handler_vec st\<^sub>4 = event_handler_vec st\<^sub>1" "window st\<^sub>4 = window st" "flexio_uar st\<^sub>4 = flexio_uar st"
    "regions (done_calls st\<^sub>4) = regions (done_calls st\<^sub>2) @ [(0x100000 * of_nat (Suc (length (done_calls st) + 33)), 0)]"
    using w(2-6) by (simp add: call_init_def sample_env_def sample_calls Let_def del: of_nat_Suc)
  obtain st\<^sub>5 where r: "thread_rules sample_env T (target_mac (mt_opts first True True False) + of_nat i + begin_thread (mt_opts first True True False))
      (nic_mode_flag (mt_opts first True True False)) (q_rq q) st\<^sub>4 = Some st\<^sub>5"
    "length (done_calls st\<^sub>5) = length (done_calls st) + 42"
    "event_handler_vec st\<^sub>5 = event_handler_vec st\<^sub>1" "window st\<^sub>5 = window st" "flexio_uar st\<^sub>5 = flexio_uar st"
    "regions (done_calls st\<^sub>5) = regions (done_calls st\<^sub>4)"
    using sample_thread_rules [of T _ "q_rq q" st\<^sub>4] c(2-5) by (force simp: mt_opts_def)
  obtain st\<^sub>6 where "event_handler_run new_megabyte (of_nat i + begin_thread (mt_opts first True True False)) i st\<^sub>5 = Some st\<^sub>6"
    "length (done_calls st\<^sub>6) = length (done_calls st) + 43" "event_handler_vec st\<^sub>6 = event_handler_vec st\<^sub>1" "window st\<^sub>6 = window st"
    "flexio_uar st\<^sub>6 = flexio_uar st" "regions (done_calls st\<^sub>6) = regions (done_calls st\<^sub>4)"
    using r(2-6) e(5) by (simp add: sample_calls)
  thus ?thesis using e(1,5) q(1,6) w(1) c(1,6) r(1) assms(2,3)
    by (simp add: start_thread_def sample_env_def Let_def mt_regions_def megabytes_def)
qed

lemma sample_mt_main:
  "\<exists>cfgs s' st. threads_main sample_env (mt_opts first True True False) init 2 s = Some ((cfgs, s'), st) \<and> apart (done_calls st)"
proof -
  obtain st\<^sub>0 where s: "start_context sample_env (mem (fst s)) = Some st\<^sub>0"
    using sample_start [of "mem (fst s)"] by (auto split: bind_splits)
  obtain T st\<^sub>1 where t: "global_tables sample_env st\<^sub>0 = (T, st\<^sub>1)" "regions (done_calls st\<^sub>1) = []" "length (done_calls st\<^sub>1) = 13"
    "event_handler_vec st\<^sub>1 = []" "window st\<^sub>1 \<noteq> 0" "flexio_uar st\<^sub>1 \<noteq> 0" using sample_tables [OF s] by blast
  obtain cfg\<^sub>0 s\<^sub>0 st\<^sub>2 where a: "start_thread sample_env (mt_opts first True True False) T init 0 s st\<^sub>1 = Some ((cfg\<^sub>0, s\<^sub>0), st\<^sub>2)"
    "length (done_calls st\<^sub>2) = 56" "flexio_uar st\<^sub>2 \<noteq> 0" "window st\<^sub>2 \<noteq> 0" "length (event_handler_vec st\<^sub>2) = 1"
    "regions (done_calls st\<^sub>2) = megabytes 14 mt_regions"
    using sample_mt_thread [of st\<^sub>1 0 first T init s] t(2-6) by auto
  obtain cfg\<^sub>1 s\<^sub>1 st\<^sub>3 where b: "start_thread sample_env (mt_opts first True True False) T init 1 s\<^sub>0 st\<^sub>2 = Some ((cfg\<^sub>1, s\<^sub>1), st\<^sub>3)"
    "regions (done_calls st\<^sub>3) = megabytes 14 mt_regions @ megabytes 57 mt_regions"
    using sample_mt_thread [of st\<^sub>2 1 first T init s\<^sub>0] a(2-6) by auto
  have "apart (done_calls st\<^sub>3)" by (simp add: apart_def b(2) megabytes_def mt_regions_def sep_def)
  moreover have "[0..<2] = [0, 1]" by (simp add: upt_rec)
  ultimately show ?thesis using s t(1) a(1) b(1) by (simp add: threads_main_def)
qed

theorem mt_main_ready_witness:
  "\<exists>cfgs d cs st. mt_main sample_env sample_fx 5 True True False 2 sample_dpa = Some ((cfgs, d, cs), st) \<and> length cfgs = 2 \<and>
     rings_apart (thread_queues (mt_opts 5 True True False)) (cfgs ! 0) (cfgs ! 1) \<and>
     nic_inv sample_fx 7 rqcq_ctx (0, 0, d, cs ! 6) \<and> load_bytes (mem d) (wq_dbr_daddr (rq_data (cfgs ! 1))) 8 = [0, 0, 0, 128, 0, 0, 0, 0]"
proof -
  obtain cfgs d cs st where m: "mt_main sample_env sample_fx 5 True True False 2 sample_dpa = Some ((cfgs, d, cs), st)" "apart (done_calls st)"
    using sample_mt_main unfolding mt_main_def by (metis prod.collapse)
  have "rdma_ok sample_fx (env_rdma sample_env)" using sample_rdma by (simp add: sample_env_def)
  note r = mt_main_ready [OF m this sample_segments]
  have l: "length cfgs = 2" "sorted_wrt (rings_apart (thread_queues (mt_opts 5 True True False))) cfgs" using r by simp_all
  have "rings_apart (thread_queues (mt_opts 5 True True False)) (cfgs ! 0) (cfgs ! 1)"
    by (rule sorted_wrt_nth_less [OF l(2)]) (simp_all add: l(1))
  moreover have "\<forall>j < 2. nic_inv sample_fx 7 rqcq_ctx (0, 0, d, cs ! (5 + j)) \<and>
      load_bytes (mem d) (wq_dbr_daddr (rq_data (cfgs ! j))) 8 = [0, 0, 0, 128, 0, 0, 0, 0]" using r by (auto simp: Let_def)
  from this [rule_format, of 1] have "nic_inv sample_fx 7 rqcq_ctx (0, 0, d, cs ! 6)"
    "load_bytes (mem d) (wq_dbr_daddr (rq_data (cfgs ! 1))) 8 = [0, 0, 0, 128, 0, 0, 0, 0]" by simp_all
  ultimately show ?thesis using m(1) l(1) by blast
qed

lemma sample_kv_main:
  "\<exists>a cfgs s' st. kv_main sample_env fx first False False False 1 s = Some ((a, cfgs, s'), st)"
proof -
  obtain st\<^sub>0 where s: "start_context sample_env (mem (fst s)) = Some st\<^sub>0"
    using sample_start [of "mem (fst s)"] by (auto split: bind_splits)
  obtain T st\<^sub>1 where t: "global_tables sample_env st\<^sub>0 = (T, st\<^sub>1)" "window st\<^sub>1 \<noteq> 0" "flexio_uar st\<^sub>1 \<noteq> 0" using sample_tables [OF s] by blast
  obtain a st\<^sub>2 where k: "kv_table sample_env False st\<^sub>1 = Some ((a, 0), st\<^sub>2)" "window st\<^sub>2 \<noteq> 0" "flexio_uar st\<^sub>2 \<noteq> 0"
    using t(2,3) by (simp add: kv_table_def sample_env_def sample_calls)
  let ?o = "kv_opts first False False False a 0"
  obtain h st\<^sub>3 where e: "create_event_handler new_megabyte 2 st\<^sub>2 = Some (h, st\<^sub>3)" "event_handler_vec st\<^sub>3 \<noteq> []" "window st\<^sub>3 \<noteq> 0" "flexio_uar st\<^sub>3 \<noteq> 0"
    using k(2,3) by (simp add: sample_calls)
  obtain q st\<^sub>4 where q: "make_queues new_megabyte sample_rd (thread_queues ?o) 0 st\<^sub>3 = Some (q, st\<^sub>4)"
    "event_handler_vec st\<^sub>4 \<noteq> []" "window st\<^sub>4 \<noteq> 0"
    using sample_own_queues [OF _ _ e(4,2), of "thread_queues ?o"] e(2,3) by (auto simp: kv_opts_def)
  obtain w st\<^sub>5 where w: "get_window_id new_megabyte st\<^sub>4 = Some (w, st\<^sub>5)" "event_handler_vec st\<^sub>5 \<noteq> []" using q(2,3) by (simp add: sample_calls)
  let ?cfg = "thread_config ?o q (thread_number ?o 0) w"
  obtain s' st\<^sub>6 where c: "call_init sample_env (init_kv fx) ?cfg s st\<^sub>5 = Some (s', st\<^sub>6)" "event_handler_vec st\<^sub>6 \<noteq> []"
    using w(2) by (simp add: call_init_def sample_env_def sample_calls Let_def)
  obtain st\<^sub>7 where r: "thread_rules sample_env T (target_mac ?o + begin_thread ?o) (nic_mode_flag ?o) (q_rq q) st\<^sub>6 = Some st\<^sub>7"
    "event_handler_vec st\<^sub>7 \<noteq> []"
    using sample_thread_rules [of T "target_mac ?o + begin_thread ?o" "q_rq q" st\<^sub>6] c(2) by (force simp: kv_opts_def)
  obtain st\<^sub>8 where "event_handler_run new_megabyte (begin_thread ?o) 0 st\<^sub>7 = Some st\<^sub>8" using r(2) by (simp add: sample_calls)
  hence "start_thread sample_env ?o T (init_kv fx) 0 s st\<^sub>2 = Some ((?cfg, s'), st\<^sub>8)"
    using e(1) q(1) w(1) c(1) r(1) by (simp add: start_thread_def sample_env_def Let_def)
  thus ?thesis using s t(1) k(1) by (cases s') (simp add: kv_main_def)
qed

definition no_globals :: kv_globals where "no_globals = \<lparr>global_entry_ptr = 0, is_stop = 0, begin_time = 0\<rparr>"

theorem kv_first_thread_witness:
  "\<exists>a cfgs d cs gl st. kv_main sample_env sample_fx 5 False False False 1 (sample_dpa, replicate 190 dev_ctx_kv, no_globals) = Some ((a, cfgs, d, cs, gl), st) \<and>
     gl = no_globals"
proof -
  obtain a cfgs d cs gl st where
    m: "kv_main sample_env sample_fx 5 False False False 1 (sample_dpa, replicate 190 dev_ctx_kv, no_globals) = Some ((a, cfgs, d, cs, gl), st)"
    using sample_kv_main by (metis prod.collapse)
  from kv_first_thread [OF m] m show ?thesis by simp
qed

end
