(* ===== verification/Spec2Isabelle.thy ===== *)
theory Spec2Isabelle
  imports Wrapper_Properties Refactor_Mt Magic_Scan Kv_Aggregation Network_Function Hostrq Send_Mt Bank_Client Cache_Bench Dhrystone Dpdk_Utils Roofline
    Bank_System Host_Threads
begin

text \<open>
  BenchBF3: programs that measure the data-path accelerator (DPA) of a BlueField-3 card, and the host programs around
  them.  Paths are relative to \<open>src/\<close>.

  \<^bold>\<open>The system.\<close>  A host program of \<open>flexio/\<close> opens the card, creates completion, receive and send queues in
  device memory through \<open>wrapper_flexio/wrapper_flexio.cpp\<close>, hands their addresses to a device program by a
  remote call of its initialisation, installs steering rules, and starts event handlers.  The card writes a completion
  entry for each packet and wakes the handler, which takes entries while their owner bit says that they are new,
  answers the packets through the send queue and rings a doorbell.  The programs differ in what they do with a packet:
  send it back, count keys, hash flows, serve transactions, measure time or memory.  The programs of \<open>test_suite/\<close>
  run on the host: a transaction server and client over remote procedure calls, and a roofline benchmark.
  \<open>utils/dpdk\<close> sets up ports and rules for DPDK.

  \<^bold>\<open>Foundations.\<close>
  \<^item> \<open>Dpa_Prelude\<close>: machine words, byte-addressed memory with little-endian loads and stores, regions, ring masks.
    The locale \<open>table_fill\<close> is about loops that write a table entry by entry.
  \<^item> \<open>Flexio_Device\<close>: the FlexIO device library and the intrinsics as a record \<open>fx\<close> of functions; the state
    \<open>dpa\<close> of a thread, with memory, trace of hardware calls and number of counter reads.
  \<^item> \<open>Wrapper_Device\<close>, \<open>Packet_Headers\<close>: the device side of \<open>wrapper_flexio\<close>, with queue contexts, \<open>step_cq\<close>,
    \<open>step_rq\<close>, send entries, buffers, timer, and the packed headers of \<open>common_cross.h\<close>.
  \<^item> \<open>Rx_Loop\<close>: the receive loop as an inductive step relation, in which the card may write memory between any two
    turns; \<open>rx_seen\<close> are its runs with what each turn saw of its packet.  Locales \<open>receive_loop\<close>, \<open>filtering_loop\<close>,
    \<open>selecting_loop\<close> and \<open>reflecting_loop\<close> give the laws of a packet function and prove runs once for all programs.
  \<^item> \<open>Sample_Device\<close>: a concrete library with the entry layouts of the card, for concrete instances.
  \<^item> \<open>Interleaving\<close>: threads that share a state and move one atomic access at a time; locale \<open>counted_accesses\<close>.
  \<^item> \<open>Host_Prelude\<close>: results of DOCA functions and early returns.

  \<^bold>\<open>Device programs.\<close>  One definition for each function of the C file, in its order.
  \<^item> \<open>Wrapper_Properties\<close>: the owner test agrees with the abstract queue of produced and not consumed entries; the
    owner bit stays right across the wrap of the 32-bit index; send buffers lie in their area.
  \<^item> \<open>Refactor\<close>, \<open>Refactor_Mt\<close>: \<open>flexio/dpa_refactor\<close> and \<open>dpa_refactor_mt\<close>.  Every packet taken is
    answered once, in order, by its own entry, in every interleaving with the card and, for the second, of all threads.
  \<^item> \<open>Magic_Scan\<close>: \<open>dpa_refactor_random_access\<close> and \<open>dpa_refactor_workingset\<close>, which scan memory up to a magic
    number; when the scan ends and what it reads.
  \<^item> \<open>Kv_Aggregation\<close>: \<open>dpa_kv_aggregation\<close>; counters grow by the sums of the values, with the packets on the
    host under the right keys of the window, and the copy to a local array overruns it.
  \<^item> \<open>Network_Function\<close>: \<open>dpa_network_function\<close>; the hashes and the flow counters.
  \<^item> \<open>Ddio\<close>, \<open>Hostrq\<close>: \<open>dpa_refactor_ddio\<close> and \<open>dpa_refactor_test_hostrq\<close>; the loop of 64 packets, the
    rewritten receive ring, the pointer chase.
  \<^item> \<open>Send\<close>, \<open>Send_Mt\<close>: \<open>dpa_send\<close>, \<open>dpa_send_ntp\<close>, \<open>dpa_send_mt\<close>; which sizes are answered, packet
    indices, contents, headers, the same bytes on both ways to build a packet.
  \<^item> \<open>Small_Bank\<close>, \<open>Bank_Client\<close>: both sides of \<open>dpa_small_bank\<close>; locking on the server, well-formed
    transactions on the client.
  \<^item> \<open>Cache_Bench\<close>, \<open>Dhrystone\<close>, \<open>Roofline\<close>: \<open>flexio/bench\<close>, \<open>flexio/roofline\<close> and
    \<open>test_suite/roofline\<close>; working sets, decimal parsing, the values Dhrystone announces, closed forms of kernels.

  \<^bold>\<open>Host programs.\<close>
  \<^item> \<open>Flexio_Host\<close>: the classes of \<open>wrapper_flexio/wrapper_flexio.cpp\<close>.  The libraries are one function from the
    history of calls to the result of the next call, \<open>None\<close> for a failed assertion; device memory is part of the state.
  \<^item> \<open>Host_Memory\<close>: what the queue constructors leave in device memory, given that the library hands out disjoint
    regions (\<open>apart\<close>): \<open>framed\<close>, \<open>has\<close> and \<open>owns\<close> carry contents through later calls.
  \<^item> \<open>Host_Setup\<close>: the \<open>main\<close> functions with one thread.  The locale \<open>device_program\<close> states what the host relies
    on of an initialisation; the theorems say that the host leaves the start state that the receive loop of the device
    assumes, and where the two disagree about the depth of a ring.
  \<^item> \<open>Host_Threads\<close>: the \<open>main\<close> functions with several threads, and \<open>dpa_small_bank/client.cpp\<close>.  The locale
    \<open>thread_program\<close> states what the host relies on of the initialisation of one thread; every thread is ready when the
    last has started, no two share a ring, and the table of sums needs a thread with number 0.
  \<^item> \<open>Offload_Rules\<close>, \<open>Dpdk_Utils\<close>: \<open>utils/dpdk\<close>; which rules and ports are set up, and which ports are closed
    for each kind of failure.
  \<^item> \<open>Spin_Locks\<close>: \<open>utils/spinlock_mutex.h\<close> access by access, and \<open>get_bind_core\<close>.
  \<^item> \<open>Xxhash64\<close>: the incremental hash of \<open>test_suite/small_bank/xxhash64.h\<close> against the hash of the whole input.
  \<^item> \<open>Bank_Server\<close>, \<open>Bank_Host_Client\<close>, \<open>Bank_System\<close>: \<open>test_suite/small_bank\<close>; the handlers, and the system
    of client and server with messages in any order, its lock invariant, and a lost update.

  \<^bold>\<open>Choices of the model.\<close>
  \<^item> A turn of a receive loop, and a handler of the host server, is one step; between steps the card, or another
    thread, may act.  The spin locks are modelled access by access, with sequentially consistent atomics.
  \<^item> File-scope variables of a device program are a context beside the memory, which holds what is reached by pointers.
  \<^item> Failed assertions, accesses outside an array and unending loops are \<open>None\<close>.  Loops that always end are recursive
    functions with a termination proof or a structural count taken from the source; no bound is chosen for a proof.
  \<^item> Values that C leaves indeterminate are arguments (\<open>junk\<close>); floating point is an argument with the operations used.
  \<^item> In \<open>Kv_Aggregation\<close> an access through the window under another key than that of its memory is \<open>None\<close>; elsewhere
    switching of keys and windows is only recorded in the trace.  Printing and sleeping are left out.
  \<^item> The remote call of an initialisation hands over the configuration record itself, whose copy in device memory is
    part of the history of calls.  The system of \<open>Bank_System\<close> has one client.
  \<^item> The device lock of \<open>dpa_small_bank\<close> is an argument with the documented laws of a spin lock as hypotheses.

  \<^bold>\<open>Not modelled.\<close>  The DOCA wrapper classes of \<open>wrapper/\<close> and the benchmarks that only time calls of DOCA, eRPC or the
  card (\<open>channel_bench\<close>, \<open>compress_bench\<close>, \<open>dma_copy_bench\<close>, \<open>ec_bench\<close>, \<open>gdr_bench\<close>, \<open>memory_bench\<close>,
  \<open>rdma_bench\<close>, \<open>regex_bench\<close>); the bandwidth loops \<open>bench_memory\<close> and \<open>mt_memory\<close>, whose result is a time; the
  host programs of \<open>flexio/bench\<close> and \<open>flexio/roofline\<close>, and \<open>dpa_small_bank/server.cpp\<close>; flags, logging,
  histogram, sockets and generated messages under \<open>utils/\<close>; scripts; and the GPU build of \<open>dpdk_utils.c\<close>.
\<close>

end
